theory Spec2Isabelle
  imports Main "HOL-Library.Sublist" "HOL-Library.Char_ord"
begin

section \<open>Exceptions\<close>

text \<open>
  The exceptions that can leave a function of \<^verbatim>\<open>deb_reversion.py\<close>; of an
  \<^verbatim>\<open>OSError\<close>, \<^verbatim>\<open>shutil.Error\<close> and \<^verbatim>\<open>UnicodeDecodeError\<close> the model keeps
  a text and the name of the encoding, not every attribute. \<open>NotModelled\<close> is not a
  Python exception: it marks input that lies outside the fragment embedded below (pattern
  syntax of the \<^verbatim>\<open>re\<close> module, text with a code point above U+00FF), so that the
  model never invents a behaviour for it.
\<close>

datatype error =
    IndexError string
  | RuntimeError string
  | CalledProcessError "string list" int
  | FileNotFoundError string
  | FileExistsError string
  | NotADirectoryError string
  | IsADirectoryError string
  | BadGzipFile string
  | UnicodeDecodeError string
  | OSError string
  | ShutilError string
  | ReError string
  | NotModelled string

section \<open>The fragment of Python's \<^verbatim>\<open>re\<close> module that the program uses\<close>

text \<open>
  Text is a list of 8-bit characters. All three patterns of the program are compiled with
  \<^verbatim>\<open>re.MULTILINE\<close>, so \<^verbatim>\<open>^\<close> and \<^verbatim>\<open>$\<close> are the line anchors. The
  third pattern is built at run time from the changelog path, so patterns are parsed from
  their text, as \<^verbatim>\<open>re.compile\<close> does.
\<close>

datatype atom = Lit char | Dot | InSet "char list" | NotInSet "char list"

datatype quant = Star | Plus

datatype qmode = Greedy | Possessive

datatype rx =
    Atom atom
  | Bol
  | Eol
  | Rep quant qmode atom
  | Group nat rx
  | Seq rx rx
  | Eps

definition seq_of :: "rx list \<Rightarrow> rx" where
  "seq_of rs = foldr Seq rs Eps"

fun is_rep :: "rx \<Rightarrow> bool" where
  "is_rep (Rep _ _ _) = True"
| "is_rep _ = False"

fun is_at :: "rx \<Rightarrow> bool" where
  "is_at Bol = True"
| "is_at Eol = True"
| "is_at _ = False"

definition starts :: "char \<Rightarrow> string \<Rightarrow> bool" where
  "starts c cs = (case cs of [] \<Rightarrow> False | x # _ \<Rightarrow> x = c)"

text \<open>
  A character set \<^verbatim>\<open>[...]\<close> or \<^verbatim>\<open>[^...]\<close>; the argument is the text after the
  opening bracket. Only sets of plain characters are modelled (the program's own set is
  \<^verbatim>\<open>[^ ]\<close>): ranges, escapes and a leading \<^verbatim>\<open>]\<close> are reported as \<open>NotModelled\<close>.
\<close>

definition parse_class :: "string \<Rightarrow> error + (atom \<times> string)" where
  "parse_class cs =
     (let neg = starts (CHR ''^'') cs;
          cs1 = (if neg then tl cs else cs);
          body = takeWhile (\<lambda>c. c \<noteq> CHR '']'') cs1;
          rest = dropWhile (\<lambda>c. c \<noteq> CHR '']'') cs1
      in if rest = [] then Inl (ReError ''unterminated character set'')
         else if body = [] \<or> (\<exists>c \<in> set body. c = CHR 0x5C \<or> c = CHR ''['' \<or> c = CHR ''-'')
           then Inl (NotModelled ''character set'')
         else Inr (if neg then NotInSet body else InSet body, tl rest))"

lemma parse_class_shorter:
  "parse_class cs = Inr (a, rest) \<Longrightarrow> length rest < Suc (length cs)"
proof -
  have d: "length (dropWhile P xs) \<le> length xs" for P and xs :: string
    by (rule length_dropWhile_le)
  assume "parse_class cs = Inr (a, rest)"
  then have "rest = tl (dropWhile (\<lambda>c. c \<noteq> CHR '']'') (if starts (CHR ''^'') cs then tl cs else cs))"
    by (auto simp: parse_class_def Let_def split: if_splits)
  moreover have "length (tl (dropWhile (\<lambda>c. c \<noteq> CHR '']'') (tl cs))) \<le> length cs"
    using d [of "\<lambda>c. c \<noteq> CHR '']''" "tl cs"] by simp
  moreover have "length (tl (dropWhile (\<lambda>c. c \<noteq> CHR '']'') cs)) \<le> length cs"
    using d [of "\<lambda>c. c \<noteq> CHR '']''" cs] by simp
  ultimately show ?thesis by (simp split: if_splits)
qed

text \<open>
  The parser of \<^verbatim>\<open>re.compile\<close>, for sequences of characters, \<^verbatim>\<open>.\<close>, character
  sets, line anchors, capturing groups and the quantifiers \<^verbatim>\<open>*\<close> and \<^verbatim>\<open>+\<close>,
  greedy or possessive (\<^verbatim>\<open>*+\<close>, \<^verbatim>\<open>++\<close>). \<open>n\<close> counts the groups opened so far,
  \<open>stk\<close> holds the enclosing groups with the items read before each, \<open>cur\<close> the items
  of the current group, last first. The errors are those of the library: a quantifier
  with nothing before it or after an anchor is ``nothing to repeat'', a quantifier after
  a quantified item is ``multiple repeat''.
\<close>

function parse :: "nat \<Rightarrow> (nat \<times> rx list) list \<Rightarrow> rx list \<Rightarrow> string \<Rightarrow> error + (rx \<times> nat)" where
  "parse n stk cur [] =
     (if stk = [] then Inr (seq_of (rev cur), n)
      else Inl (ReError ''missing ), unterminated subpattern''))"
| "parse n stk cur (c # cs) =
     (if c = CHR ''('' then
        (if starts (CHR ''?'') cs then Inl (NotModelled ''group extension'')
         else parse (Suc n) ((Suc n, cur) # stk) [] cs)
      else if c = CHR '')'' then
        (case stk of
           [] \<Rightarrow> Inl (ReError ''unbalanced parenthesis'')
         | (i, outer) # stk' \<Rightarrow> parse n stk' (Group i (seq_of (rev cur)) # outer) cs)
      else if c = CHR ''*'' \<or> c = CHR ''+'' then
        (case cur of
           [] \<Rightarrow> Inl (ReError ''nothing to repeat'')
         | item # cur' \<Rightarrow>
             if is_at item then Inl (ReError ''nothing to repeat'')
             else if is_rep item then Inl (ReError ''multiple repeat'')
             else (case item of
                     Atom a \<Rightarrow>
                       (let q = (if c = CHR ''*'' then Star else Plus) in
                        if starts (CHR ''+'') cs then parse n stk (Rep q Possessive a # cur') (tl cs)
                        else if starts (CHR ''?'') cs then Inl (NotModelled ''lazy quantifier'')
                        else parse n stk (Rep q Greedy a # cur') cs)
                   | _ \<Rightarrow> Inl (NotModelled ''quantified group'')))
      else if c = CHR ''^'' then parse n stk (Bol # cur) cs
      else if c = CHR ''$'' then parse n stk (Eol # cur) cs
      else if c = CHR ''.'' then parse n stk (Atom Dot # cur) cs
      else if c = CHR ''['' then
        (case parse_class cs of
           Inl e \<Rightarrow> Inl e
         | Inr (a, rest) \<Rightarrow> parse n stk (Atom a # cur) rest)
      else if c = CHR 0x5C \<or> c = CHR ''|'' \<or> c = CHR ''?'' \<or> c = CHR ''{''
        then Inl (NotModelled [c])
      else parse n stk (Atom (Lit c) # cur) cs)"
  by pat_completeness auto
termination
  by (relation "measure (\<lambda>(n, stk, cur, s). length s)")
     (auto simp: parse_class_shorter starts_def split: list.splits)

definition re_compile :: "string \<Rightarrow> error + (rx \<times> nat)" where
  "re_compile pat = parse 0 [] [] pat"

subsection \<open>Matching\<close>

text \<open>
  A matcher state is the character before the current position (if any), the text from
  the current position on, and the groups captured so far. \<open>ms r st\<close> lists the states
  in which a match of \<open>r\<close> from \<open>st\<close> can end, in the order in which the backtracking
  matcher of the library tries them; the match it reports is the first.
\<close>

type_synonym mstate = "char option \<times> string \<times> (nat \<times> string) list"

fun accepts :: "atom \<Rightarrow> char \<Rightarrow> bool" where
  "accepts (Lit c) x = (x = c)"
| "accepts Dot x = (x \<noteq> CHR 0x0A)"
| "accepts (InSet cs) x = (x \<in> set cs)"
| "accepts (NotInSet cs) x = (x \<notin> set cs)"

fun one :: "atom \<Rightarrow> mstate \<Rightarrow> mstate list" where
  "one a (p, [], g) = []"
| "one a (p, x # xs, g) = (if accepts a x then [(Some x, xs, g)] else [])"

fun reps :: "atom \<Rightarrow> char option \<Rightarrow> string \<Rightarrow> (nat \<times> string) list \<Rightarrow> mstate list" where
  "reps a p [] g = [(p, [], g)]"
| "reps a p (x # xs) g =
     (if accepts a x then reps a (Some x) xs g @ [(p, x # xs, g)] else [(p, x # xs, g)])"

fun ms :: "rx \<Rightarrow> mstate \<Rightarrow> mstate list" where
  "ms (Atom a) st = one a st"
| "ms Bol (p, s, g) = (if p = None \<or> p = Some (CHR 0x0A) then [(p, s, g)] else [])"
| "ms Eol (p, s, g) = (if s = [] \<or> starts (CHR 0x0A) s then [(p, s, g)] else [])"
| "ms (Rep q m a) (p, s, g) =
     (let every = (case q of
                     Star \<Rightarrow> reps a p s g
                   | Plus \<Rightarrow> concat (map (\<lambda>(p', s', g'). reps a p' s' g') (one a (p, s, g))))
      in case m of Greedy \<Rightarrow> every | Possessive \<Rightarrow> take 1 every)"
| "ms (Group i r) (p, s, g) =
     map (\<lambda>(p', s', g'). (p', s', (i, take (length s - length s') s) # g')) (ms r (p, s, g))"
| "ms (Seq r1 r2) st = concat (map (ms r2) (ms r1 st))"
| "ms Eps st = [st]"

text \<open>
  One attempt at one position. With \<open>adv\<close> (the library's \<^verbatim>\<open>must_advance\<close>) an empty
  match is refused and the matcher backtracks to the next candidate.
\<close>

definition match_at :: "rx \<Rightarrow> bool \<Rightarrow> char option \<Rightarrow> string \<Rightarrow> mstate option" where
  "match_at r adv p s =
     List.find (\<lambda>(p', s', g'). \<not> adv \<or> length s' < length s) (ms r (p, s, []))"

text \<open>\<^verbatim>\<open>Pattern.search\<close>: the leftmost position with a match; the result is the groups.\<close>

fun search :: "rx \<Rightarrow> char option \<Rightarrow> string \<Rightarrow> (nat \<times> string) list option" where
  "search r p [] = map_option (\<lambda>(p', s', g'). g') (match_at r False p [])"
| "search r p (x # xs) =
     (case match_at r False p (x # xs) of
        Some (p', s', g') \<Rightarrow> Some g'
      | None \<Rightarrow> search r (Some x) xs)"

subsection \<open>Replacement templates\<close>

text \<open>
  \<^verbatim>\<open>Pattern.sub\<close> with a string as replacement processes the backslash escapes of that
  string before it looks for any match (the library's \<^verbatim>\<open>parse_template\<close>): a
  backslash followed by a digit or by \<^verbatim>\<open>g<...>\<close> refers to a group, the escapes
  \<^verbatim>\<open>\a \b \f \n \r \t \v \\\<close> and octal escapes stand for one character, a backslash
  before any other ASCII letter is an error, and before anything else it is kept.
  \<open>k\<close> is the number of groups of the pattern. Group names that are neither a string
  of ASCII digits nor an ASCII identifier are treated differently by different versions
  of the library and are left out of the model.
\<close>

datatype titem = TLit char | TGroup nat

definition is_digit :: "char \<Rightarrow> bool" where
  "is_digit c = (CHR ''0'' \<le> c \<and> c \<le> CHR ''9'')"

definition is_octdigit :: "char \<Rightarrow> bool" where
  "is_octdigit c = (CHR ''0'' \<le> c \<and> c \<le> CHR ''7'')"

definition is_ascii_letter :: "char \<Rightarrow> bool" where
  "is_ascii_letter c = ((CHR ''a'' \<le> c \<and> c \<le> CHR ''z'') \<or> (CHR ''A'' \<le> c \<and> c \<le> CHR ''Z''))"

definition is_identifier :: "string \<Rightarrow> bool" where
  "is_identifier name =
     (case name of
        [] \<Rightarrow> False
      | c # cs \<Rightarrow> (is_ascii_letter c \<or> c = CHR ''_'')
                 \<and> list_all (\<lambda>x. is_ascii_letter x \<or> is_digit x \<or> x = CHR ''_'') cs)"

definition digit_val :: "char \<Rightarrow> nat" where
  "digit_val c = of_char c - 48"

definition number_of :: "nat \<Rightarrow> string \<Rightarrow> nat" where
  "number_of base ds = foldl (\<lambda>n d. base * n + digit_val d) 0 ds"

definition simple_escape :: "char \<Rightarrow> char option" where
  "simple_escape e =
     (if e = CHR ''a'' then Some (CHR 0x07)
      else if e = CHR ''b'' then Some (CHR 0x08)
      else if e = CHR ''f'' then Some (CHR 0x0C)
      else if e = CHR ''n'' then Some (CHR 0x0A)
      else if e = CHR ''r'' then Some (CHR 0x0D)
      else if e = CHR ''t'' then Some (CHR 0x09)
      else if e = CHR ''v'' then Some (CHR 0x0B)
      else if e = CHR 0x5C then Some (CHR 0x5C)
      else None)"

definition group_ref :: "nat \<Rightarrow> nat \<Rightarrow> error + titem" where
  "group_ref k i = (if i > k then Inl (ReError ''invalid group reference'') else Inr (TGroup i))"

text \<open>
  One escape; the argument is the text after the backslash. The result is the items the
  escape stands for and the text left after it.
\<close>

definition parse_escape :: "nat \<Rightarrow> string \<Rightarrow> error + (titem list \<times> string)" where
  "parse_escape k cs =
     (case cs of
        [] \<Rightarrow> Inl (ReError ''bad escape (end of pattern)'')
      | e # r \<Rightarrow>
          if e = CHR ''g'' then
            (if \<not> starts (CHR ''<'') r then Inl (ReError ''missing <'')
             else
               let name = takeWhile (\<lambda>c. c \<noteq> CHR ''>'') (tl r);
                   rest = dropWhile (\<lambda>c. c \<noteq> CHR ''>'') (tl r)
               in if name = [] then Inl (ReError ''missing group name'')
                  else if rest = [] then Inl (ReError ''missing >, unterminated name'')
                  else if list_all is_digit name then
                    (case group_ref k (number_of 10 name) of
                       Inl err \<Rightarrow> Inl err
                     | Inr it \<Rightarrow> Inr ([it], tl rest))
                  else if is_identifier name then Inl (IndexError ''unknown group name'')
                  else Inl (NotModelled ''group name''))
          else if e = CHR ''0'' then
            (let ds = takeWhile is_octdigit (take 2 r)
             in Inr ([TLit (char_of (number_of 8 ds mod 256))], drop (length ds) r))
          else if is_digit e then
            (if r \<noteq> [] \<and> is_digit (hd r) then
               (if is_octdigit e \<and> is_octdigit (hd r) \<and> tl r \<noteq> [] \<and> is_octdigit (hd (tl r)) then
                  (let v = number_of 8 [e, hd r, hd (tl r)]
                   in if v > 255 then Inl (ReError ''octal escape value outside of range 0-0o377'')
                      else Inr ([TLit (char_of v)], tl (tl r)))
                else
                  (case group_ref k (number_of 10 [e, hd r]) of
                     Inl err \<Rightarrow> Inl err
                   | Inr it \<Rightarrow> Inr ([it], tl r)))
             else
               (case group_ref k (number_of 10 [e]) of
                  Inl err \<Rightarrow> Inl err
                | Inr it \<Rightarrow> Inr ([it], r)))
          else
            (case simple_escape e of
               Some c \<Rightarrow> Inr ([TLit c], r)
             | None \<Rightarrow>
                 if is_ascii_letter e then Inl (ReError ''bad escape'')
                 else Inr ([TLit (CHR 0x5C), TLit e], r)))"

lemma parse_escape_shorter:
  "parse_escape k cs = Inr (its, rest) \<Longrightarrow> length rest \<le> length cs"
proof -
  have d: "length (dropWhile P (tl xs)) - Suc 0 \<le> Suc (length xs)" for P and xs :: string
    using length_dropWhile_le [of P "tl xs"] by simp
  assume "parse_escape k cs = Inr (its, rest)"
  then show ?thesis
    by (cases cs)
       (auto simp: parse_escape_def Let_def d le_SucI
             split: if_splits sum.splits option.splits)
qed

function parse_template :: "nat \<Rightarrow> string \<Rightarrow> error + titem list" where
  "parse_template k [] = Inr []"
| "parse_template k (c # cs) =
     (if c = CHR 0x5C then
        (case parse_escape k cs of
           Inl e \<Rightarrow> Inl e
         | Inr (its, rest) \<Rightarrow>
             (case parse_template k rest of
                Inl e \<Rightarrow> Inl e
              | Inr more \<Rightarrow> Inr (its @ more)))
      else
        (case parse_template k cs of
           Inl e \<Rightarrow> Inl e
         | Inr more \<Rightarrow> Inr (TLit c # more)))"
  by pat_completeness auto
termination
  by (relation "measure (\<lambda>(k, s). length s)")
     (auto dest: parse_escape_shorter)

text \<open>
  The text that replaces one match: \<open>whole\<close> is the matched text (group 0), a group
  that took no part in the match expands to the empty string.
\<close>

fun expand_item :: "string \<Rightarrow> (nat \<times> string) list \<Rightarrow> titem \<Rightarrow> string" where
  "expand_item whole g (TLit c) = [c]"
| "expand_item whole g (TGroup i) =
     (if i = 0 then whole else (case map_of g i of None \<Rightarrow> [] | Some t \<Rightarrow> t))"

definition expand :: "titem list \<Rightarrow> string \<Rightarrow> (nat \<times> string) list \<Rightarrow> string" where
  "expand its whole g = concat (map (expand_item whole g) its)"

subsection \<open>Substitution\<close>

lemma match_at_advances:
  "match_at r True p s = Some (p', s', g') \<Longrightarrow> length s' < length s"
  unfolding match_at_def by (auto simp: find_Some_iff)

text \<open>
  The loop of \<^verbatim>\<open>Pattern.sub\<close> (count 0: every match is replaced). The search resumes
  where the last match ended; after an empty match it resumes at the same position and
  must advance. Text between matches is copied.
\<close>

function sub_loop :: "rx \<Rightarrow> (string \<Rightarrow> (nat \<times> string) list \<Rightarrow> string) \<Rightarrow> bool \<Rightarrow> char option \<Rightarrow> string \<Rightarrow> string" where
  "sub_loop r rep adv p s =
     (case match_at r adv p s of
        Some (p', s', g') \<Rightarrow>
          rep (take (length s - length s') s) g'
            @ (if length s' < length s then sub_loop r rep False p' s'
               else sub_loop r rep True p s)
      | None \<Rightarrow>
          (case s of
             [] \<Rightarrow> []
           | x # xs \<Rightarrow> x # sub_loop r rep False (Some x) xs))"
  by pat_completeness auto
termination
proof (relation "measure (\<lambda>(r, rep, adv, p, s). 2 * length s + (if adv then 0 else 1))")
  show "wf (measure (\<lambda>(r, rep, adv, p, s). 2 * length s + (if adv then 0 else 1)))"
    by simp
next
  fix r :: rx and rep :: "string \<Rightarrow> (nat \<times> string) list \<Rightarrow> string"
    and adv p s x2 p' y s' g'
  assume "match_at r adv p s = Some x2" "(p', y) = x2" "(s', g') = y" "length s' < length s"
  then show "((r, rep, False, p', s'), r, rep, adv, p, s)
      \<in> measure (\<lambda>(r, rep, adv, p, s). 2 * length s + (if adv then 0 else 1))"
    by simp
next
  fix r :: rx and rep :: "string \<Rightarrow> (nat \<times> string) list \<Rightarrow> string"
    and adv p s x2 p' y s' g'
  assume m: "match_at r adv p s = Some x2" "(p', y) = x2" "(s', g') = y"
    and n: "\<not> length s' < length s"
  have "\<not> adv"
  proof
    assume adv
    with m have "match_at r True p s = Some (p', s', g')" by simp
    then have "length s' < length s" by (rule match_at_advances)
    with n show False by simp
  qed
  then show "((r, rep, True, p, s), r, rep, adv, p, s)
      \<in> measure (\<lambda>(r, rep, adv, p, s). 2 * length s + (if adv then 0 else 1))"
    by simp
next
  fix r :: rx and rep :: "string \<Rightarrow> (nat \<times> string) list \<Rightarrow> string"
    and adv p s x xs
  assume "s = x # xs"
  then show "((r, rep, False, Some x, xs), r, rep, adv, p, s)
      \<in> measure (\<lambda>(r, rep, adv, p, s). 2 * length s + (if adv then 0 else 1))"
    by simp
qed

declare sub_loop.simps [simp del]

text \<open>
  \<^verbatim>\<open>Pattern.sub(repl, text)\<close> for a compiled pattern (its expression and its number of
  groups), and \<^verbatim>\<open>re.sub(pattern, repl, text, flags=re.MULTILINE)\<close>, which compiles first.
\<close>

definition pattern_sub :: "rx \<times> nat \<Rightarrow> string \<Rightarrow> string \<Rightarrow> error + string" where
  "pattern_sub re repl text =
     (case parse_template (snd re) repl of
        Inl e \<Rightarrow> Inl e
      | Inr its \<Rightarrow> Inr (sub_loop (fst re) (expand its) False None text))"

definition re_sub :: "string \<Rightarrow> string \<Rightarrow> string \<Rightarrow> error + string" where
  "re_sub pat repl text =
     (case re_compile pat of
        Inl e \<Rightarrow> Inl e
      | Inr re \<Rightarrow> pattern_sub re repl text)"

section \<open>Path names (\<^verbatim>\<open>posixpath\<close>)\<close>

text \<open>\<^verbatim>\<open>str.split(sep)\<close>: the pieces between the separators, empty pieces included.\<close>

fun split_on :: "char \<Rightarrow> string \<Rightarrow> string list" where
  "split_on c [] = [[]]"
| "split_on c (x # xs) =
     (if x = c then [] # split_on c xs
      else (case split_on c xs of
              [] \<Rightarrow> [[x]]
            | w # ws \<Rightarrow> (x # w) # ws))"

fun join_with :: "string \<Rightarrow> string list \<Rightarrow> string" where
  "join_with sep [] = []"
| "join_with sep [w] = w"
| "join_with sep (w # ws) = w @ sep @ join_with sep ws"

definition isabs :: "string \<Rightarrow> bool" where
  "isabs path = starts (CHR ''/'') path"

definition path_join :: "string \<Rightarrow> string \<Rightarrow> string" where
  "path_join a b =
     (if starts (CHR ''/'') b then b
      else if a = [] \<or> last a = CHR ''/'' then a @ b
      else a @ ''/'' @ b)"

text \<open>
  The loop of \<^verbatim>\<open>normpath\<close> over the components; \<open>new_comps\<close> is kept with its last
  element first.
\<close>

fun norm_comps :: "bool \<Rightarrow> string list \<Rightarrow> string list \<Rightarrow> string list" where
  "norm_comps initial new_comps [] = rev new_comps"
| "norm_comps initial new_comps (cmp # comps) =
     (if cmp = [] \<or> cmp = ''.'' then norm_comps initial new_comps comps
      else if cmp \<noteq> ''..'' \<or> (\<not> initial \<and> new_comps = [])
              \<or> (new_comps \<noteq> [] \<and> hd new_comps = ''..'')
        then norm_comps initial (cmp # new_comps) comps
      else if new_comps \<noteq> [] then norm_comps initial (tl new_comps) comps
      else norm_comps initial new_comps comps)"

definition initial_slashes :: "string \<Rightarrow> nat" where
  "initial_slashes path =
     (if \<not> starts (CHR ''/'') path then 0
      else if take 2 path = ''//'' \<and> take 3 path \<noteq> ''///'' then 2
      else 1)"

definition normpath :: "string \<Rightarrow> string" where
  "normpath path =
     (if path = [] then ''.''
      else
        let i = initial_slashes path;
            comps = norm_comps (i \<noteq> 0) [] (split_on (CHR ''/'') path);
            p = replicate i (CHR ''/'') @ join_with ''/'' comps
        in if p = [] then ''.'' else p)"

text \<open>\<^verbatim>\<open>os.path.abspath\<close>, with the current directory as an argument.\<close>

definition abspath :: "string \<Rightarrow> string \<Rightarrow> string" where
  "abspath cwd path = normpath (if isabs path then path else path_join cwd path)"

section \<open>Text files\<close>

text \<open>
  The program opens \<^verbatim>\<open>DEBIAN/control\<close> and \<^verbatim>\<open>DEBIAN/md5sums\<close> as text, with
  \<^verbatim>\<open>encoding="utf-8"\<close> and no \<^verbatim>\<open>newline\<close> argument. Reading decodes the bytes of
  the file, strictly: a byte sequence that is not UTF-8 (overlong forms, surrogates and
  code points above U+10FFFF among them) raises \<^verbatim>\<open>UnicodeDecodeError\<close>. After that
  every \<^verbatim>\<open>\r\n\<close> and every other \<^verbatim>\<open>\r\<close> of the text becomes \<^verbatim>\<open>\n\<close>. Writing
  encodes the text; on POSIX, where the program runs (it calls \<^verbatim>\<open>os.geteuid\<close>), a
  \<^verbatim>\<open>\n\<close> is written as it is.

  A character of the model's text is a code point from U+0000 to U+00FF. A file that is
  valid UTF-8 and holds a code point above U+00FF is outside the model and marked so.
\<close>

definition continuation :: "nat \<Rightarrow> bool" where
  "continuation b = (0x80 \<le> b \<and> b \<le> 0xBF)"

text \<open>
  The code points of a sequence of bytes, \<open>None\<close> when it is not UTF-8. The second byte
  of a sequence is restricted after the lead bytes \<^verbatim>\<open>E0\<close>, \<^verbatim>\<open>ED\<close>, \<^verbatim>\<open>F0\<close> and
  \<^verbatim>\<open>F4\<close>.
\<close>

definition second_ok :: "nat \<Rightarrow> nat \<Rightarrow> bool" where
  "second_ok b c =
     (if b = 0xE0 then 0xA0 \<le> c \<and> c \<le> 0xBF
      else if b = 0xED then 0x80 \<le> c \<and> c \<le> 0x9F
      else if b = 0xF0 then 0x90 \<le> c \<and> c \<le> 0xBF
      else if b = 0xF4 then 0x80 \<le> c \<and> c \<le> 0x8F
      else continuation c)"

fun utf8_points :: "nat list \<Rightarrow> nat list option" where
  "utf8_points [] = Some []"
| "utf8_points (b # bs) =
     (if b < 0x80 then map_option (Cons b) (utf8_points bs)
      else if 0xC2 \<le> b \<and> b \<le> 0xDF then
        (case bs of
           c # rest \<Rightarrow>
             if continuation c
             then map_option (Cons ((b - 0xC0) * 64 + (c - 0x80))) (utf8_points rest)
             else None
         | _ \<Rightarrow> None)
      else if 0xE0 \<le> b \<and> b \<le> 0xEF then
        (case bs of
           c # d # rest \<Rightarrow>
             if second_ok b c \<and> continuation d
             then map_option (Cons ((b - 0xE0) * 4096 + (c - 0x80) * 64 + (d - 0x80)))
                    (utf8_points rest)
             else None
         | _ \<Rightarrow> None)
      else if 0xF0 \<le> b \<and> b \<le> 0xF4 then
        (case bs of
           c # d # f # rest \<Rightarrow>
             if second_ok b c \<and> continuation d \<and> continuation f
             then map_option (Cons ((b - 0xF0) * 262144 + (c - 0x80) * 4096 + (d - 0x80) * 64
                                    + (f - 0x80)))
                    (utf8_points rest)
             else None
         | _ \<Rightarrow> None)
      else None)"

definition utf8_decode :: "string \<Rightarrow> error + string" where
  "utf8_decode bytes =
     (case utf8_points (map of_char bytes) of
        None \<Rightarrow> Inl (UnicodeDecodeError ''utf-8'')
      | Some points \<Rightarrow>
          if list_all (\<lambda>p. p < 256) points then Inr (map char_of points)
          else Inl (NotModelled ''code point above U+00FF''))"

definition utf8_encode :: "string \<Rightarrow> string" where
  "utf8_encode t =
     concat (map (\<lambda>c. if of_char c < (0x80 :: nat) then [c]
                       else [char_of (0xC0 + of_char c div (64 :: nat)),
                             char_of (0x80 + of_char c mod (64 :: nat))]) t)"

fun universal_newlines :: "string \<Rightarrow> string" where
  "universal_newlines [] = []"
| "universal_newlines [c] = [if c = CHR 0x0D then CHR 0x0A else c]"
| "universal_newlines (c # d # cs) =
     (if c = CHR 0x0D \<and> d = CHR 0x0A then CHR 0x0A # universal_newlines cs
      else if c = CHR 0x0D then CHR 0x0A # universal_newlines (d # cs)
      else c # universal_newlines (d # cs))"

section \<open>The world the program runs in\<close>

text \<open>
  Outside the temporary directory there is a file system of directories, regular files
  and symbolic links. Each is kept under its canonical name, the list of names that leads
  to it from the root through directories only; the root is the empty list and always a
  directory.
\<close>

datatype entry = Regular string | Directory | Symlink string

type_synonym fsys = "string list \<rightharpoonup> entry"

definition is_dir :: "fsys \<Rightarrow> string list \<Rightarrow> bool" where
  "is_dir t p = (p = [] \<or> t p = Some Directory)"

text \<open>
  Path resolution as the operating system does it, one component after the other from
  the directory \<open>cur\<close>: an empty component and \<^verbatim>\<open>.\<close> stay, \<^verbatim>\<open>..\<close> goes to the
  parent of the directory reached (the root is its own parent), a symbolic link is
  replaced by its target, and every component but the last must lead to a directory. The
  last component may name nothing yet. \<open>follow\<close> says whether a symbolic link in the last
  place is followed, as \<^verbatim>\<open>open\<close> does and \<^verbatim>\<open>rename\<close> does not. At most \<open>n\<close> links
  are followed. The result is a canonical name, or \<open>None\<close> when the resolution fails.
\<close>

function walk :: "fsys \<Rightarrow> bool \<Rightarrow> nat \<Rightarrow> string list \<Rightarrow> string list \<Rightarrow> string list option" where
  "walk t follow n cur [] = Some cur"
| "walk t follow n cur (c # cs) =
     (if \<not> is_dir t cur then None
      else if c = [] \<or> c = ''.'' then walk t follow n cur cs
      else if c = ''..'' then walk t follow n (butlast cur) cs
      else
        (case t (cur @ [c]) of
           None \<Rightarrow> if cs = [] then Some (cur @ [c]) else None
         | Some (Symlink target) \<Rightarrow>
             if cs = [] \<and> \<not> follow then Some (cur @ [c])
             else
               (case n of
                  0 \<Rightarrow> None
                | Suc m \<Rightarrow>
                    if target = [] then None
                    else walk t follow m (if starts (CHR ''/'') target then [] else cur)
                           (split_on (CHR ''/'') target @ cs))
         | Some other \<Rightarrow> walk t follow n (cur @ [c]) cs))"
  by pat_completeness auto
termination
  by (relation "measures [\<lambda>(t, follow, n, cur, cs). n, \<lambda>(t, follow, n, cur, cs). length cs]") auto

text \<open>
  The names of a canonical directory name such as \<^verbatim>\<open>/home/user\<close>, and the resolution
  of a path given to a system call by a process whose current directory is \<open>dir\<close>. Linux
  follows 40 links at most.
\<close>

definition names :: "string \<Rightarrow> string list" where
  "names dir = filter (\<lambda>c. c \<noteq> []) (split_on (CHR ''/'') dir)"

definition os_resolve :: "fsys \<Rightarrow> bool \<Rightarrow> string \<Rightarrow> string \<Rightarrow> string list option" where
  "os_resolve t follow dir path =
     (if path = [] then None
      else walk t follow 40 (if starts (CHR ''/'') path then [] else names dir)
             (split_on (CHR ''/'') path))"

text \<open>
  The staging tree (the directory \<^verbatim>\<open>package\<close> inside the temporary directory) maps
  the path of an entry, relative to its root and as the program writes it, to a regular
  file with its bytes or to a directory. \<open>package_deb\<close> is the file
  \<^verbatim>\<open>package.deb\<close> beside it in the temporary directory. \<open>stdout\<close> is what was
  printed and \<open>probed\<close> the paths that \<^verbatim>\<open>os.path.isfile\<close> was asked about, both in
  order. \<open>cwd\<close> is the current directory by name.
\<close>

datatype node = File string | Dir

type_synonym tree = "string \<rightharpoonup> node"

record world =
  fs :: fsys
  staged :: tree
  package_deb :: "string option"
  stdout :: "string list"
  probed :: "string list"
  cwd :: string

text \<open>
  What \<^verbatim>\<open>shutil.move\<close> of a regular file does once the destination is known: it
  renames the file; when the rename fails (the temporary directory is on another file
  system, say) it copies the file over the destination and removes the source. The copy
  can fail at any point and then leaves the destination as it was (\<open>None\<close>) or with the
  bytes written so far.
\<close>

datatype move_outcome = Renamed | Copied | MoveFailed error "string option"

text \<open>
  What the program cannot decide itself: its command line and effective user, the name
  of the fresh temporary directory, the external tools, and how the final move goes (for
  the canonical name of the destination and the bytes to move). A tool gives its exit
  status and what it wrote; \<^verbatim>\<open>dpkg-deb\<close> is given the content of the archive file, if
  the path leads to a regular file. \<open>str_exc\<close> is Python's text for a
  \<^verbatim>\<open>CalledProcessError\<close>.
\<close>

record env =
  argv :: "string list"
  euid :: nat
  mkdtemp :: string
  dpkg_extract :: "string option \<Rightarrow> int \<times> tree"
  dpkg_control :: "string option \<Rightarrow> int \<times> tree"
  dpkg_build :: "tree \<Rightarrow> int \<times> string"
  dch :: "string \<Rightarrow> string \<Rightarrow> int \<times> string"
  gunzip :: "string \<Rightarrow> string option"
  gzip :: "string \<Rightarrow> string"
  md5_hexdigest :: "string \<Rightarrow> string"
  str_exc :: "string list \<Rightarrow> int \<Rightarrow> string"
  shutil_move :: "string list \<Rightarrow> string \<Rightarrow> move_outcome"

datatype 'a result = Ok 'a world | Raise error world

fun world_of :: "'a result \<Rightarrow> world" where
  "world_of (Ok a w) = w"
| "world_of (Raise err w) = w"

definition bind :: "'a result \<Rightarrow> ('a \<Rightarrow> world \<Rightarrow> 'b result) \<Rightarrow> 'b result" where
  "bind m f = (case m of Ok a w \<Rightarrow> f a w | Raise e w \<Rightarrow> Raise e w)"

definition print :: "string \<Rightarrow> world \<Rightarrow> world" where
  "print line w = w\<lparr>stdout := stdout w @ [line]\<rparr>"

text \<open>\<^verbatim>\<open>subprocess.check_call\<close>: a non-zero exit status is raised.\<close>

definition check_call :: "string list \<Rightarrow> int \<Rightarrow> world \<Rightarrow> unit result" where
  "check_call cmd status w = (if status \<noteq> 0 then Raise (CalledProcessError cmd status) w else Ok () w)"

definition is_regular :: "tree \<Rightarrow> string \<Rightarrow> bool" where
  "is_regular t path = (case t path of Some (File c) \<Rightarrow> True | _ \<Rightarrow> False)"

definition isfile :: "string \<Rightarrow> world \<Rightarrow> bool result" where
  "isfile path w = Ok (is_regular (staged w) path) (w\<lparr>probed := probed w @ [path]\<rparr>)"

text \<open>Files of the staging tree opened in binary mode.\<close>

definition read_bytes :: "string \<Rightarrow> world \<Rightarrow> string result" where
  "read_bytes path w =
     (case staged w path of
        None \<Rightarrow> Raise (FileNotFoundError path) w
      | Some Dir \<Rightarrow> Raise (IsADirectoryError path) w
      | Some (File c) \<Rightarrow> Ok c w)"

definition write_bytes :: "string \<Rightarrow> string \<Rightarrow> world \<Rightarrow> unit result" where
  "write_bytes path c w =
     (case staged w path of
        Some Dir \<Rightarrow> Raise (IsADirectoryError path) w
      | _ \<Rightarrow> Ok () (w\<lparr>staged := (staged w)(path \<mapsto> File c)\<rparr>))"

text \<open>Files of the staging tree opened as text.\<close>

definition read_text :: "string \<Rightarrow> world \<Rightarrow> string result" where
  "read_text path w =
     (case staged w path of
        None \<Rightarrow> Raise (FileNotFoundError path) w
      | Some Dir \<Rightarrow> Raise (IsADirectoryError path) w
      | Some (File bytes) \<Rightarrow>
          (case utf8_decode bytes of
             Inl err \<Rightarrow> Raise err w
           | Inr t \<Rightarrow> Ok (universal_newlines t) w))"

definition write_text :: "string \<Rightarrow> string \<Rightarrow> world \<Rightarrow> unit result" where
  "write_text path t w = write_bytes path (utf8_encode t) w"

definition mkdir :: "string \<Rightarrow> world \<Rightarrow> unit result" where
  "mkdir path w =
     (case staged w path of
        None \<Rightarrow> Ok () (w\<lparr>staged := (staged w)(path \<mapsto> Dir)\<rparr>)
      | Some n \<Rightarrow> Raise (FileExistsError path) w)"

text \<open>
  \<^verbatim>\<open>shutil.rmtree(path, onerror=_ignore_file_not_found)\<close>: a missing \<open>path\<close> is
  ignored, any other error is raised again by the handler; a directory goes with
  everything below it.
\<close>

definition rmtree :: "string \<Rightarrow> world \<Rightarrow> unit result" where
  "rmtree path w =
     (case staged w path of
        None \<Rightarrow> Ok () w
      | Some (File c) \<Rightarrow> Raise (NotADirectoryError path) w
      | Some Dir \<Rightarrow>
          Ok () (w\<lparr>staged := (\<lambda>q. if q = path \<or> prefix (path @ ''/'') q then None
                                  else staged w q)\<rparr>))"

text \<open>
  What a path leads to outside the temporary directory: the bytes that a reader of the
  path gets, \<^verbatim>\<open>os.path.isdir\<close> and \<^verbatim>\<open>os.path.exists\<close>.
\<close>

definition read_archive :: "world \<Rightarrow> string \<Rightarrow> string option" where
  "read_archive w path =
     (case os_resolve (fs w) True (cwd w) path of
        None \<Rightarrow> None
      | Some p \<Rightarrow> (case fs w p of Some (Regular c) \<Rightarrow> Some c | _ \<Rightarrow> None))"

definition isdir :: "world \<Rightarrow> string \<Rightarrow> bool" where
  "isdir w path =
     (case os_resolve (fs w) True (cwd w) path of
        None \<Rightarrow> False
      | Some p \<Rightarrow> is_dir (fs w) p)"

definition path_exists :: "world \<Rightarrow> string \<Rightarrow> bool" where
  "path_exists w path =
     (case os_resolve (fs w) True (cwd w) path of
        None \<Rightarrow> False
      | Some p \<Rightarrow> p = [] \<or> fs w p \<noteq> None)"

section \<open>The program\<close>

fun lits :: "string \<Rightarrow> rx list" where
  "lits [] = []"
| "lits (c # cs) = Atom (Lit c) # lits cs"

text \<open>
  \<^verbatim>\<open>PACKAGE_RE = re.compile("^Package: (.+)", re.MULTILINE)\<close> and
  \<^verbatim>\<open>VERSION_RE = re.compile("^Version: .*", re.MULTILINE)\<close>, compiled: the expression
  and the number of groups.
\<close>

definition PACKAGE_RE :: "rx \<times> nat" where
  "PACKAGE_RE = (seq_of (Bol # lits ''Package: '' @ [Group 1 (seq_of [Rep Plus Greedy Dot])]), 1)"

definition VERSION_RE :: "rx \<times> nat" where
  "VERSION_RE = (seq_of (Bol # lits ''Version: '' @ [Rep Star Greedy Dot]), 0)"

text \<open>
  \<^verbatim>\<open>_update_changelog_file\<close>, in the two parts its comments name. The first unpacks
  the changelog into \<^verbatim>\<open>debian/changelog\<close>, runs \<^verbatim>\<open>dch\<close> on it and packs it again;
  all its files are opened in binary mode.
\<close>

definition run_dch :: "env \<Rightarrow> string \<Rightarrow> world \<Rightarrow> unit result" where
  "run_dch e new_version w0 =
     bind (read_bytes ''debian/changelog'' w0) (\<lambda>text w.
       let (status, text') = dch e new_version text in
       bind (write_bytes ''debian/changelog'' text' w) (\<lambda>_ w.
       check_call [''dch'', ''-v'', new_version, ''--'',
                   ''Bumped version during deb synchronization.''] status w))"

definition add_changelog_entry :: "env \<Rightarrow> string \<Rightarrow> string \<Rightarrow> world \<Rightarrow> unit result" where
  "add_changelog_entry e changelog_gz_path new_version w0 =
     bind (mkdir ''debian'' w0) (\<lambda>_ w.
     bind (read_bytes changelog_gz_path w) (\<lambda>gz w.
     bind (write_bytes ''debian/changelog'' [] w) (\<lambda>_ w.
     case gunzip e gz of
       None \<Rightarrow> Raise (BadGzipFile changelog_gz_path) w
     | Some text \<Rightarrow>
         bind (write_bytes ''debian/changelog'' text w) (\<lambda>_ w.
         bind (run_dch e new_version w) (\<lambda>_ w.
         bind (write_bytes changelog_gz_path [] w) (\<lambda>_ w.
         bind (read_bytes ''debian/changelog'' w) (\<lambda>text w.
         write_bytes changelog_gz_path (gzip e text) w)))))))"

text \<open>
  The second part rewrites \<^verbatim>\<open>DEBIAN/md5sums\<close>, opened as text. The replacement of
  the \<^verbatim>\<open>re.sub\<close> call is the f-string \<^verbatim>\<open>f"{md5sum}\1{changelog_gz_path}"\<close>, which
  is not a raw string: Python reads \<^verbatim>\<open>\1\<close> in it as the character with code 1.
\<close>

definition update_md5sums :: "env \<Rightarrow> string \<Rightarrow> world \<Rightarrow> unit result" where
  "update_md5sums e changelog_gz_path w0 =
     bind (read_bytes changelog_gz_path w0) (\<lambda>data w.
       let md5sum = md5_hexdigest e data in
       bind (read_text ''DEBIAN/md5sums'' w) (\<lambda>md5sums_text w.
       case re_sub (''^[^ ]*( *)'' @ changelog_gz_path @ ''$'')
                   (md5sum @ [CHR 0x01] @ changelog_gz_path) md5sums_text of
         Inl err \<Rightarrow> Raise err w
       | Inr md5sums_text' \<Rightarrow> write_text ''DEBIAN/md5sums'' md5sums_text' w))"

definition update_changelog_file :: "env \<Rightarrow> string \<Rightarrow> string \<Rightarrow> world \<Rightarrow> unit result" where
  "update_changelog_file e changelog_gz_path new_version w0 =
     bind (add_changelog_entry e changelog_gz_path new_version w0) (\<lambda>_ w.
     update_md5sums e changelog_gz_path w)"

text \<open>
  The loop of \<^verbatim>\<open>main\<close> over the two changelog names. Only a
  \<^verbatim>\<open>CalledProcessError\<close> is caught; the loop is left after the first name that is a
  file.
\<close>

fun changelog_loop :: "env \<Rightarrow> string \<Rightarrow> string \<Rightarrow> string list \<Rightarrow> world \<Rightarrow> unit result" where
  "changelog_loop e package_name new_version [] w = Ok () w"
| "changelog_loop e package_name new_version (item # items) w =
     (let changelog_gz_path = ''usr/share/doc/'' @ package_name @ ''/'' @ item in
      bind (isfile changelog_gz_path w) (\<lambda>found w.
        if found then
          (case update_changelog_file e changelog_gz_path new_version w of
             Raise (CalledProcessError cmd status) w' \<Rightarrow>
               Ok () (print (''WARNING: Failed to update changelog file: '' @ str_exc e cmd status
                             @ [CHR 0x0A] @ ''Leaving the changelog file unchanged.'') w')
           | Raise err w' \<Rightarrow> Raise err w'
           | Ok u w' \<Rightarrow> Ok () w')
        else changelog_loop e package_name new_version items w))"

text \<open>
  \<^verbatim>\<open>shutil.move("package.deb", deb_file_path)\<close>, from the temporary directory. A
  destination that is a directory takes the file under its own name, unless something of
  that name is there. A rename puts the file under the destination's name, in the place
  of a symbolic link too; a copy writes through a symbolic link into the file it leads
  to.
\<close>

definition move_package_deb :: "env \<Rightarrow> string \<Rightarrow> world \<Rightarrow> unit result" where
  "move_package_deb e dst w =
     (case package_deb w of
        None \<Rightarrow> Raise (FileNotFoundError ''package.deb'') w
      | Some deb \<Rightarrow>
          let real_dst = (if isdir w dst then path_join dst ''package.deb'' else dst) in
          if isdir w dst \<and> path_exists w real_dst
          then Raise (ShutilError (''Destination path '' @ [CHR 0x27] @ real_dst @ [CHR 0x27]
                                   @ '' already exists'')) w
          else
            (case os_resolve (fs w) False (cwd w) real_dst of
               None \<Rightarrow> Raise (FileNotFoundError real_dst) w
             | Some name \<Rightarrow>
                 (case shutil_move e name deb of
                    Renamed \<Rightarrow>
                      Ok () (w\<lparr>fs := (fs w)(name \<mapsto> Regular deb), package_deb := None\<rparr>)
                  | Copied \<Rightarrow>
                      (case os_resolve (fs w) True (cwd w) real_dst of
                         None \<Rightarrow> Raise (FileNotFoundError real_dst) w
                       | Some target \<Rightarrow>
                           Ok () (w\<lparr>fs := (fs w)(target \<mapsto> Regular deb), package_deb := None\<rparr>))
                  | MoveFailed err left \<Rightarrow>
                      (case os_resolve (fs w) True (cwd w) real_dst of
                         None \<Rightarrow> Raise err w
                       | Some target \<Rightarrow>
                           (case left of
                              None \<Rightarrow> Raise err w
                            | Some s \<Rightarrow> Raise err (w\<lparr>fs := (fs w)(target \<mapsto> Regular s)\<rparr>))))))"

text \<open>
  The body of the \<^verbatim>\<open>with contextlib.chdir(package_dir)\<close> block of \<^verbatim>\<open>main\<close>, in
  the three parts its comments name: extract, change version, repack. A change of
  directory is kept by name; inside the temporary directory, which the program has just
  made, the names are taken as they are written.
\<close>

definition chdir :: "string \<Rightarrow> world \<Rightarrow> world" where
  "chdir path w = w\<lparr>cwd := abspath (cwd w) path\<rparr>"

definition extract_deb :: "env \<Rightarrow> string \<Rightarrow> world \<Rightarrow> unit result" where
  "extract_deb e deb_file_path w0 =
     (let (status, payload) = dpkg_extract e (read_archive w0 deb_file_path) in
      bind (check_call [''dpkg-deb'', ''--extract'', deb_file_path, ''.''] status
              (w0\<lparr>staged := payload\<rparr>)) (\<lambda>_ w.
        let (status, control) = dpkg_control e (read_archive w deb_file_path) in
        check_call [''dpkg-deb'', ''--control'', deb_file_path, ''DEBIAN''] status
          (w\<lparr>staged := staged w ++ control\<rparr>)))"

definition change_version :: "env \<Rightarrow> string \<Rightarrow> world \<Rightarrow> unit result" where
  "change_version e new_version w0 =
     bind (read_text ''DEBIAN/control'' w0) (\<lambda>control_text w.
     case search (fst PACKAGE_RE) None control_text of
       None \<Rightarrow> Raise (RuntimeError ''Could not find the package name in deb's control file.'') w
     | Some g \<Rightarrow>
         (let package_name = (case map_of g 1 of None \<Rightarrow> ''None'' | Some name \<Rightarrow> name) in
          case pattern_sub VERSION_RE (''Version: '' @ new_version) control_text of
            Inl err \<Rightarrow> Raise err w
          | Inr control_text' \<Rightarrow>
              bind (changelog_loop e package_name new_version
                      [''changelog.gz'', ''changelog.Debian.gz''] w) (\<lambda>_ w.
              bind (write_text ''DEBIAN/control'' control_text' w) (\<lambda>_ w.
              rmtree ''debian'' w))))"

definition repack :: "env \<Rightarrow> string \<Rightarrow> world \<Rightarrow> unit result" where
  "repack e deb_file_path w0 =
     (let w = chdir ''..'' w0;
          (status, deb) = dpkg_build e (staged w)
      in bind (check_call [''dpkg-deb'', ''-b'', ''package''] status
                 (w\<lparr>package_deb := Some deb\<rparr>)) (\<lambda>_ w.
         move_package_deb e deb_file_path w))"

definition staging :: "env \<Rightarrow> string \<Rightarrow> string \<Rightarrow> world \<Rightarrow> unit result" where
  "staging e deb_file_path new_version w0 =
     bind (extract_deb e deb_file_path w0) (\<lambda>_ w.
     bind (change_version e new_version w) (\<lambda>_ w.
     repack e deb_file_path w))"

datatype outcome = Exit int | Uncaught error

text \<open>
  Leaving the two \<^verbatim>\<open>with\<close> blocks, normally or by an exception: the working directory
  is restored and the temporary directory is removed.
\<close>

definition leave :: "string \<Rightarrow> world \<Rightarrow> world" where
  "leave old w = w\<lparr>cwd := old, staged := Map.empty, package_deb := None\<rparr>"

definition main :: "env \<Rightarrow> world \<Rightarrow> outcome \<times> world" where
  "main e w0 =
     (if length (argv e) < 2 then (Uncaught (IndexError ''list index out of range''), w0)
      else
        let deb_file_path = abspath (cwd w0) (argv e ! 1) in
        if length (argv e) < 3 then (Uncaught (IndexError ''list index out of range''), w0)
        else
          let new_version = argv e ! 2 in
          if euid e \<noteq> 0 then
            (Exit 77,
             print (''Please run this as root/fakeroot to ensure proper ownership''
                    @ '' in the resulting deb archive.'') w0)
          else
            let package_dir = path_join (mkdtemp e) ''package'';
                w1 = (chdir package_dir w0)\<lparr>staged := Map.empty, package_deb := None\<rparr>
            in case staging e deb_file_path new_version w1 of
                 Raise err w \<Rightarrow> (Uncaught err, leave (cwd w0) w)
               | Ok u w \<Rightarrow> (Exit 0, leave (cwd w0) w))"

section \<open>Example runs\<close>

text \<open>
  A small package with a changelog, for any package name, and an environment in which
  every tool succeeds on the archive \<^verbatim>\<open>/home/user/foo.deb\<close> and the final move is a
  rename. Compression is modelled by a marker in front of the text.
\<close>

definition package_payload :: "string \<Rightarrow> tree" where
  "package_payload name =
     [''usr/bin/tool'' \<mapsto> File ''#!/bin/sh'',
      ''usr/share/doc/'' @ name @ ''/changelog.gz'' \<mapsto> File ''gz:first release'']"

definition package_control :: "string \<Rightarrow> tree" where
  "package_control name =
     [''DEBIAN/control'' \<mapsto> File (''Package: '' @ name @ ''\<newline>Version: 1.0\<newline>''),
      ''DEBIAN/md5sums'' \<mapsto>
         File (''9e107d9d372bb6826bd81d3542a419d6  usr/bin/tool\<newline>''
               @ ''e4d909c290d0fb1ca068ffaddf22cbd0  usr/share/doc/'' @ name @ ''/changelog.gz\<newline>'')]"

definition package_env :: "string \<Rightarrow> env" where
  "package_env name =
     \<lparr>argv = [''deb-reversion'', ''foo.deb'', ''2.0''],
      euid = 0,
      mkdtemp = ''/tmp/tmpk3x9'',
      dpkg_extract = (\<lambda>a. if a = Some ''deb 1.0'' then (0, package_payload name) else (2, Map.empty)),
      dpkg_control = (\<lambda>a. if a = Some ''deb 1.0'' then (0, package_control name) else (2, Map.empty)),
      dpkg_build = (\<lambda>t. (0, ''deb with '' @ (case t ''DEBIAN/control'' of Some (File c) \<Rightarrow> c | _ \<Rightarrow> []))),
      dch = (\<lambda>v c. (0, ''bumped to '' @ v @ ''; '' @ c)),
      gunzip = (\<lambda>z. if take 3 z = ''gz:'' then Some (drop 3 z) else None),
      gzip = (\<lambda>c. ''gz:'' @ c),
      md5_hexdigest = (\<lambda>data. ''0cc175b9c0f1b6a831c399e269772661''),
      str_exc = (\<lambda>cmd status. ''Command dch returned non-zero exit status''),
      shutil_move = (\<lambda>name deb. Renamed)\<rparr>"

definition example_world :: world where
  "example_world =
     \<lparr>fs = [[''home''] \<mapsto> Directory, [''home'', ''user''] \<mapsto> Directory,
            [''home'', ''user'', ''foo.deb''] \<mapsto> Regular ''deb 1.0''],
      staged = Map.empty,
      package_deb = None,
      stdout = [],
      probed = [],
      cwd = ''/home/user''\<rparr>"

text \<open>Control metadata without a \<^verbatim>\<open>Package:\<close> field.\<close>

definition no_package_control :: tree where
  "no_package_control = [''DEBIAN/control'' \<mapsto> File ''Version: 1.0\<newline>'']"

text \<open>The world of the example once the archive has been extracted.\<close>

definition staged_package :: "string \<Rightarrow> world" where
  "staged_package name = example_world\<lparr>staged := package_payload name ++ package_control name\<rparr>"

text \<open>The same with both changelog files in the package.\<close>

definition both_changelogs :: world where
  "both_changelogs =
     example_world\<lparr>staged := (package_payload ''foo'' ++ package_control ''foo'')
        (''usr/share/doc/foo/changelog.Debian.gz'' \<mapsto> File ''gz:debian release'')\<rparr>"

text \<open>An archive without payload whose control file has the given bytes.\<close>

definition control_env :: "string \<Rightarrow> env" where
  "control_env bytes =
     package_env ''foo''
       \<lparr>dpkg_extract := (\<lambda>a. (0, Map.empty)),
        dpkg_control := (\<lambda>a. (0, [''DEBIAN/control'' \<mapsto> File bytes]))\<rparr>"

text \<open>
  An archive without payload whose control metadata has two version lines, and a run with
  the new version \<^verbatim>\<open>3\<close>.
\<close>

definition two_versions_env :: env where
  "two_versions_env =
     package_env ''p''
       \<lparr>argv := [''deb-reversion'', ''foo.deb'', ''3''],
        dpkg_extract := (\<lambda>a. (0, Map.empty)),
        dpkg_control := (\<lambda>a. (0, [''DEBIAN/control'' \<mapsto>
                                     File ''Package: p\<newline>Version: 1\<newline>Version: 2\<newline>'']))\<rparr>"

text \<open>
  A directory in which \<^verbatim>\<open>latest\<close> is a symbolic link to \<^verbatim>\<open>/srv/debs/v1\<close>: for the
  operating system \<^verbatim>\<open>latest/../foo.deb\<close> is \<^verbatim>\<open>/srv/debs/foo.deb\<close>.
\<close>

definition linked_world :: world where
  "linked_world =
     example_world\<lparr>fs := (fs example_world)
        ([''home'', ''user'', ''latest''] \<mapsto> Symlink ''/srv/debs/v1'',
         [''srv''] \<mapsto> Directory, [''srv'', ''debs''] \<mapsto> Directory,
         [''srv'', ''debs'', ''v1''] \<mapsto> Directory,
         [''srv'', ''debs'', ''foo.deb''] \<mapsto> Regular ''deb 0.9'')\<rparr>"

section \<open>Facts about the library fragment\<close>

lemma PACKAGE_RE_compiled: "re_compile ''^Package: (.+)'' = Inr PACKAGE_RE"
  by (simp add: re_compile_def PACKAGE_RE_def seq_of_def starts_def)

lemma VERSION_RE_compiled: "re_compile ''^Version: .*'' = Inr VERSION_RE"
  by (simp add: re_compile_def VERSION_RE_def seq_of_def starts_def)

subsection \<open>The matcher\<close>

lemma find_True: "List.find (\<lambda>x. True) xs = (case xs of [] \<Rightarrow> None | x # _ \<Rightarrow> Some x)"
  by (cases xs) auto

lemma match_at_first:
  "match_at r False p s = (case ms r (p, s, []) of [] \<Rightarrow> None | st # _ \<Rightarrow> Some st)"
  by (simp add: match_at_def case_prod_unfold find_True)

lemma concat_map_Eps: "concat (map (ms Eps) xs) = xs"
  by (induction xs) auto

lemma ms_lits:
  "ms (foldr Seq (lits pre @ rs) Eps) (p, s, g) =
     (if prefix pre s
      then ms (foldr Seq rs Eps) (if pre = [] then p else Some (last pre), drop (length pre) s, g)
      else [])"
proof (induction pre arbitrary: p s)
  case Nil
  show ?case by simp
next
  case (Cons c pre)
  show ?case
  proof (cases s)
    case Nil
    then show ?thesis by simp
  next
    case (Cons x xs)
    then show ?thesis using Cons.IH [of "Some c" xs] by auto
  qed
qed

lemma reps_first:
  "\<exists>more. reps a p s g =
     (if takeWhile (accepts a) s = [] then p else Some (last (takeWhile (accepts a) s)),
      dropWhile (accepts a) s, g) # more"
proof (induction s arbitrary: p)
  case Nil
  show ?case by simp
next
  case (Cons x xs)
  show ?case
  proof (cases "accepts a x")
    case True
    from Cons.IH [of "Some x"] obtain more where
      "reps a (Some x) xs g =
         (if takeWhile (accepts a) xs = [] then Some x else Some (last (takeWhile (accepts a) xs)),
          dropWhile (accepts a) xs, g) # more" by blast
    with True show ?thesis by auto
  next
    case False
    then show ?thesis by simp
  qed
qed

text \<open>Where \<^verbatim>\<open>^\<close> matches: at the start of the text and after a line feed.\<close>

definition line_start :: "char option \<Rightarrow> bool" where
  "line_start p = (p = None \<or> p = Some (CHR 0x0A))"

lemma match_at_VERSION_RE:
  "match_at (fst VERSION_RE) False p s =
     (if line_start p \<and> prefix ''Version: '' s
      then Some (Some (last (''Version: '' @ takeWhile (\<lambda>c. c \<noteq> CHR 0x0A) (drop 9 s))),
                 dropWhile (\<lambda>c. c \<noteq> CHR 0x0A) (drop 9 s), [])
      else None)"
proof -
  have dot: "accepts Dot = (\<lambda>c. c \<noteq> CHR 0x0A)" by (rule ext) simp
  obtain more where r: "reps Dot (Some (CHR '' '')) (drop 9 s) [] =
     (if takeWhile (accepts Dot) (drop 9 s) = [] then Some (CHR '' '')
      else Some (last (takeWhile (accepts Dot) (drop 9 s))),
      dropWhile (accepts Dot) (drop 9 s), []) # more"
    using reps_first [of Dot "Some (CHR '' '')" "drop 9 s" "[]"] by blast
  have v: "fst VERSION_RE = Seq Bol (foldr Seq (lits ''Version: '' @ [Rep Star Greedy Dot]) Eps)"
    by (simp add: VERSION_RE_def seq_of_def del: lits.simps)
  have "ms (fst VERSION_RE) (p, s, []) =
      (if line_start p then ms (foldr Seq (lits ''Version: '' @ [Rep Star Greedy Dot]) Eps) (p, s, []) else [])"
    unfolding v by (cases p) (simp_all add: line_start_def del: lits.simps)
  also have "\<dots> = (if line_start p \<and> prefix ''Version: '' s
       then reps Dot (Some (CHR '' '')) (drop 9 s) [] else [])"
    unfolding ms_lits by (simp add: concat_map_Eps eval_nat_numeral)
  finally show ?thesis
    using r by (simp add: match_at_first dot)
qed

subsection \<open>The substitution loop\<close>

lemma sub_loop_no_match:
  "match_at r adv p (x # xs) = None \<Longrightarrow>
   sub_loop r rep adv p (x # xs) = x # sub_loop r rep False (Some x) xs"
  by (subst sub_loop.simps) simp

lemma sub_loop_end:
  "match_at r adv p [] = None \<Longrightarrow> sub_loop r rep adv p [] = []"
  by (subst sub_loop.simps) simp

lemma sub_loop_match:
  "match_at r adv p s = Some (p', s', g') \<Longrightarrow> length s' < length s \<Longrightarrow>
   sub_loop r rep adv p s = rep (take (length s - length s') s) g' @ sub_loop r rep False p' s'"
  by (subst sub_loop.simps) simp

lemma split_on_nonempty: "split_on c s \<noteq> []"
  by (induction s) (auto split: list.splits)

lemma join_split: "join_with [c] (split_on c s) = s"
proof (induction s)
  case Nil
  show ?case by simp
next
  case (Cons x xs)
  obtain w ws where ws: "split_on c xs = w # ws"
    using split_on_nonempty [of c xs] by (cases "split_on c xs") auto
  show ?case
  proof (cases "x = c")
    case True
    with Cons ws show ?thesis by simp
  next
    case False
    with Cons ws show ?thesis by (cases ws) auto
  qed
qed

lemma split_on_no_sep: "l \<in> set (split_on c s) \<Longrightarrow> c \<notin> set l"
proof (induction s arbitrary: l)
  case Nil
  then show ?case by simp
next
  case (Cons x xs)
  obtain w ws where ws: "split_on c xs = w # ws"
    using split_on_nonempty [of c xs] by (cases "split_on c xs") auto
  from Cons ws show ?case by (auto split: if_splits)
qed

lemma split_on_append_sep:
  "c \<notin> set l \<Longrightarrow> split_on c (l @ c # s) = l # split_on c s"
  by (induction l) auto

lemma split_on_no_sep_id: "c \<notin> set l \<Longrightarrow> split_on c l = [l]"
  by (induction l) auto

lemma split_join:
  "ls \<noteq> [] \<Longrightarrow> \<forall>l \<in> set ls. c \<notin> set l \<Longrightarrow> split_on c (join_with [c] ls) = ls"
proof (induction "[c]" ls rule: join_with.induct)
  case 1
  then show ?case by simp
next
  case (2 w)
  then show ?case by (simp add: split_on_no_sep_id)
next
  case (3 w v va)
  then show ?case by (simp add: split_on_append_sep)
qed

lemma parse_template_plain:
  "CHR 0x5C \<notin> set t \<Longrightarrow> parse_template k t = Inr (map TLit t)"
  by (induction t) auto

lemma expand_plain: "expand (map TLit t) whole g = t"
  by (induction t) (auto simp: expand_def)

abbreviation nl :: char where
  "nl \<equiv> CHR 0x0A"

lemma prefix_append_line:
  assumes "c \<notin> set pre" and "tail = [] \<or> hd tail = c"
  shows "prefix pre (l @ tail) \<longleftrightarrow> prefix pre l"
proof
  assume "prefix pre l"
  then show "prefix pre (l @ tail)" by (rule prefix_prefix)
next
  assume "prefix pre (l @ tail)"
  then consider "prefix pre l" | us where "pre = l @ us" "prefix us tail"
    by (auto simp: prefix_append)
  then show "prefix pre l"
  proof cases
    case 1
    then show ?thesis .
  next
    case 2
    show ?thesis
    proof (cases us)
      case Nil
      with 2 show ?thesis by simp
    next
      case (Cons u us')
      with 2 have "tail \<noteq> []" "hd tail = u" by (auto simp: prefix_def)
      with assms(2) have "u = c" by simp
      with 2 Cons assms(1) show ?thesis by simp
    qed
  qed
qed

lemma skip_text:
  assumes "nl \<notin> set l" and "\<not> (line_start p \<and> prefix ''Version: '' (l @ tail))"
  shows "sub_loop (fst VERSION_RE) rep False p (l @ tail) =
         l @ sub_loop (fst VERSION_RE) rep False (if l = [] then p else Some (last l)) tail"
  using assms
proof (induction l arbitrary: p)
  case Nil
  show ?case by simp
next
  case (Cons x l)
  have m: "match_at (fst VERSION_RE) False p (x # l @ tail) = None"
    using Cons.prems(2) by (simp only: match_at_VERSION_RE append_Cons if_False)
  have "\<not> line_start (Some x)" using Cons.prems(1) by (auto simp: line_start_def)
  then have "sub_loop (fst VERSION_RE) rep False (Some x) (l @ tail) =
         l @ sub_loop (fst VERSION_RE) rep False (if l = [] then Some x else Some (last l)) tail"
    using Cons.IH [of "Some x"] Cons.prems(1) by simp
  then show ?case using m by (simp add: sub_loop_no_match)
qed


lemma takeWhile_line:
  "c \<notin> set l \<Longrightarrow> tail = [] \<or> hd tail = c \<Longrightarrow> takeWhile (\<lambda>x. x \<noteq> c) (l @ tail) = l"
  by (induction l) (cases tail; auto)+

lemma dropWhile_line:
  "c \<notin> set l \<Longrightarrow> tail = [] \<or> hd tail = c \<Longrightarrow> dropWhile (\<lambda>x. x \<noteq> c) (l @ tail) = tail"
  by (induction l) (cases tail; auto)+

lemma version_line:
  assumes "line_start p" and "prefix ''Version: '' l" and "nl \<notin> set l"
    and "tail = [] \<or> hd tail = nl"
  shows "sub_loop (fst VERSION_RE) rep False p (l @ tail) =
         rep l [] @ sub_loop (fst VERSION_RE) rep False (Some (last l)) tail"
proof -
  from assms(2) obtain l' where l: "l = ''Version: '' @ l'" by (auto simp: prefix_def)
  with assms(3) have l': "nl \<notin> set l'" by simp
  have d: "drop 9 (l @ tail) = l' @ tail" by (simp add: l)
  have tw: "takeWhile (\<lambda>c. c \<noteq> nl) (l' @ tail) = l'"
    using l' assms(4) by (rule takeWhile_line)
  have dw: "dropWhile (\<lambda>c. c \<noteq> nl) (l' @ tail) = tail"
    using l' assms(4) by (rule dropWhile_line)
  have "prefix ''Version: '' (l @ tail)" using assms(2) by (rule prefix_prefix)
  with assms(1) have m: "match_at (fst VERSION_RE) False p (l @ tail) =
      Some (Some (last l), tail, [])"
    unfolding match_at_VERSION_RE d tw dw by (simp add: l)
  have "length tail < length (l @ tail)" by (simp add: l)
  from sub_loop_match [OF m this] show ?thesis by simp
qed

lemma at_newline:
  "sub_loop (fst VERSION_RE) rep False p (nl # s) = nl # sub_loop (fst VERSION_RE) rep False (Some nl) s"
  by (rule sub_loop_no_match) (simp add: match_at_VERSION_RE)

lemma at_end: "sub_loop (fst VERSION_RE) rep False p [] = []"
  by (rule sub_loop_end) (simp add: match_at_VERSION_RE)

text \<open>
  What the specification says happens to one line of the control text: a line beginning
  \<^verbatim>\<open>Version: \<close> is replaced as a whole by \<open>t\<close>, any other line stays.
\<close>

definition new_line :: "string \<Rightarrow> string \<Rightarrow> string" where
  "new_line t l = (if prefix ''Version: '' l then t else l)"

lemma one_line:
  assumes "line_start p" and "nl \<notin> set l" and "tail = [] \<or> hd tail = nl"
  shows "\<exists>p'. sub_loop (fst VERSION_RE) (\<lambda>whole g. t) False p (l @ tail) =
         new_line t l @ sub_loop (fst VERSION_RE) (\<lambda>whole g. t) False p' tail"
proof (cases "prefix ''Version: '' l")
  case True
  from version_line [OF assms(1) True assms(2,3)] True show ?thesis
    by (auto simp: new_line_def)
next
  case False
  then have "\<not> prefix ''Version: '' (l @ tail)"
    using prefix_append_line [of nl "''Version: ''" tail l] assms(3) by simp
  with skip_text [OF assms(2), of p tail] False show ?thesis
    by (auto simp: new_line_def)
qed

lemma sub_lines:
  assumes "ls \<noteq> []" and "\<forall>l \<in> set ls. nl \<notin> set l" and "line_start p"
  shows "sub_loop (fst VERSION_RE) (\<lambda>whole g. t) False p (join_with [nl] ls) =
         join_with [nl] (map (new_line t) ls)"
  using assms
proof (induction "[nl]" ls arbitrary: p rule: join_with.induct)
  case 1
  then show ?case by simp
next
  case (2 w)
  from one_line [of p w "[]" t] 2 show ?case by (auto simp: at_end)
next
  case (3 w v va)
  have "line_start (Some nl)" by (simp add: line_start_def)
  with 3 have ih: "sub_loop (fst VERSION_RE) (\<lambda>whole g. t) False (Some nl) (join_with [nl] (v # va)) =
         join_with [nl] (map (new_line t) (v # va))" by simp
  from one_line [of p w "nl # join_with [nl] (v # va)" t] 3
  obtain p' where "sub_loop (fst VERSION_RE) (\<lambda>whole g. t) False p (w @ nl # join_with [nl] (v # va)) =
         new_line t w @ sub_loop (fst VERSION_RE) (\<lambda>whole g. t) False p' (nl # join_with [nl] (v # va))"
    by auto
  then show ?case using ih by (simp add: at_newline)
qed

lemma pattern_sub_VERSION_RE:
  assumes "CHR 0x5C \<notin> set v"
  shows "pattern_sub VERSION_RE (''Version: '' @ v) text =
         Inr (join_with [nl] (map (new_line (''Version: '' @ v)) (split_on nl text)))"
proof -
  have "parse_template (snd VERSION_RE) (''Version: '' @ v) = Inr (map TLit (''Version: '' @ v))"
    using assms by (intro parse_template_plain) simp
  moreover have "expand (map TLit (''Version: '' @ v)) = (\<lambda>whole g. ''Version: '' @ v)"
    by (intro ext) (rule expand_plain)
  moreover have "sub_loop (fst VERSION_RE) (\<lambda>whole g. ''Version: '' @ v) False None
                   (join_with [nl] (split_on nl text)) =
                 join_with [nl] (map (new_line (''Version: '' @ v)) (split_on nl text))"
    by (rule sub_lines) (auto simp: split_on_nonempty line_start_def dest: split_on_no_sep)
  ultimately show ?thesis by (simp add: pattern_sub_def join_split)
qed

subsection \<open>The search for the package name\<close>

lemma take_takeWhile: "take (length xs - length (dropWhile P xs)) xs = takeWhile P xs"
  by (induction xs) (auto simp: Suc_diff_le length_dropWhile_le)

text \<open>A line that \<^verbatim>\<open>PACKAGE_RE\<close> matches: the prefix and at least one more character.\<close>

definition package_line :: "string \<Rightarrow> bool" where
  "package_line l = (prefix ''Package: '' l \<and> l \<noteq> ''Package: '')"

lemma ms_plus_dot:
  "ms (Group i (Seq (Rep Plus Greedy Dot) Eps)) (p, s, g) =
     (case s of
        [] \<Rightarrow> []
      | x # xs \<Rightarrow>
          if x = nl then []
          else map (\<lambda>(p', s', g'). (p', s', (i, take (length s - length s') s) # g'))
                 (reps Dot (Some x) xs g))"
  by (cases s) (simp_all add: concat_map_Eps)

lemma match_at_PACKAGE_RE:
  "match_at (fst PACKAGE_RE) False p s =
     (if line_start p \<and> prefix ''Package: '' s \<and> drop 9 s \<noteq> [] \<and> hd (drop 9 s) \<noteq> nl
      then Some (Some (last (takeWhile (\<lambda>c. c \<noteq> nl) (drop 9 s))),
                 dropWhile (\<lambda>c. c \<noteq> nl) (drop 9 s),
                 [(1, takeWhile (\<lambda>c. c \<noteq> nl) (drop 9 s))])
      else None)"
proof -
  have dot: "accepts Dot = (\<lambda>c. c \<noteq> nl)" by (rule ext) simp
  have v: "fst PACKAGE_RE = Seq Bol (foldr Seq (lits ''Package: '' @ [Group 1 (Seq (Rep Plus Greedy Dot) Eps)]) Eps)"
    by (simp add: PACKAGE_RE_def seq_of_def del: lits.simps)
  have a: "ms (fst PACKAGE_RE) (p, s, []) =
      (if line_start p
       then ms (foldr Seq (lits ''Package: '' @ [Group 1 (Seq (Rep Plus Greedy Dot) Eps)]) Eps) (p, s, [])
       else [])"
    unfolding v by (cases p) (simp_all add: line_start_def del: lits.simps ms.simps(5))
  have b: "ms (foldr Seq (lits ''Package: '' @ [Group 1 (Seq (Rep Plus Greedy Dot) Eps)]) Eps) (p, s, []) =
       (if prefix ''Package: '' s
        then ms (Group 1 (Seq (Rep Plus Greedy Dot) Eps)) (Some (CHR '' ''), drop 9 s, []) else [])"
    unfolding ms_lits by (simp add: concat_map_Eps eval_nat_numeral del: ms.simps(5))
  show ?thesis
  proof (cases "drop 9 s")
    case Nil
    then show ?thesis unfolding match_at_first a b ms_plus_dot by simp
  next
    case (Cons x xs)
    obtain more where r: "reps Dot (Some x) xs [] =
       (if takeWhile (accepts Dot) xs = [] then Some x else Some (last (takeWhile (accepts Dot) xs)),
        dropWhile (accepts Dot) xs, []) # more"
      using reps_first [of Dot "Some x" xs "[]"] by blast
    have t: "take (Suc (length xs) - length (dropWhile (\<lambda>c. c \<noteq> nl) xs)) (x # xs) = x # takeWhile (\<lambda>c. c \<noteq> nl) xs"
      using take_takeWhile [of xs "\<lambda>c. c \<noteq> nl"] by (simp add: Suc_diff_le length_dropWhile_le)
    show ?thesis unfolding match_at_first a b ms_plus_dot Cons using r t
      by (simp add: dot)
  qed
qed

lemma package_line_append:
  assumes "nl \<notin> set l" and "tail = [] \<or> hd tail = nl"
  shows "prefix ''Package: '' (l @ tail) \<and> drop 9 (l @ tail) \<noteq> [] \<and> hd (drop 9 (l @ tail)) \<noteq> nl
         \<longleftrightarrow> package_line l"
proof -
  have p: "prefix ''Package: '' (l @ tail) \<longleftrightarrow> prefix ''Package: '' l"
    using assms(2) by (intro prefix_append_line) simp_all
  show ?thesis
  proof (cases "prefix ''Package: '' l")
    case False
    with p show ?thesis by (simp add: package_line_def)
  next
    case True
    then obtain l' where l: "l = ''Package: '' @ l'" by (auto simp: prefix_def)
    with assms(1) have "nl \<notin> set l'" by simp
    then have "l' \<noteq> [] \<Longrightarrow> hd l' \<noteq> nl" by (cases l') auto
    with True p assms(2) show ?thesis
      by (cases l') (auto simp: l package_line_def)
  qed
qed

lemma search_skip:
  assumes "nl \<notin> set l" and "\<not> (line_start p \<and> package_line l)" and "tail = [] \<or> hd tail = nl"
  shows "search (fst PACKAGE_RE) p (l @ tail) =
         search (fst PACKAGE_RE) (if l = [] then p else Some (last l)) tail"
  using assms
proof (induction l arbitrary: p)
  case Nil
  show ?case by simp
next
  case (Cons x l)
  have "\<not> (line_start p \<and> prefix ''Package: '' ((x # l) @ tail) \<and> drop 9 ((x # l) @ tail) \<noteq> []
            \<and> hd (drop 9 ((x # l) @ tail)) \<noteq> nl)"
    using package_line_append [OF Cons.prems(1,3)] Cons.prems(2) by blast
  then have m: "match_at (fst PACKAGE_RE) False p (x # l @ tail) = None"
    unfolding match_at_PACKAGE_RE by simp
  have "\<not> line_start (Some x)" using Cons.prems(1) by (auto simp: line_start_def)
  then have "search (fst PACKAGE_RE) (Some x) (l @ tail) =
         search (fst PACKAGE_RE) (if l = [] then Some x else Some (last l)) tail"
    using Cons.IH [of "Some x"] Cons.prems(1,3) by simp
  then show ?case using m by simp
qed

lemma search_found:
  assumes "line_start p" and "package_line l" and "nl \<notin> set l" and "tail = [] \<or> hd tail = nl"
  shows "search (fst PACKAGE_RE) p (l @ tail) = Some [(1, drop 9 l)]"
proof -
  from assms(2) obtain l' where l: "l = ''Package: '' @ l'" "l' \<noteq> []"
    by (auto simp: package_line_def prefix_def)
  with assms(3) have l': "nl \<notin> set l'" by simp
  have d: "drop 9 (l @ tail) = l' @ tail" by (simp add: l)
  have tw: "takeWhile (\<lambda>c. c \<noteq> nl) (l' @ tail) = l'" using l' assms(4) by (rule takeWhile_line)
  have dw: "dropWhile (\<lambda>c. c \<noteq> nl) (l' @ tail) = tail" using l' assms(4) by (rule dropWhile_line)
  have "prefix ''Package: '' (l @ tail)" by (simp add: l)
  moreover have "l' @ tail \<noteq> []" using l by simp
  moreover have "hd (l' @ tail) \<noteq> nl" using l l' by (cases l') auto
  ultimately have m: "match_at (fst PACKAGE_RE) False p (l @ tail) =
      Some (Some (last l'), tail, [(1, l')])"
    unfolding match_at_PACKAGE_RE d tw dw using assms(1) by simp
  have "drop 9 l = l'" by (simp add: l)
  with m show ?thesis by (cases "l @ tail") simp_all
qed

lemma search_newline:
  "search (fst PACKAGE_RE) p (nl # s) = search (fst PACKAGE_RE) (Some nl) s"
  by (simp add: match_at_PACKAGE_RE)

lemma search_end: "search (fst PACKAGE_RE) p [] = None"
  by (simp add: match_at_PACKAGE_RE)

lemma search_lines:
  assumes "ls \<noteq> []" and "\<forall>l \<in> set ls. nl \<notin> set l" and "line_start p"
  shows "search (fst PACKAGE_RE) p (join_with [nl] ls) =
         (case filter package_line ls of [] \<Rightarrow> None | l # _ \<Rightarrow> Some [(1, drop 9 l)])"
  using assms
proof (induction "[nl]" ls arbitrary: p rule: join_with.induct)
  case 1
  then show ?case by simp
next
  case (2 w)
  show ?case
  proof (cases "package_line w")
    case True
    with search_found [of p w "[]"] 2 show ?thesis by simp
  next
    case False
    then have "search (fst PACKAGE_RE) p (w @ []) =
        search (fst PACKAGE_RE) (if w = [] then p else Some (last w)) []"
      using 2 by (intro search_skip) simp_all
    with False show ?thesis by (simp add: search_end del: search.simps)
  qed
next
  case (3 w v va)
  let ?rest = "join_with [nl] (v # va)"
  have "line_start (Some nl)" by (simp add: line_start_def)
  with 3 have ih: "search (fst PACKAGE_RE) (Some nl) ?rest =
      (case filter package_line (v # va) of [] \<Rightarrow> None | l # _ \<Rightarrow> Some [(1, drop 9 l)])"
    by simp
  have j: "join_with [nl] (w # v # va) = w @ nl # ?rest" by simp
  show ?case
  proof (cases "package_line w")
    case True
    with search_found [of p w "nl # ?rest"] 3 show ?thesis unfolding j by simp
  next
    case False
    then have "search (fst PACKAGE_RE) p (w @ nl # ?rest) =
        search (fst PACKAGE_RE) (if w = [] then p else Some (last w)) (nl # ?rest)"
      using 3 by (intro search_skip) simp_all
    also have "\<dots> = search (fst PACKAGE_RE) (Some nl) ?rest" by (rule search_newline)
    finally show ?thesis unfolding j using ih False by simp
  qed
qed

lemma search_PACKAGE_RE:
  "search (fst PACKAGE_RE) None text =
     (case filter package_line (split_on nl text) of [] \<Rightarrow> None | l # _ \<Rightarrow> Some [(1, drop 9 l)])"
  using search_lines [of "split_on nl text" None]
  by (simp add: join_split split_on_nonempty line_start_def split_on_no_sep)

subsection \<open>Absolute paths\<close>

abbreviation sep :: char where "sep \<equiv> CHR ''/''"

definition clean :: "string list \<Rightarrow> bool" where
  "clean cs = (\<forall>x \<in> set cs. x \<noteq> [] \<and> x \<noteq> ''.'' \<and> x \<noteq> ''..'' \<and> sep \<notin> set x)"

lemma clean_simps [simp]:
  "clean []"
  "clean (x # cs) \<longleftrightarrow> x \<noteq> [] \<and> x \<noteq> ''.'' \<and> x \<noteq> ''..'' \<and> sep \<notin> set x \<and> clean cs"
  by (auto simp: clean_def)

lemma clean_tl: "clean cs \<Longrightarrow> clean (tl cs)"
  by (cases cs) auto

lemma clean_rev: "clean (rev cs) = clean cs"
  by (auto simp: clean_def)

lemma clean_hd: "clean cs \<Longrightarrow> cs \<noteq> [] \<Longrightarrow> hd cs \<noteq> ''..''"
  by (cases cs) auto

lemma norm_comps_clean:
  "clean acc \<Longrightarrow> \<forall>x \<in> set xs. sep \<notin> set x \<Longrightarrow> clean (norm_comps True acc xs)"
proof (induction xs arbitrary: acc)
  case Nil
  then show ?case by (simp add: clean_rev)
next
  case (Cons x xs)
  then show ?case by (auto simp: clean_tl dest: clean_hd)
qed

lemma norm_comps_of_clean:
  "clean cs \<Longrightarrow> norm_comps b acc cs = rev acc @ cs"
  by (induction cs arbitrary: acc) auto

lemma norm_comps_skip:
  "norm_comps b acc (replicate i [] @ cs) = norm_comps b acc cs"
  by (induction i) auto

lemma split_on_replicate:
  "split_on c (replicate i c @ s) = replicate i [] @ split_on c s"
  by (induction i) auto

lemma split_on_replicate_only:
  "split_on c (replicate i c) = replicate i [] @ [[]]"
  by (induction i) auto

lemma join_with_Cons:
  "join_with s (x # xs) = x @ (if xs = [] then [] else s @ join_with s xs)"
  by (cases xs) auto

lemma join_no_sep_hd:
  "clean cs \<Longrightarrow> \<not> starts sep (join_with ''/'' cs)"
proof (cases cs)
  case Nil
  then show ?thesis by (simp add: starts_def)
next
  case (Cons x xs)
  assume "clean cs"
  with Cons have "x \<noteq> []" "sep \<notin> set x" by auto
  then show ?thesis unfolding Cons join_with_Cons by (cases x) (auto simp: starts_def)
qed

lemma initial_slashes_clean:
  assumes "clean cs" and "i = 1 \<or> i = 2"
  shows "initial_slashes (replicate i sep @ join_with ''/'' cs) = i"
proof -
  have n: "\<not> starts sep (join_with ''/'' cs)" using assms(1) by (rule join_no_sep_hd)
  from assms(2) show ?thesis
  proof
    assume "i = 1"
    with n show ?thesis
      by (cases "join_with ''/'' cs") (auto simp: initial_slashes_def starts_def)
  next
    assume "i = 2"
    with n show ?thesis
      by (cases "join_with ''/'' cs") (auto simp: initial_slashes_def starts_def numeral_2_eq_2 numeral_3_eq_3)
  qed
qed

lemma initial_slashes_abs: "isabs q \<Longrightarrow> initial_slashes q = 1 \<or> initial_slashes q = 2"
  by (simp add: initial_slashes_def isabs_def)

lemma normpath_abs:
  assumes "isabs q"
  shows "\<exists>cs. clean cs \<and> normpath q = replicate (initial_slashes q) sep @ join_with ''/'' cs"
proof -
  let ?cs = "norm_comps True [] (split_on sep q)"
  have "clean ?cs" by (intro norm_comps_clean) (auto dest: split_on_no_sep)
  moreover have "q \<noteq> []" using assms by (auto simp: isabs_def starts_def)
  moreover have "initial_slashes q \<noteq> 0" using initial_slashes_abs [OF assms] by auto
  ultimately show ?thesis
    by (intro exI [of _ ?cs]) (auto simp: normpath_def Let_def)
qed

lemma normpath_of_normal:
  assumes "clean cs" and "i = 1 \<or> i = 2"
  shows "normpath (replicate i sep @ join_with ''/'' cs) = replicate i sep @ join_with ''/'' cs"
proof -
  let ?r = "replicate i sep @ join_with ''/'' cs"
  have i: "initial_slashes ?r = i" using assms by (rule initial_slashes_clean)
  have ne: "?r \<noteq> []" using assms(2) by auto
  have "norm_comps True [] (split_on sep ?r) = cs"
  proof (cases "cs = []")
    case True
    then show ?thesis by (simp add: split_on_replicate_only norm_comps_skip)
  next
    case False
    then have "split_on sep (join_with ''/'' cs) = cs"
      using assms(1) by (intro split_join) (auto simp: clean_def)
    then show ?thesis
      using assms(1) by (simp add: split_on_replicate norm_comps_skip norm_comps_of_clean)
  qed
  with i ne assms(2) show ?thesis by (auto simp: normpath_def Let_def)
qed

lemma normpath_idem: "isabs q \<Longrightarrow> normpath (normpath q) = normpath q"
  using normpath_abs [of q] initial_slashes_abs [of q] normpath_of_normal by metis

lemma isabs_normpath: "isabs q \<Longrightarrow> isabs (normpath q)"
  using normpath_abs [of q] initial_slashes_abs [of q]
  by (auto simp: isabs_def starts_def numeral_2_eq_2)

lemma isabs_path_join: "isabs c \<Longrightarrow> isabs (path_join c p)"
  by (cases c) (auto simp: isabs_def path_join_def starts_def)

lemma isabs_abspath: "isabs c \<Longrightarrow> isabs (abspath c p)"
  by (simp add: abspath_def isabs_normpath isabs_path_join)

lemma abspath_abspath: "isabs c \<Longrightarrow> abspath c' (abspath c p) = abspath c p"
proof -
  assume c: "isabs c"
  let ?q = "if isabs p then p else path_join c p"
  have q: "isabs ?q" using c by (simp add: isabs_path_join)
  then have "isabs (normpath ?q)" by (rule isabs_normpath)
  then have "abspath c' (normpath ?q) = normpath (normpath ?q)" by (simp add: abspath_def)
  also have "\<dots> = normpath ?q" using q by (rule normpath_idem)
  finally show ?thesis by (simp add: abspath_def)
qed

subsection \<open>Text without a byte above 127\<close>

definition ascii :: "string \<Rightarrow> bool" where
  "ascii t = list_all (\<lambda>c. of_char c < (0x80 :: nat)) t"

lemma utf8_points_ascii: "list_all (\<lambda>b. b < 0x80) bs \<Longrightarrow> utf8_points bs = Some bs"
  by (induction bs) simp_all

lemma utf8_decode_ascii: "ascii bytes \<Longrightarrow> utf8_decode bytes = Inr bytes"
proof -
  assume a: "ascii bytes"
  then have "list_all (\<lambda>b. b < 0x80) (map of_char bytes :: nat list)"
    by (simp add: ascii_def list_all_iff)
  then have p: "utf8_points (map of_char bytes) = Some (map of_char bytes)"
    by (rule utf8_points_ascii)
  have "list_all (\<lambda>p. p < 256) (map of_char bytes :: nat list)"
    using a by (auto simp: ascii_def list_all_iff)
  moreover have "map char_of (map of_char bytes :: nat list) = bytes"
    by (simp add: comp_def)
  ultimately show ?thesis by (simp add: utf8_decode_def p)
qed

lemma utf8_encode_ascii: "ascii t \<Longrightarrow> utf8_encode t = t"
  by (induction t) (simp_all add: utf8_encode_def ascii_def)

section \<open>Frames\<close>

text \<open>
  Frame reasoning. \<open>preserves obs m w\<close>: the observation \<open>obs\<close> of the world is the
  same after the step \<open>m\<close>, however it ends, as in the world \<open>w\<close> before it.
  \<open>insensitive obs S\<close>: \<open>obs\<close> does not look at the staging tree at the paths in \<open>S\<close>.
\<close>

definition preserves :: "(world \<Rightarrow> 'b) \<Rightarrow> 'a result \<Rightarrow> world \<Rightarrow> bool" where
  "preserves obs m w = (obs (world_of m) = obs w)"

definition insensitive :: "(world \<Rightarrow> 'b) \<Rightarrow> string set \<Rightarrow> bool" where
  "insensitive obs S = (\<forall>w t. (\<forall>q. q \<notin> S \<longrightarrow> t q = staged w q) \<longrightarrow> obs (w\<lparr>staged := t\<rparr>) = obs w)"

named_theorems preserves_intros

lemma preserves_bind [preserves_intros]:
  "preserves obs m w \<Longrightarrow> (\<And>a w'. preserves obs (f a w') w') \<Longrightarrow> preserves obs (bind m f) w"
  by (cases m) (auto simp: preserves_def bind_def)

lemma preserves_Ok [preserves_intros]: "preserves obs (Ok a w) w"
  by (simp add: preserves_def)

lemma preserves_Raise [preserves_intros]: "preserves obs (Raise err w) w"
  by (simp add: preserves_def)

lemma preserves_option [preserves_intros]:
  "preserves obs a w \<Longrightarrow> (\<And>y. preserves obs (b y) w) \<Longrightarrow>
   preserves obs (case x of None \<Rightarrow> a | Some y \<Rightarrow> b y) w"
  by (cases x) auto

lemma preserves_sum [preserves_intros]:
  "(\<And>y. preserves obs (a y) w) \<Longrightarrow> (\<And>y. preserves obs (b y) w) \<Longrightarrow>
   preserves obs (case x of Inl y \<Rightarrow> a y | Inr y \<Rightarrow> b y) w"
  by (cases x) auto

lemma preserves_prod [preserves_intros]:
  "(\<And>y z. preserves obs (a y z) w) \<Longrightarrow> preserves obs (case x of (y, z) \<Rightarrow> a y z) w"
  by (cases x) auto

lemma preserves_Let [preserves_intros]:
  "preserves obs (f x) w \<Longrightarrow> preserves obs (Let x f) w"
  by simp

lemma preserves_read_bytes [preserves_intros]: "preserves obs (read_bytes p w) w"
  by (auto simp: preserves_def read_bytes_def split: option.splits node.splits)

lemma preserves_read_text [preserves_intros]: "preserves obs (read_text p w) w"
  by (auto simp: preserves_def read_text_def split: option.splits node.splits sum.splits)

lemma preserves_check_call [preserves_intros]: "preserves obs (check_call c s w) w"
  by (auto simp: preserves_def check_call_def)

lemma insensitiveD:
  "insensitive obs S \<Longrightarrow> (\<And>q. q \<notin> S \<Longrightarrow> t q = staged w q) \<Longrightarrow> obs (w\<lparr>staged := t\<rparr>) = obs w"
  by (simp add: insensitive_def)

lemma preserves_write_bytes:
  "insensitive obs S \<Longrightarrow> p \<in> S \<Longrightarrow> preserves obs (write_bytes p c w) w"
  by (auto simp: preserves_def write_bytes_def split: option.splits node.splits
        intro!: insensitiveD)

lemma preserves_write_text:
  "insensitive obs S \<Longrightarrow> p \<in> S \<Longrightarrow> preserves obs (write_text p c w) w"
  unfolding write_text_def by (rule preserves_write_bytes)

lemma preserves_mkdir:
  "insensitive obs S \<Longrightarrow> p \<in> S \<Longrightarrow> preserves obs (mkdir p w) w"
  by (auto simp: preserves_def mkdir_def split: option.splits intro!: insensitiveD)

lemma preserves_rmtree:
  "insensitive obs S \<Longrightarrow> p \<in> S \<Longrightarrow> {q. prefix (p @ ''/'') q} \<subseteq> S \<Longrightarrow>
   preserves obs (rmtree p w) w"
  by (auto simp: preserves_def rmtree_def split: option.splits node.splits
        intro!: insensitiveD)

lemma insensitive_fs [simp]: "insensitive fs S"
  by (simp add: insensitive_def)

lemma insensitive_probed [simp]: "insensitive probed S"
  by (simp add: insensitive_def)

lemma insensitive_stdout [simp]: "insensitive stdout S"
  by (simp add: insensitive_def)

lemma insensitive_cwd [simp]: "insensitive cwd S"
  by (simp add: insensitive_def)

lemma insensitive_staged: "q \<notin> S \<Longrightarrow> insensitive (\<lambda>w. staged w q) S"
  by (simp add: insensitive_def)

lemma preserves_run_dch:
  assumes "insensitive obs S" and "''debian/changelog'' \<in> S"
  shows "preserves obs (run_dch e v w) w"
  unfolding run_dch_def
  by (intro preserves_intros preserves_write_bytes [OF assms])

lemma preserves_add_changelog_entry:
  assumes "insensitive obs S" and "''debian'' \<in> S" and "''debian/changelog'' \<in> S" and "p \<in> S"
  shows "preserves obs (add_changelog_entry e p v w) w"
  unfolding add_changelog_entry_def
  by (intro preserves_intros preserves_write_bytes [OF assms(1,3)] preserves_write_bytes [OF assms(1,4)]
        preserves_mkdir [OF assms(1,2)] preserves_run_dch [OF assms(1,3)])

lemma preserves_update_md5sums:
  assumes "insensitive obs S" and "''DEBIAN/md5sums'' \<in> S"
  shows "preserves obs (update_md5sums e p w) w"
  unfolding update_md5sums_def
  by (intro preserves_intros preserves_write_text [OF assms])

lemma preserves_update_changelog_file:
  assumes "insensitive obs S" and "''debian'' \<in> S" and "''debian/changelog'' \<in> S" and "p \<in> S"
    and "''DEBIAN/md5sums'' \<in> S"
  shows "preserves obs (update_changelog_file e p v w) w"
  unfolding update_changelog_file_def
  by (intro preserves_intros preserves_add_changelog_entry [OF assms(1-4)]
        preserves_update_md5sums [OF assms(1,5)])

lemma preserves_isfile:
  "(\<And>w x. obs (w\<lparr>probed := x\<rparr>) = obs w) \<Longrightarrow> preserves obs (isfile p w) w"
  by (simp add: preserves_def isfile_def)

lemma preserves_handler:
  assumes "preserves obs m w" and "\<And>w x. obs (w\<lparr>stdout := x\<rparr>) = obs w"
  shows "preserves obs
           (case m of
              Raise (CalledProcessError cmd status) w' \<Rightarrow> Ok () (print (msg cmd status) w')
            | Raise err w' \<Rightarrow> Raise err w'
            | Ok u w' \<Rightarrow> Ok () w') w"
  using assms by (auto simp: preserves_def print_def split: result.splits error.splits)

lemma preserves_changelog_loop:
  assumes "insensitive obs UNIV"
    and "\<And>w x. obs (w\<lparr>probed := x\<rparr>) = obs w"
    and "\<And>w x. obs (w\<lparr>stdout := x\<rparr>) = obs w"
  shows "preserves obs (changelog_loop e name v items w) w"
proof (induction items arbitrary: w)
  case Nil
  show ?case by (simp add: preserves_intros)
next
  case (Cons item items)
  show ?case
    unfolding changelog_loop.simps Let_def
  proof (rule preserves_bind)
    show "preserves obs (isfile (''usr/share/doc/'' @ name @ ''/'' @ item) w) w"
      using assms(2) by (rule preserves_isfile)
  next
    fix found w'
    let ?p = "''usr/share/doc/'' @ name @ ''/'' @ item"
    have u: "preserves obs (update_changelog_file e ?p v w') w'"
      by (rule preserves_update_changelog_file [OF assms(1)]) simp_all
    show "preserves obs
            (if found
             then case update_changelog_file e ?p v w' of
                    Ok u w' \<Rightarrow> Ok () w'
                  | Raise (CalledProcessError cmd status) w' \<Rightarrow>
                      Ok () (print (''WARNING: Failed to update changelog file: '' @ str_exc e cmd status
                                    @ [CHR 0x0A] @ ''Leaving the changelog file unchanged.'') w')
                  | Raise err w' \<Rightarrow> Raise err w'
             else changelog_loop e name v items w') w'"
      using preserves_handler [OF u assms(3), of "\<lambda>cmd status. ''WARNING: Failed to update changelog file: '' @ str_exc e cmd status
                                    @ [CHR 0x0A] @ ''Leaving the changelog file unchanged.''"] Cons [of w']
      by (cases found) simp_all
  qed
qed

lemma preserves_extract_deb:
  assumes "insensitive obs UNIV"
  shows "preserves obs (extract_deb e d w) w"
proof -
  have s: "obs (w'\<lparr>staged := t\<rparr>) = obs w'" for w' t
    using assms by (rule insensitiveD) simp
  show ?thesis
    by (auto simp: extract_deb_def preserves_def bind_def check_call_def Let_def s
          split: prod.splits)
qed

lemma preserves_change_version:
  assumes "insensitive obs UNIV"
    and "\<And>w x. obs (w\<lparr>probed := x\<rparr>) = obs w"
    and "\<And>w x. obs (w\<lparr>stdout := x\<rparr>) = obs w"
  shows "preserves obs (change_version e v w) w"
  unfolding change_version_def
  by (intro preserves_intros preserves_changelog_loop [OF assms]
        preserves_write_text [OF assms(1)] preserves_rmtree [OF assms(1)]) simp_all

lemma fs_extract_deb: "fs (world_of (extract_deb e d w)) = fs w"
  using preserves_extract_deb [of fs e d w] by (simp add: preserves_def)

lemma cwd_extract_deb: "cwd (world_of (extract_deb e d w)) = cwd w"
  using preserves_extract_deb [of cwd e d w] by (simp add: preserves_def)

lemma stdout_extract_deb: "stdout (world_of (extract_deb e d w)) = stdout w"
  using preserves_extract_deb [of stdout e d w] by (simp add: preserves_def)

lemma fs_change_version: "fs (world_of (change_version e v w)) = fs w"
  using preserves_change_version [of fs e v w] by (simp add: preserves_def)

lemma cwd_change_version: "cwd (world_of (change_version e v w)) = cwd w"
  using preserves_change_version [of cwd e v w] by (simp add: preserves_def)

subsection \<open>The final move\<close>

text \<open>
  However the move ends, it changes the file system in one place at most; it changes it
  on a failure only when the copy has failed after it had begun to write.
\<close>

lemma move_package_deb_Ok:
  assumes "move_package_deb e d w = Ok u w'"
  shows "\<exists>q deb. package_deb w = Some deb
           \<and> w' = w\<lparr>fs := (fs w)(q \<mapsto> Regular deb), package_deb := None\<rparr>"
  using assms
  by (auto simp: move_package_deb_def Let_def split: option.splits move_outcome.splits if_splits)

lemma move_package_deb_Raise:
  assumes "move_package_deb e d w = Raise err w'"
  shows "w' = w \<or> (\<exists>name deb s target. shutil_move e name deb = MoveFailed err (Some s)
                      \<and> w' = w\<lparr>fs := (fs w)(target \<mapsto> Regular s)\<rparr>)"
  using assms
  by (auto simp: move_package_deb_def Let_def split: option.splits move_outcome.splits if_splits)

lemma repack_Ok:
  assumes "repack e d w = Ok u w'"
  shows "fst (dpkg_build e (staged w)) = 0
     \<and> move_package_deb e d ((chdir ''..'' w)\<lparr>package_deb := Some (snd (dpkg_build e (staged w)))\<rparr>)
         = Ok () w'"
  using assms
  by (auto simp: repack_def Let_def bind_def check_call_def chdir_def
        split: prod.splits if_splits)

lemma repack_Ok_world:
  assumes "repack e d w = Ok u w'"
  shows "\<exists>q. w' = w\<lparr>cwd := abspath (cwd w) ''..'',
                      fs := (fs w)(q \<mapsto> Regular (snd (dpkg_build e (staged w)))),
                      package_deb := None\<rparr>"
proof -
  from repack_Ok [OF assms] have
    "move_package_deb e d ((chdir ''..'' w)\<lparr>package_deb := Some (snd (dpkg_build e (staged w)))\<rparr>)
       = Ok () w'" by simp
  from move_package_deb_Ok [OF this] show ?thesis by (auto simp: chdir_def)
qed

lemma repack_Raise:
  assumes "repack e d w = Raise err w'"
  shows "fs w' = fs w
     \<or> (\<exists>name deb s target. shutil_move e name deb = MoveFailed err (Some s)
           \<and> fs w' = (fs w)(target \<mapsto> Regular s))"
proof (cases "fst (dpkg_build e (staged w)) = 0")
  case False
  with assms show ?thesis
    by (auto simp: repack_def Let_def bind_def check_call_def chdir_def split: prod.splits)
next
  case True
  with assms have
    "move_package_deb e d ((chdir ''..'' w)\<lparr>package_deb := Some (snd (dpkg_build e (staged w)))\<rparr>)
       = Raise err w'"
    by (auto simp: repack_def Let_def bind_def check_call_def chdir_def split: prod.splits)
  from move_package_deb_Raise [OF this] show ?thesis
  proof (elim disjE exE conjE)
    assume "w' = (chdir ''..'' w)\<lparr>package_deb := Some (snd (dpkg_build e (staged w)))\<rparr>"
    then show ?thesis by (simp add: chdir_def)
  next
    fix name deb s target
    assume m: "shutil_move e name deb = MoveFailed err (Some s)"
      and w': "w' = (chdir ''..'' w)\<lparr>package_deb := Some (snd (dpkg_build e (staged w)))\<rparr>
                 \<lparr>fs := (fs ((chdir ''..'' w)\<lparr>package_deb := Some (snd (dpkg_build e (staged w)))\<rparr>))
                          (target \<mapsto> Regular s)\<rparr>"
    from w' have "fs w' = (fs w)(target \<mapsto> Regular s)" by (simp add: chdir_def)
    with m show ?thesis by blast
  qed
qed

text \<open>The steps of a run of the staging block that ends normally.\<close>

lemma staging_Ok:
  assumes "staging e d v w = Ok u w'"
  shows "\<exists>w2 w3. extract_deb e d w = Ok () w2 \<and> change_version e v w2 = Ok () w3
           \<and> repack e d w3 = Ok () w'"
  using assms by (auto simp: staging_def bind_def split: result.splits)

text \<open>What a run of the staging block does to the files outside the temporary directory.\<close>

lemma staging_Raise:
  assumes "staging e d v w = Raise err w'"
  shows "fs w' = fs w
     \<or> (\<exists>name deb s target. shutil_move e name deb = MoveFailed err (Some s)
           \<and> fs w' = (fs w)(target \<mapsto> Regular s))"
proof (cases "extract_deb e d w")
  case (Raise err1 w1)
  with assms fs_extract_deb [of e d w] show ?thesis by (simp add: staging_def bind_def)
next
  case (Ok u1 w1)
  with fs_extract_deb [of e d w] have f1: "fs w1 = fs w" by simp
  show ?thesis
  proof (cases "change_version e v w1")
    case (Raise err2 w2)
    with assms Ok fs_change_version [of e v w1] f1 show ?thesis by (simp add: staging_def bind_def)
  next
    case ok2: (Ok u2 w2)
    with fs_change_version [of e v w1] f1 have f2: "fs w2 = fs w" by simp
    from assms Ok ok2 have "repack e d w2 = Raise err w'" by (simp add: staging_def bind_def)
    from repack_Raise [OF this] f2 show ?thesis by simp
  qed
qed

lemma staging_Ok_fs:
  assumes "staging e d v w = Ok u w'"
  shows "\<exists>w2 w3 q. extract_deb e d w = Ok () w2 \<and> change_version e v w2 = Ok () w3
           \<and> fs w' = (fs w)(q \<mapsto> Regular (snd (dpkg_build e (staged w3))))
           \<and> stdout w' = stdout w3"
proof -
  from staging_Ok [OF assms] obtain w2 w3 where x: "extract_deb e d w = Ok () w2"
    and c: "change_version e v w2 = Ok () w3" and r: "repack e d w3 = Ok () w'" by blast
  from fs_extract_deb [of e d w] x have f2: "fs w2 = fs w" by simp
  from fs_change_version [of e v w2] c have f3: "fs w3 = fs w2" by simp
  from repack_Ok_world [OF r] obtain q where
    "w' = w3\<lparr>cwd := abspath (cwd w3) ''..'',
              fs := (fs w3)(q \<mapsto> Regular (snd (dpkg_build e (staged w3)))),
              package_deb := None\<rparr>" by blast
  then have "fs w' = (fs w)(q \<mapsto> Regular (snd (dpkg_build e (staged w3))))" "stdout w' = stdout w3"
    using f2 f3 by simp_all
  with x c show ?thesis by blast
qed

lemma main_run:
  assumes "3 \<le> length (argv e)" and "euid e = 0"
  shows "main e w =
     (case staging e (abspath (cwd w) (argv e ! 1)) (argv e ! 2)
             (w\<lparr>cwd := abspath (cwd w) (path_join (mkdtemp e) ''package''),
                staged := Map.empty, package_deb := None\<rparr>) of
        Raise err w' \<Rightarrow> (Uncaught err, leave (cwd w) w')
      | Ok u w' \<Rightarrow> (Exit 0, leave (cwd w) w'))"
  using assms by (simp add: main_def Let_def chdir_def)

lemma main_Exit_0:
  assumes "main e w = (Exit 0, w')"
  shows "3 \<le> length (argv e) \<and> euid e = 0
     \<and> (\<exists>w4. staging e (abspath (cwd w) (argv e ! 1)) (argv e ! 2)
               (w\<lparr>cwd := abspath (cwd w) (path_join (mkdtemp e) ''package''),
                  staged := Map.empty, package_deb := None\<rparr>) = Ok () w4
             \<and> w' = leave (cwd w) w4)"
proof -
  from assms have a: "3 \<le> length (argv e)" "euid e = 0"
    by (auto simp: main_def Let_def split: if_splits)
  from assms show ?thesis unfolding main_run [OF a] using a
    by (auto split: result.splits)
qed

subsection \<open>Path resolution\<close>

text \<open>
  A name that is no symbolic link is found with and without following a link in the last
  place, and an absolute path leads to the same place from every directory.
\<close>

lemma walk_follow:
  "walk t follow n cur cs = Some q \<Longrightarrow> \<not> follow \<Longrightarrow> \<forall>target. t q \<noteq> Some (Symlink target)
     \<Longrightarrow> walk t True n cur cs = Some q"
proof (induction t follow n cur cs rule: walk.induct)
  case (1 t follow n cur)
  then show ?case by simp
next
  case (2 t follow n cur c cs)
  show ?case
  proof (cases "is_dir t cur")
    case False
    with "2.prems" show ?thesis by simp
  next
    case True
    show ?thesis
    proof (cases "c = [] \<or> c = ''.''")
      case stay: True
      with True "2.prems" "2.IH"(1) show ?thesis by auto
    next
      case move: False
      show ?thesis
      proof (cases "c = ''..''")
        case up: True
        with True move "2.prems" "2.IH"(2) show ?thesis by auto
      next
        case down: False
        show ?thesis
        proof (cases "t (cur @ [c])")
          case None
          with True move down "2.prems" show ?thesis by (auto split: if_splits)
        next
          case (Some x)
          show ?thesis
          proof (cases x)
            case (Regular b)
            with Some True move down "2.prems" "2.IH"(3) [of x b] show ?thesis by auto
          next
            case Directory
            with Some True move down "2.prems" "2.IH"(4) [of x] show ?thesis by auto
          next
            case (Symlink target)
            show ?thesis
            proof (cases "cs = [] \<and> \<not> follow")
              case last: True
              with Some Symlink True move down "2.prems" show ?thesis by auto
            next
              case inner: False
              with "2.prems"(2) have cs: "cs \<noteq> []" by simp
              show ?thesis
              proof (cases n)
                case 0
                with Some Symlink True move down inner "2.prems" show ?thesis by simp
              next
                case (Suc m)
                with Some Symlink True move down inner cs "2.prems" "2.IH"(5) [of x target m]
                show ?thesis by (auto split: if_splits)
              qed
            qed
          qed
        qed
      qed
    qed
  qed
qed

lemma os_resolve_follow:
  assumes "os_resolve t False dir path = Some q" and "\<forall>target. t q \<noteq> Some (Symlink target)"
  shows "os_resolve t True dir path = Some q"
  using assms walk_follow [of t False 40 _ "split_on (CHR ''/'') path" q]
  by (auto simp: os_resolve_def split: if_splits)

lemma os_resolve_absolute:
  "isabs path \<Longrightarrow> os_resolve t follow dir path = os_resolve t follow dir' path"
  by (simp add: os_resolve_def isabs_def)

subsection \<open>Paths of plain names\<close>

text \<open>
  For a relative path whose components are plain names (not empty, not \<^verbatim>\<open>.\<close>, not
  \<^verbatim>\<open>..\<close>), given in a directory that is known by its canonical name, the absolute path
  that \<^verbatim>\<open>os.path.abspath\<close> makes leads where the path itself leads, whatever links the
  names of the path may be.
\<close>

definition dir_name :: "string list \<Rightarrow> string" where
  "dir_name cs = sep # join_with ''/'' cs"

lemma join_with_append:
  "cs \<noteq> [] \<Longrightarrow> ps \<noteq> [] \<Longrightarrow> join_with s (cs @ ps) = join_with s cs @ s @ join_with s ps"
proof (induction cs)
  case Nil
  then show ?case by simp
next
  case (Cons c cs)
  then show ?case by (cases cs; cases ps) simp_all
qed

lemma split_join_clean: "clean cs \<Longrightarrow> cs \<noteq> [] \<Longrightarrow> split_on sep (join_with ''/'' cs) = cs"
  by (intro split_join) (auto simp: clean_def)

lemma names_dir_name: "clean cs \<Longrightarrow> names (dir_name cs) = cs"
proof (cases "cs = []")
  case True
  then show ?thesis by (simp add: names_def dir_name_def)
next
  case False
  assume c: "clean cs"
  then have "filter (\<lambda>x. x \<noteq> []) cs = cs" by (auto simp: clean_def intro: filter_True)
  with False c show ?thesis by (simp add: names_def dir_name_def split_join_clean)
qed

lemma last_join_clean: "clean cs \<Longrightarrow> cs \<noteq> [] \<Longrightarrow> last (join_with ''/'' cs) \<noteq> sep"
proof (induction cs)
  case Nil
  then show ?case by simp
next
  case (Cons c cs)
  then show ?case by (cases cs) (auto simp: join_with_Cons dest: last_in_set)
qed

lemma join_clean_nonempty: "clean ps \<Longrightarrow> ps \<noteq> [] \<Longrightarrow> join_with ''/'' ps \<noteq> []"
  by (cases ps) (auto simp: join_with_Cons)

lemma abspath_dir_name:
  assumes "clean cs" and "clean ps" and "ps \<noteq> []"
  shows "abspath (dir_name cs) (join_with ''/'' ps) = dir_name (cs @ ps)"
proof -
  have r: "\<not> isabs (join_with ''/'' ps)"
    using assms(2) by (simp add: isabs_def join_no_sep_hd)
  have j: "path_join (dir_name cs) (join_with ''/'' ps) = dir_name (cs @ ps)"
  proof (cases "cs = []")
    case True
    with r show ?thesis by (simp add: path_join_def dir_name_def isabs_def)
  next
    case False
    with assms(1) have "last (dir_name cs) \<noteq> sep"
      using join_clean_nonempty [of cs] by (simp add: dir_name_def last_join_clean)
    with r False assms(3) show ?thesis
      by (simp add: path_join_def dir_name_def isabs_def join_with_append)
  qed
  have "clean (cs @ ps)" using assms(1,2) by (auto simp: clean_def)
  from normpath_of_normal [OF this, of 1] have "normpath (dir_name (cs @ ps)) = dir_name (cs @ ps)"
    by (simp add: dir_name_def)
  with r j show ?thesis by (simp add: abspath_def)
qed

lemma walk_directories:
  assumes "clean cs" and "\<forall>k. 0 < k \<and> k \<le> length cs \<longrightarrow> t (cur @ take k cs) = Some Directory"
    and "is_dir t cur"
  shows "walk t follow n cur (cs @ ps) = walk t follow n (cur @ cs) ps"
  using assms
proof (induction cs arbitrary: cur)
  case Nil
  then show ?case by simp
next
  case (Cons c cs)
  from Cons.prems(2) [rule_format, of 1] have d: "t (cur @ [c]) = Some Directory" by simp
  have a: "\<forall>k. 0 < k \<and> k \<le> length cs \<longrightarrow> t ((cur @ [c]) @ take k cs) = Some Directory"
  proof (intro allI impI)
    fix k
    assume "0 < k \<and> k \<le> length cs"
    with Cons.prems(2) [rule_format, of "Suc k"] show "t ((cur @ [c]) @ take k cs) = Some Directory"
      by simp
  qed
  have i: "is_dir t (cur @ [c])" using d by (simp add: is_dir_def)
  have c: "clean cs" using Cons.prems(1) by simp
  have "walk t follow n (cur @ [c]) (cs @ ps) = walk t follow n ((cur @ [c]) @ cs) ps"
    using c a i by (rule Cons.IH)
  with Cons.prems(1,3) d show ?case by simp
qed

lemma os_resolve_dir_name:
  assumes "clean ns"
  shows "os_resolve t follow d (dir_name ns) = walk t follow 40 [] ns"
proof (cases "ns = []")
  case True
  then show ?thesis by (simp add: os_resolve_def dir_name_def starts_def is_dir_def)
next
  case False
  with assms show ?thesis
    by (simp add: os_resolve_def dir_name_def starts_def is_dir_def split_join_clean)
qed

lemma plain_relative_path:
  assumes "clean cs" and "\<forall>k. 0 < k \<and> k \<le> length cs \<longrightarrow> t (take k cs) = Some Directory"
    and "clean ps" and "ps \<noteq> []"
  shows "os_resolve t follow d (abspath (dir_name cs) (join_with ''/'' ps))
       = os_resolve t follow (dir_name cs) (join_with ''/'' ps)"
proof -
  have c: "clean (cs @ ps)" using assms(1,3) by (auto simp: clean_def)
  have "os_resolve t follow d (abspath (dir_name cs) (join_with ''/'' ps))
      = walk t follow 40 [] (cs @ ps)"
    using assms by (simp add: abspath_dir_name os_resolve_dir_name [OF c])
  also have "\<dots> = walk t follow 40 ([] @ cs) ps"
    using assms(1,2) by (intro walk_directories) (simp_all add: is_dir_def)
  also have "\<dots> = os_resolve t follow (dir_name cs) (join_with ''/'' ps)"
    using assms join_no_sep_hd [OF assms(3)]
    by (simp add: os_resolve_def names_dir_name split_join_clean join_clean_nonempty)
  finally show ?thesis .
qed

subsection \<open>The changelog loop\<close>

lemma handler_obs:
  assumes "\<And>w x. obs (w\<lparr>stdout := x\<rparr>) = obs w"
  shows "obs (world_of (case m of
              Raise (CalledProcessError cmd status) w' \<Rightarrow> Ok () (print (msg cmd status) w')
            | Raise err w' \<Rightarrow> Raise err w'
            | Ok u w' \<Rightarrow> Ok () w')) = obs (world_of m)"
  using assms by (auto simp: print_def split: result.splits error.splits)

lemma changelog_loop_found:
  assumes "is_regular (staged w) (''usr/share/doc/'' @ name @ ''/'' @ item)"
  shows "changelog_loop e name v (item # items) w =
     (case update_changelog_file e (''usr/share/doc/'' @ name @ ''/'' @ item) v
             (w\<lparr>probed := probed w @ [''usr/share/doc/'' @ name @ ''/'' @ item]\<rparr>) of
        Raise (CalledProcessError cmd status) w' \<Rightarrow>
          Ok () (print (''WARNING: Failed to update changelog file: '' @ str_exc e cmd status
                        @ [CHR 0x0A] @ ''Leaving the changelog file unchanged.'') w')
      | Raise err w' \<Rightarrow> Raise err w'
      | Ok u w' \<Rightarrow> Ok () w')"
  using assms by (simp add: Let_def bind_def isfile_def)

lemma changelog_loop_missing:
  assumes "\<not> is_regular (staged w) (''usr/share/doc/'' @ name @ ''/'' @ item)"
  shows "changelog_loop e name v (item # items) w =
     changelog_loop e name v items (w\<lparr>probed := probed w @ [''usr/share/doc/'' @ name @ ''/'' @ item]\<rparr>)"
  using assms by (simp add: Let_def bind_def isfile_def)

lemma update_changelog_file_probed:
  "probed (world_of (update_changelog_file e p v w)) = probed w"
  using preserves_update_changelog_file [of probed UNIV p e v w] by (simp add: preserves_def)

lemma update_changelog_file_staged:
  assumes "q \<noteq> ''debian''" and "q \<noteq> ''debian/changelog''" and "q \<noteq> p" and "q \<noteq> ''DEBIAN/md5sums''"
  shows "staged (world_of (update_changelog_file e p v w)) q = staged w q"
proof -
  let ?S = "{''debian'', ''debian/changelog'', p, ''DEBIAN/md5sums''}"
  have "insensitive (\<lambda>w. staged w q) ?S" using assms by (intro insensitive_staged) simp
  from preserves_update_changelog_file [OF this, of p e v w] show ?thesis
    by (simp add: preserves_def)
qed


lemma changelog_loop_first:
  assumes "\<forall>i \<in> set skipped. \<not> is_regular (staged w) (''usr/share/doc/'' @ name @ ''/'' @ i)"
    and "is_regular (staged w) (''usr/share/doc/'' @ name @ ''/'' @ item)"
  shows "changelog_loop e name v (skipped @ item # rest) w =
     (case update_changelog_file e (''usr/share/doc/'' @ name @ ''/'' @ item) v
             (w\<lparr>probed := probed w @ map (\<lambda>i. ''usr/share/doc/'' @ name @ ''/'' @ i) (skipped @ [item])\<rparr>) of
        Raise (CalledProcessError cmd status) w' \<Rightarrow>
          Ok () (print (''WARNING: Failed to update changelog file: '' @ str_exc e cmd status
                        @ [CHR 0x0A] @ ''Leaving the changelog file unchanged.'') w')
      | Raise err w' \<Rightarrow> Raise err w'
      | Ok u w' \<Rightarrow> Ok () w')"
  using assms
proof (induction skipped arbitrary: w)
  case Nil
  then show ?case using changelog_loop_found [of w name item e v rest] by simp
next
  case (Cons i skipped)
  let ?w1 = "w\<lparr>probed := probed w @ [''usr/share/doc/'' @ name @ ''/'' @ i]\<rparr>"
  from Cons.prems have "\<not> is_regular (staged w) (''usr/share/doc/'' @ name @ ''/'' @ i)" by simp
  then have "changelog_loop e name v ((i # skipped) @ item # rest) w =
      changelog_loop e name v (skipped @ item # rest) ?w1"
    using changelog_loop_missing [of w name i e v "skipped @ item # rest"] by simp
  also have "\<dots> = (case update_changelog_file e (''usr/share/doc/'' @ name @ ''/'' @ item) v
             (?w1\<lparr>probed := probed ?w1 @ map (\<lambda>i. ''usr/share/doc/'' @ name @ ''/'' @ i) (skipped @ [item])\<rparr>) of
        Raise (CalledProcessError cmd status) w' \<Rightarrow>
          Ok () (print (''WARNING: Failed to update changelog file: '' @ str_exc e cmd status
                        @ [CHR 0x0A] @ ''Leaving the changelog file unchanged.'') w')
      | Raise err w' \<Rightarrow> Raise err w'
      | Ok u w' \<Rightarrow> Ok () w')"
    using Cons.prems by (intro Cons.IH) simp_all
  finally show ?case by simp
qed

lemma update_changelog_file_dch_fails:
  assumes "staged w ''debian'' = None" and "staged w p = Some (File gz)"
    and "p \<noteq> ''debian''" and "p \<noteq> ''debian/changelog''"
    and "staged w ''debian/changelog'' \<noteq> Some Dir"
    and "gunzip e gz = Some c" and "dch e v c = (status, c')" and "status \<noteq> 0"
  shows "update_changelog_file e p v w =
     Raise (CalledProcessError [''dch'', ''-v'', v, ''--'', ''Bumped version during deb synchronization.''] status)
       (w\<lparr>staged := (staged w)(''debian'' \<mapsto> Dir, ''debian/changelog'' \<mapsto> File c')\<rparr>)"
  using assms
  by (simp add: update_changelog_file_def add_changelog_entry_def run_dch_def bind_def mkdir_def
        read_bytes_def write_bytes_def check_call_def split: option.splits node.splits)

lemma package_name_found:
  assumes "filter package_line (split_on nl control_text) = l # ls"
  shows "search (fst PACKAGE_RE) None control_text = Some [(1, drop 9 l)]"
  using assms by (simp add: search_PACKAGE_RE)

subsection \<open>Runs step by step\<close>

lemma read_archive_staged [simp]: "read_archive (w\<lparr>staged := t\<rparr>) p = read_archive w p"
  by (auto simp: read_archive_def split: option.splits)

lemma extract_deb_Ok:
  assumes "dpkg_extract e (read_archive w d) = (0, payload)"
    and "dpkg_control e (read_archive w d) = (0, control)"
  shows "extract_deb e d w = Ok () (w\<lparr>staged := payload ++ control\<rparr>)"
  using assms by (simp add: extract_deb_def bind_def check_call_def)

text \<open>The move onto a name that is a regular file.\<close>

lemma move_regular:
  assumes "package_deb w = Some deb" and "os_resolve (fs w) False (cwd w) d = Some q"
    and "fs w q = Some (Regular old)" and "q \<noteq> []"
  shows "move_package_deb e d w =
     (case shutil_move e q deb of
        Renamed \<Rightarrow> Ok () (w\<lparr>fs := (fs w)(q \<mapsto> Regular deb), package_deb := None\<rparr>)
      | Copied \<Rightarrow> Ok () (w\<lparr>fs := (fs w)(q \<mapsto> Regular deb), package_deb := None\<rparr>)
      | MoveFailed err left \<Rightarrow>
          (case left of
             None \<Rightarrow> Raise err w
           | Some s \<Rightarrow> Raise err (w\<lparr>fs := (fs w)(q \<mapsto> Regular s)\<rparr>)))"
proof -
  have f: "os_resolve (fs w) True (cwd w) d = Some q"
    using assms(2,3) by (intro os_resolve_follow) simp_all
  have "\<not> isdir w d" using f assms(3,4) by (simp add: isdir_def is_dir_def)
  then show ?thesis
    using assms(1,2) f
    by (simp add: move_package_deb_def split: move_outcome.splits option.splits)
qed

lemma repack_regular:
  assumes "isabs d" and "os_resolve (fs w) False dir d = Some q"
    and "fs w q = Some (Regular old)" and "q \<noteq> []"
    and "dpkg_build e (staged w) = (0, deb)"
  shows "repack e d w =
     (case shutil_move e q deb of
        Renamed \<Rightarrow> Ok () (w\<lparr>cwd := abspath (cwd w) ''..'', fs := (fs w)(q \<mapsto> Regular deb),
                             package_deb := None\<rparr>)
      | Copied \<Rightarrow> Ok () (w\<lparr>cwd := abspath (cwd w) ''..'', fs := (fs w)(q \<mapsto> Regular deb),
                            package_deb := None\<rparr>)
      | MoveFailed err left \<Rightarrow>
          (case left of
             None \<Rightarrow> Raise err (w\<lparr>cwd := abspath (cwd w) ''..'', package_deb := Some deb\<rparr>)
           | Some s \<Rightarrow> Raise err (w\<lparr>cwd := abspath (cwd w) ''..'', fs := (fs w)(q \<mapsto> Regular s),
                                     package_deb := Some deb\<rparr>)))"
proof -
  let ?w = "(chdir ''..'' w)\<lparr>package_deb := Some deb\<rparr>"
  have r: "os_resolve (fs ?w) False (cwd ?w) d = Some q"
    using assms(2) os_resolve_absolute [OF assms(1), of "fs w" False "cwd ?w" dir]
    by (simp add: chdir_def)
  have "repack e d w = move_package_deb e d ?w"
    using assms(5) by (simp add: repack_def bind_def check_call_def chdir_def Let_def)
  also have "\<dots> =
     (case shutil_move e q deb of
        Renamed \<Rightarrow> Ok () (?w\<lparr>fs := (fs ?w)(q \<mapsto> Regular deb), package_deb := None\<rparr>)
      | Copied \<Rightarrow> Ok () (?w\<lparr>fs := (fs ?w)(q \<mapsto> Regular deb), package_deb := None\<rparr>)
      | MoveFailed err left \<Rightarrow>
          (case left of
             None \<Rightarrow> Raise err ?w
           | Some s \<Rightarrow> Raise err (?w\<lparr>fs := (fs ?w)(q \<mapsto> Regular s)\<rparr>)))"
    using assms(3,4) by (intro move_regular [OF _ r]) (simp_all add: chdir_def)
  finally show ?thesis
    by (simp add: chdir_def split: move_outcome.splits option.splits)
qed

lemma repack_build_fails:
  assumes "dpkg_build e (staged w) = (status, deb)" and "status \<noteq> 0"
  shows "repack e d w =
     Raise (CalledProcessError [''dpkg-deb'', ''-b'', ''package''] status)
       (w\<lparr>cwd := abspath (cwd w) ''..'', package_deb := Some deb\<rparr>)"
  using assms by (simp add: repack_def bind_def check_call_def chdir_def Let_def)

lemma staging_steps:
  assumes "extract_deb e d w = Ok () w2" and "change_version e v w2 = Ok () w3"
  shows "staging e d v w = repack e d w3"
  using assms by (simp add: staging_def bind_def)

lemma staging_change_version_fails:
  assumes "extract_deb e d w = Ok () w2" and "change_version e v w2 = Raise err w3"
  shows "staging e d v w = Raise err w3"
  using assms by (simp add: staging_def bind_def)

lemmas run_defs = main_def staging_def extract_deb_def change_version_def repack_def
  changelog_loop.simps update_changelog_file_def add_changelog_entry_def run_dch_def
  update_md5sums_def move_package_deb_def leave_def bind_def check_call_def isfile_def
  is_regular_def read_bytes_def write_bytes_def read_text_def write_text_def mkdir_def
  rmtree_def print_def chdir_def read_archive_def isdir_def path_exists_def os_resolve_def
  names_def is_dir_def Let_def

lemmas text_defs = utf8_decode_ascii utf8_encode_ascii ascii_def

lemmas re_defs = re_sub_def re_compile_def pattern_sub_def PACKAGE_RE_def VERSION_RE_def
  seq_of_def sub_loop.simps match_at_def starts_def expand_def parse_class_def

lemmas path_defs = abspath_def normpath_def path_join_def isabs_def initial_slashes_def starts_def

lemmas example_defs = package_env_def package_payload_def package_control_def
  example_world_def staged_package_def

text \<open>
  The example package in the temporary directory: what the change-version step leaves,
  for every environment with the tools of the example and every world in which the
  archive has just been extracted.
\<close>

lemma example_change_version:
  assumes "dch e = dch (package_env ''foo'')" and "gunzip e = gunzip (package_env ''foo'')"
    and "gzip e = gzip (package_env ''foo'')"
    and "md5_hexdigest e = md5_hexdigest (package_env ''foo'')"
    and "staged w = package_payload ''foo'' ++ package_control ''foo''"
  shows "\<exists>w3. change_version e ''2.0'' w = Ok () w3
     \<and> staged w3 ''DEBIAN/control'' = Some (File ''Package: foo\<newline>Version: 2.0\<newline>'')
     \<and> staged w3 ''usr/share/doc/foo/changelog.gz'' = Some (File ''gz:bumped to 2.0; first release'')
     \<and> probed w3 = probed w @ [''usr/share/doc/foo/changelog.gz'']
     \<and> stdout w3 = stdout w \<and> fs w3 = fs w \<and> cwd w3 = cwd w \<and> package_deb w3 = package_deb w"
  using assms
  by (simp add: change_version_def changelog_loop.simps update_changelog_file_def
        add_changelog_entry_def run_dch_def update_md5sums_def bind_def check_call_def isfile_def
        is_regular_def read_bytes_def write_bytes_def read_text_def write_text_def mkdir_def
        rmtree_def print_def Let_def text_defs re_defs package_env_def package_payload_def
        package_control_def)

lemma example_paths:
  "abspath (cwd example_world) ''foo.deb'' = ''/home/user/foo.deb''"
  "abspath (cwd example_world) (path_join ''/tmp/tmpk3x9'' ''package'') = ''/tmp/tmpk3x9/package''"
  "os_resolve (fs example_world) follow dir ''/home/user/foo.deb'' = Some [''home'', ''user'', ''foo.deb'']"
  "fs example_world [''home'', ''user'', ''foo.deb''] = Some (Regular ''deb 1.0'')"
  by (simp_all add: path_defs example_world_def os_resolve_def is_dir_def)

lemma example_run:
  "main (package_env ''foo'') example_world =
     (Exit 0,
      example_world\<lparr>fs := (fs example_world)
                        ([''home'', ''user'', ''foo.deb'']
                           \<mapsto> Regular ''deb with Package: foo\<newline>Version: 2.0\<newline>''),
                     probed := [''usr/share/doc/foo/changelog.gz'']\<rparr>)"
proof -
  let ?e = "package_env ''foo''"
  let ?w1 = "example_world\<lparr>cwd := ''/tmp/tmpk3x9/package'', staged := Map.empty, package_deb := None\<rparr>"
  let ?w2 = "?w1\<lparr>staged := package_payload ''foo'' ++ package_control ''foo''\<rparr>"
  have a: "3 \<le> length (argv ?e)" "euid ?e = 0" by (simp_all add: package_env_def)
  have r: "read_archive ?w1 ''/home/user/foo.deb'' = Some ''deb 1.0''"
    by (simp add: read_archive_def example_paths)
  have x: "extract_deb ?e ''/home/user/foo.deb'' ?w1 = Ok () ?w2"
    by (rule extract_deb_Ok) (simp_all add: r package_env_def)
  from example_change_version [of ?e ?w2] obtain w3 where
    c: "change_version ?e ''2.0'' ?w2 = Ok () w3"
    and t: "staged w3 ''DEBIAN/control'' = Some (File ''Package: foo\<newline>Version: 2.0\<newline>'')"
    and o: "probed w3 = probed ?w2 @ [''usr/share/doc/foo/changelog.gz'']" "stdout w3 = stdout ?w2"
           "fs w3 = fs ?w2" "cwd w3 = cwd ?w2" "package_deb w3 = package_deb ?w2"
    by auto
  have b: "dpkg_build ?e (staged w3) = (0, ''deb with Package: foo\<newline>Version: 2.0\<newline>'')"
    by (simp add: package_env_def t)
  have "repack ?e ''/home/user/foo.deb'' w3 =
      Ok () (w3\<lparr>cwd := abspath (cwd w3) ''..'',
                 fs := (fs w3)([''home'', ''user'', ''foo.deb'']
                                \<mapsto> Regular ''deb with Package: foo\<newline>Version: 2.0\<newline>''),
                 package_deb := None\<rparr>)"
    using repack_regular [of "''/home/user/foo.deb''" w3 "[]" "[''home'', ''user'', ''foo.deb'']"
        "''deb 1.0''" ?e "''deb with Package: foo\<newline>Version: 2.0\<newline>''"] b o(3)
    by (simp add: example_paths isabs_def starts_def package_env_def)
  then have s: "staging ?e ''/home/user/foo.deb'' ''2.0'' ?w1 =
      Ok () (w3\<lparr>cwd := abspath (cwd w3) ''..'',
                 fs := (fs w3)([''home'', ''user'', ''foo.deb'']
                                \<mapsto> Regular ''deb with Package: foo\<newline>Version: 2.0\<newline>''),
                 package_deb := None\<rparr>)"
    using staging_steps [OF x c] by simp
  have "main ?e example_world =
      (Exit 0, leave (cwd example_world)
         (w3\<lparr>cwd := abspath (cwd w3) ''..'',
              fs := (fs w3)([''home'', ''user'', ''foo.deb'']
                             \<mapsto> Regular ''deb with Package: foo\<newline>Version: 2.0\<newline>''),
              package_deb := None\<rparr>))"
    using s unfolding main_run [OF a] by (simp add: example_paths package_env_def)
  moreover have "leave (cwd example_world)
         (w3\<lparr>cwd := abspath (cwd w3) ''..'',
              fs := (fs w3)([''home'', ''user'', ''foo.deb'']
                             \<mapsto> Regular ''deb with Package: foo\<newline>Version: 2.0\<newline>''),
              package_deb := None\<rparr>)
      = example_world\<lparr>fs := (fs example_world)
                        ([''home'', ''user'', ''foo.deb'']
                           \<mapsto> Regular ''deb with Package: foo\<newline>Version: 2.0\<newline>''),
                     probed := [''usr/share/doc/foo/changelog.gz'']\<rparr>"
    using o by (simp add: leave_def example_world_def)
  ultimately show ?thesis by simp
qed

subsection \<open>Reading the control file as text\<close>

text \<open>
  A line ends at \<^verbatim>\<open>\r\<close> and \<^verbatim>\<open>\r\n\<close> as it does at \<^verbatim>\<open>\n\<close>; two bytes can stand
  for one character; a byte above 127 on its own cannot be decoded.
\<close>

lemmas decode_defs = utf8_decode_def utf8_encode_def continuation_def second_ok_def char_of_def
  bit_0

lemma carriage_return_ends_a_line:
  "read_text ''DEBIAN/control''
     (example_world\<lparr>staged := [''DEBIAN/control'' \<mapsto>
         File (''Source: x'' @ [CHR 0x0D] @ ''Package: foo'' @ [CHR 0x0D, CHR 0x0A])]\<rparr>)
   = Ok ''Source: x\<newline>Package: foo\<newline>''
       (example_world\<lparr>staged := [''DEBIAN/control'' \<mapsto>
         File (''Source: x'' @ [CHR 0x0D] @ ''Package: foo'' @ [CHR 0x0D, CHR 0x0A])]\<rparr>)"
  by (simp add: read_text_def text_defs)

lemma two_byte_character:
  "utf8_decode (''caf'' @ [CHR 0xC3, CHR 0xA9]) = Inr (''caf'' @ [CHR 0xE9])"
  "utf8_encode (''caf'' @ [CHR 0xE9]) = ''caf'' @ [CHR 0xC3, CHR 0xA9]"
  "utf8_decode (''caf'' @ [CHR 0xE9]) = Inl (UnicodeDecodeError ''utf-8'')"
  "utf8_decode [CHR 0xC5, CHR 0x81] = Inl (NotModelled ''code point above U+00FF'')"
  by (simp_all add: decode_defs)

text \<open>
  Runs on an archive without payload whose control file has the given bytes. With line
  ends \<^verbatim>\<open>\r\n\<close> the package name is found and the control file is written back with
  line ends \<^verbatim>\<open>\n\<close>; with a name after a single \<^verbatim>\<open>\r\<close> the name is found as well;
  with a byte that cannot be decoded the run ends with \<^verbatim>\<open>UnicodeDecodeError\<close>.
\<close>

lemma control_env_extracted:
  "extract_deb (control_env bytes) ''/home/user/foo.deb''
     (example_world\<lparr>cwd := ''/tmp/tmpk3x9/package'', staged := Map.empty, package_deb := None\<rparr>)
   = Ok () (example_world\<lparr>cwd := ''/tmp/tmpk3x9/package'', staged := Map.empty, package_deb := None,
                           staged := Map.empty ++ [''DEBIAN/control'' \<mapsto> File bytes]\<rparr>)"
  by (rule extract_deb_Ok) (simp_all add: control_env_def package_env_def)

lemma control_env_main:
  "main (control_env bytes) example_world =
     (case staging (control_env bytes) ''/home/user/foo.deb'' ''2.0''
             (example_world\<lparr>cwd := ''/tmp/tmpk3x9/package'', staged := Map.empty,
                             package_deb := None\<rparr>) of
        Raise err w' \<Rightarrow> (Uncaught err, leave (cwd example_world) w')
      | Ok u w' \<Rightarrow> (Exit 0, leave (cwd example_world) w'))"
proof -
  have a: "3 \<le> length (argv (control_env bytes))" "euid (control_env bytes) = 0"
    by (simp_all add: control_env_def package_env_def)
  show ?thesis unfolding main_run [OF a]
    by (simp add: example_paths control_env_def package_env_def)
qed

lemma control_env_repacked:
  assumes "staged w ''DEBIAN/control'' = Some (File bytes)" and "fs w = fs example_world"
  shows "repack (control_env bytes') ''/home/user/foo.deb'' w =
     Ok () (w\<lparr>cwd := abspath (cwd w) ''..'',
               fs := (fs w)([''home'', ''user'', ''foo.deb''] \<mapsto> Regular (''deb with '' @ bytes)),
               package_deb := None\<rparr>)"
proof -
  let ?q = "[''home'', ''user'', ''foo.deb'']"
  have b: "dpkg_build (control_env bytes') (staged w) = (0, ''deb with '' @ bytes)"
    using assms(1) by (simp add: control_env_def package_env_def)
  have i: "isabs ''/home/user/foo.deb''" by (simp add: isabs_def starts_def)
  have r: "os_resolve (fs w) False [] ''/home/user/foo.deb'' = Some ?q"
    by (simp add: assms(2) example_paths)
  have o: "fs w ?q = Some (Regular ''deb 1.0'')" by (simp add: assms(2) example_paths)
  have k: "?q \<noteq> []" by simp
  have "shutil_move (control_env bytes') ?q (''deb with '' @ bytes) = Renamed"
    by (simp add: control_env_def package_env_def)
  with repack_regular [OF i r o k b] show ?thesis by simp
qed

lemma crlf_control_file:
  "fst (main (control_env (''Package: foo'' @ [CHR 0x0D, CHR 0x0A] @ ''Version: 1.0''
                            @ [CHR 0x0D, CHR 0x0A])) example_world) = Exit 0
   \<and> fs (snd (main (control_env (''Package: foo'' @ [CHR 0x0D, CHR 0x0A] @ ''Version: 1.0''
                                  @ [CHR 0x0D, CHR 0x0A])) example_world))
        [''home'', ''user'', ''foo.deb'']
      = Some (Regular ''deb with Package: foo\<newline>Version: 2.0\<newline>'')"
proof -
  let ?bytes = "''Package: foo'' @ [CHR 0x0D, CHR 0x0A] @ ''Version: 1.0'' @ [CHR 0x0D, CHR 0x0A]"
  let ?e = "control_env ?bytes"
  let ?w1 = "example_world\<lparr>cwd := ''/tmp/tmpk3x9/package'', staged := Map.empty, package_deb := None\<rparr>"
  let ?w2 = "?w1\<lparr>staged := Map.empty ++ [''DEBIAN/control'' \<mapsto> File ?bytes]\<rparr>"
  let ?w3 = "?w1\<lparr>staged := [''DEBIAN/control'' \<mapsto> File ''Package: foo\<newline>Version: 2.0\<newline>''],
                  probed := [''usr/share/doc/foo/changelog.gz'', ''usr/share/doc/foo/changelog.Debian.gz'']\<rparr>"
  have c: "change_version ?e ''2.0'' ?w2 = Ok () ?w3"
    by (simp add: change_version_def changelog_loop.simps bind_def isfile_def is_regular_def
          read_text_def write_text_def write_bytes_def rmtree_def Let_def text_defs re_defs
          example_world_def)
  have "repack ?e ''/home/user/foo.deb'' ?w3 =
     Ok () (?w3\<lparr>cwd := abspath (cwd ?w3) ''..'',
               fs := (fs ?w3)([''home'', ''user'', ''foo.deb'']
                        \<mapsto> Regular (''deb with '' @ ''Package: foo\<newline>Version: 2.0\<newline>'')),
               package_deb := None\<rparr>)"
    by (rule control_env_repacked) simp_all
  with staging_steps [OF control_env_extracted c] show ?thesis
    unfolding control_env_main by (simp add: leave_def)
qed

lemma carriage_return_before_the_package_line:
  "fst (main (control_env (''Source: x'' @ [CHR 0x0D] @ ''Package: foo\<newline>'')) example_world) = Exit 0
   \<and> probed (snd (main (control_env (''Source: x'' @ [CHR 0x0D] @ ''Package: foo\<newline>''))
                      example_world))
      = [''usr/share/doc/foo/changelog.gz'', ''usr/share/doc/foo/changelog.Debian.gz'']"
proof -
  let ?bytes = "''Source: x'' @ [CHR 0x0D] @ ''Package: foo\<newline>''"
  let ?e = "control_env ?bytes"
  let ?w1 = "example_world\<lparr>cwd := ''/tmp/tmpk3x9/package'', staged := Map.empty, package_deb := None\<rparr>"
  let ?w2 = "?w1\<lparr>staged := Map.empty ++ [''DEBIAN/control'' \<mapsto> File ?bytes]\<rparr>"
  let ?w3 = "?w1\<lparr>staged := [''DEBIAN/control'' \<mapsto> File ''Source: x\<newline>Package: foo\<newline>''],
                  probed := [''usr/share/doc/foo/changelog.gz'', ''usr/share/doc/foo/changelog.Debian.gz'']\<rparr>"
  have c: "change_version ?e ''2.0'' ?w2 = Ok () ?w3"
    by (simp add: change_version_def changelog_loop.simps bind_def isfile_def is_regular_def
          read_text_def write_text_def write_bytes_def rmtree_def Let_def text_defs re_defs
          example_world_def)
  have "repack ?e ''/home/user/foo.deb'' ?w3 =
     Ok () (?w3\<lparr>cwd := abspath (cwd ?w3) ''..'',
               fs := (fs ?w3)([''home'', ''user'', ''foo.deb'']
                        \<mapsto> Regular (''deb with '' @ ''Source: x\<newline>Package: foo\<newline>'')),
               package_deb := None\<rparr>)"
    by (rule control_env_repacked) simp_all
  with staging_steps [OF control_env_extracted c] show ?thesis
    unfolding control_env_main by (simp add: leave_def)
qed

lemma undecodable_control_file:
  "main (control_env (''Package: caf'' @ [CHR 0xE9] @ ''\<newline>'')\<lparr>dch := (\<lambda>v c. (1, c))\<rparr>) example_world
   = (Uncaught (UnicodeDecodeError ''utf-8''), example_world)"
proof -
  let ?bytes = "''Package: caf'' @ [CHR 0xE9] @ ''\<newline>''"
  let ?e = "control_env ?bytes\<lparr>dch := (\<lambda>v c. (1, c))\<rparr>"
  let ?w1 = "example_world\<lparr>cwd := ''/tmp/tmpk3x9/package'', staged := Map.empty, package_deb := None\<rparr>"
  let ?w2 = "?w1\<lparr>staged := Map.empty ++ [''DEBIAN/control'' \<mapsto> File ?bytes]\<rparr>"
  have a: "3 \<le> length (argv ?e)" "euid ?e = 0" by (simp_all add: control_env_def package_env_def)
  have x: "extract_deb ?e ''/home/user/foo.deb'' ?w1 = Ok () ?w2"
    by (rule extract_deb_Ok) (simp_all add: control_env_def package_env_def)
  have c: "change_version ?e ''2.0'' ?w2 = Raise (UnicodeDecodeError ''utf-8'') ?w2"
    by (simp add: change_version_def bind_def read_text_def decode_defs)
  from staging_change_version_fails [OF x c]
  have "main ?e example_world = (Uncaught (UnicodeDecodeError ''utf-8''), leave (cwd example_world) ?w2)"
    unfolding main_run [OF a] by (simp add: example_paths control_env_def package_env_def)
  then show ?thesis by (simp add: leave_def example_world_def)
qed

section \<open>Properties\<close>

subsection \<open>The version line\<close>

lemma map_new_line_id:
  "\<not> (\<exists>l \<in> set ls. prefix ''Version: '' l) \<Longrightarrow> map (new_line t) ls = ls"
  by (induction ls) (auto simp: new_line_def)

lemma filter_new_line:
  "filter (\<lambda>l. l = ''Version: '' @ v) (map (new_line (''Version: '' @ v)) ls) =
   map (new_line (''Version: '' @ v)) (filter (prefix ''Version: '') ls)"
  by (induction ls) (auto simp: new_line_def)

text \<open>
  What a change-version step that ends normally has done to the control file: it has
  read its text, and it has written the result of the substitution.
\<close>

lemma read_text_Ok:
  assumes "read_text p w = Ok t w'"
  shows "w' = w \<and> (\<exists>bytes. staged w p = Some (File bytes))"
  using assms by (auto simp: read_text_def split: option.splits node.splits sum.splits)

lemma change_version_Ok:
  assumes "change_version e v w = Ok u w'"
  shows "\<exists>control_text text'. read_text ''DEBIAN/control'' w = Ok control_text w
     \<and> pattern_sub VERSION_RE (''Version: '' @ v) control_text = Inr text'
     \<and> staged w' ''DEBIAN/control'' = Some (File (utf8_encode text'))"
proof (cases "read_text ''DEBIAN/control'' w")
  case (Raise err wr)
  with assms show ?thesis by (simp add: change_version_def bind_def)
next
  case (Ok control_text wr)
  with read_text_Ok [OF Ok] have rd: "read_text ''DEBIAN/control'' w = Ok control_text w" by simp
  show ?thesis
  proof (cases "search (fst PACKAGE_RE) None control_text")
    case None
    with assms rd show ?thesis by (simp add: change_version_def bind_def)
  next
    case (Some g)
    show ?thesis
    proof (cases "pattern_sub VERSION_RE (''Version: '' @ v) control_text")
      case (Inl err)
      with assms rd Some show ?thesis by (simp add: change_version_def bind_def Let_def)
    next
      case (Inr text')
      let ?name = "case map_of g 1 of None \<Rightarrow> ''None'' | Some name \<Rightarrow> name"
      let ?loop = "changelog_loop e ?name v [''changelog.gz'', ''changelog.Debian.gz''] w"
      from assms rd Some Inr have s: "bind ?loop (\<lambda>_ w.
              bind (write_text ''DEBIAN/control'' text' w) (\<lambda>_ w. rmtree ''debian'' w)) = Ok u w'"
        by (simp add: change_version_def bind_def Let_def del: changelog_loop.simps)
      then obtain ul wl where l: "?loop = Ok ul wl"
        by (cases ?loop) (simp_all add: bind_def del: changelog_loop.simps)
      with s have "bind (write_text ''DEBIAN/control'' text' wl) (\<lambda>_ w. rmtree ''debian'' w) = Ok u w'"
        by (simp add: bind_def del: changelog_loop.simps)
      then have "staged w' ''DEBIAN/control'' = Some (File (utf8_encode text'))"
        by (auto simp: bind_def write_text_def write_bytes_def rmtree_def
              split: option.splits node.splits result.splits)
      with rd Inr show ?thesis by blast
    qed
  qed
qed

text \<open>
  Claim C2, as amended. Take a run of the tool that ends with exit status 0, with a new
  version \<open>v\<close> (the second argument) that contains no backslash and no line feed. Then
  the archive that replaces the original is the one \<^verbatim>\<open>dpkg-deb -b\<close> built from the
  tree the change-version step left, and the control file of that tree is the encoded
  text \<open>text'\<close>, where \<open>control_text\<close> is the text read from the extracted control file
  (in text mode, so its lines are what is between the line ends \<^verbatim>\<open>\n\<close>, \<^verbatim>\<open>\r\n\<close>
  and \<^verbatim>\<open>\r\<close>) and, line by line, \<open>text'\<close> is \<open>control_text\<close> with every line that
  begins \<^verbatim>\<open>Version: \<close> replaced as a whole by \<^verbatim>\<open>Version: \<close> followed by \<open>v\<close> as it
  is, and every other line (the \<^verbatim>\<open>Package:\<close> line among them) unchanged. So control
  metadata with exactly one such line has exactly one line \<^verbatim>\<open>Version: v\<close> afterwards,
  and control metadata with none is written back as it was read.
\<close>

theorem version_rewrite:
  assumes "CHR 0x5C \<notin> set (argv e ! 2)" and "nl \<notin> set (argv e ! 2)"
    and "main e w = (Exit 0, w')"
  shows "\<exists>w2 w3 control_text text'.
       extract_deb e (abspath (cwd w) (argv e ! 1))
         (w\<lparr>cwd := abspath (cwd w) (path_join (mkdtemp e) ''package''), staged := Map.empty,
            package_deb := None\<rparr>) = Ok () w2
     \<and> read_text ''DEBIAN/control'' w2 = Ok control_text w2
     \<and> change_version e (argv e ! 2) w2 = Ok () w3
     \<and> staged w3 ''DEBIAN/control'' = Some (File (utf8_encode text'))
     \<and> (\<exists>q. fs w' = (fs w)(q \<mapsto> Regular (snd (dpkg_build e (staged w3)))))
     \<and> split_on nl text' = map (new_line (''Version: '' @ argv e ! 2)) (split_on nl control_text)
     \<and> (length (filter (prefix ''Version: '') (split_on nl control_text)) = 1
          \<longrightarrow> length (filter (\<lambda>l. l = ''Version: '' @ argv e ! 2) (split_on nl text')) = 1)
     \<and> (\<not> (\<exists>l \<in> set (split_on nl control_text). prefix ''Version: '' l) \<longrightarrow> text' = control_text)"
proof -
  let ?v = "argv e ! 2"
  let ?d = "abspath (cwd w) (argv e ! 1)"
  let ?w1 = "w\<lparr>cwd := abspath (cwd w) (path_join (mkdtemp e) ''package''), staged := Map.empty,
            package_deb := None\<rparr>"
  let ?f = "new_line (''Version: '' @ ?v)"
  from main_Exit_0 [OF assms(3)] obtain w4 where st: "staging e ?d ?v ?w1 = Ok () w4"
    and w': "w' = leave (cwd w) w4" by blast
  from staging_Ok_fs [OF st] obtain w2 w3 q where x: "extract_deb e ?d ?w1 = Ok () w2"
    and c: "change_version e ?v w2 = Ok () w3"
    and f4: "fs w4 = (fs ?w1)(q \<mapsto> Regular (snd (dpkg_build e (staged w3))))" by blast
  from f4 w' have f: "\<exists>q. fs w' = (fs w)(q \<mapsto> Regular (snd (dpkg_build e (staged w3))))"
    by (auto simp: leave_def)
  from change_version_Ok [OF c] obtain control_text text' where
    rd: "read_text ''DEBIAN/control'' w2 = Ok control_text w2"
    and sub: "pattern_sub VERSION_RE (''Version: '' @ ?v) control_text = Inr text'"
    and wr: "staged w3 ''DEBIAN/control'' = Some (File (utf8_encode text'))" by blast
  from sub pattern_sub_VERSION_RE [OF assms(1), of "control_text"]
  have t: "text' = join_with [nl] (map ?f (split_on nl control_text))" by simp
  have "\<forall>l \<in> set (map ?f (split_on nl control_text)). nl \<notin> set l"
    using assms(2) by (auto simp: new_line_def dest: split_on_no_sep)
  then have lines: "split_on nl text' = map ?f (split_on nl control_text)"
    unfolding t by (intro split_join) (simp_all add: split_on_nonempty)
  have one: "length (filter (prefix ''Version: '') (split_on nl control_text)) = 1
          \<longrightarrow> length (filter (\<lambda>l. l = ''Version: '' @ ?v) (split_on nl text')) = 1"
    unfolding lines filter_new_line by simp
  have noop: "\<not> (\<exists>l \<in> set (split_on nl control_text). prefix ''Version: '' l) \<longrightarrow> text' = control_text"
    unfolding t by (auto simp: map_new_line_id join_split simp del: bex_simps)
  from x rd c wr f lines one noop show ?thesis by blast
qed

theorem version_rewrite_witness:
  "CHR 0x5C \<notin> set (argv (package_env ''foo'') ! 2) \<and> nl \<notin> set (argv (package_env ''foo'') ! 2)
   \<and> fst (main (package_env ''foo'') example_world) = Exit 0
   \<and> (\<exists>q. fs (snd (main (package_env ''foo'') example_world)) =
           (fs example_world)(q \<mapsto> Regular ''deb with Package: foo\<newline>Version: 2.0\<newline>''))"
proof -
  let ?e = "package_env ''foo''"
  let ?w1 = "example_world\<lparr>cwd := abspath (cwd example_world) (path_join (mkdtemp ?e) ''package''),
                staged := Map.empty, package_deb := None\<rparr>"
  let ?w2 = "?w1\<lparr>staged := package_payload ''foo'' ++ package_control ''foo''\<rparr>"
  have h: "CHR 0x5C \<notin> set (argv ?e ! 2)" "nl \<notin> set (argv ?e ! 2)"
    by (simp_all add: package_env_def)
  have m: "main ?e example_world = (Exit 0, snd (main ?e example_world))"
    by (simp add: example_run)
  have x: "extract_deb ?e (abspath (cwd example_world) (argv ?e ! 1)) ?w1 = Ok () ?w2"
    by (rule extract_deb_Ok) (simp_all add: read_archive_def example_paths package_env_def)
  have rd: "read_text ''DEBIAN/control'' ?w2 = Ok ''Package: foo\<newline>Version: 1.0\<newline>'' ?w2"
    by (simp add: read_text_def package_control_def text_defs)
  from version_rewrite [OF h m]
  have "\<exists>q. fs (snd (main ?e example_world)) =
           (fs example_world)(q \<mapsto> Regular ''deb with Package: foo\<newline>Version: 2.0\<newline>'')"
  proof (elim exE conjE)
    fix w2 w3 control_text text' q
    assume x': "extract_deb ?e (abspath (cwd example_world) (argv ?e ! 1)) ?w1 = Ok () w2"
      and rd': "read_text ''DEBIAN/control'' w2 = Ok control_text w2"
      and wr: "staged w3 ''DEBIAN/control'' = Some (File (utf8_encode text'))"
      and f: "fs (snd (main ?e example_world)) =
                (fs example_world)(q \<mapsto> Regular (snd (dpkg_build ?e (staged w3))))"
      and lines: "split_on nl text' = map (new_line (''Version: '' @ argv ?e ! 2)) (split_on nl control_text)"
    from x x' have "w2 = ?w2" by simp
    with rd rd' have "control_text = ''Package: foo\<newline>Version: 1.0\<newline>''" by simp
    with lines have "split_on nl text' = [''Package: foo'', ''Version: 2.0'', []]"
      by (simp add: new_line_def package_env_def)
    then have "join_with [nl] (split_on nl text') = join_with [nl] [''Package: foo'', ''Version: 2.0'', []]"
      by simp
    then have "text' = ''Package: foo\<newline>Version: 2.0\<newline>''" by (simp add: join_split)
    with wr have "snd (dpkg_build ?e (staged w3)) = ''deb with Package: foo\<newline>Version: 2.0\<newline>''"
      by (simp add: package_env_def text_defs)
    with f show ?thesis by auto
  qed
  moreover have "fst (main ?e example_world) = Exit 0" by (simp add: example_run)
  ultimately show ?thesis using h by (intro conjI)
qed

text \<open>
  The claim as stated fails in two ways. The substitution replaces every match: for an
  archive whose control metadata has two lines beginning \<^verbatim>\<open>Version: \<close>, the run with
  the version \<^verbatim>\<open>3\<close> ends with exit status 0 and the control file that goes into the
  new archive has two lines \<^verbatim>\<open>Version: 3\<close>, not exactly one. And the version is used
  as a replacement template, not verbatim: the two characters backslash and \<^verbatim>\<open>n\<close> in
  it become a line feed.
\<close>

theorem version_rewrite_counterexample:
  "fst (main two_versions_env example_world) = Exit 0
   \<and> fs (snd (main two_versions_env example_world)) [''home'', ''user'', ''foo.deb'']
       = Some (Regular ''deb with Package: p\<newline>Version: 3\<newline>Version: 3\<newline>'')
   \<and> pattern_sub VERSION_RE (''Version: '' @ ''3'')
      ''Package: p\<newline>Version: 1\<newline>Version: 2\<newline>''
     = Inr ''Package: p\<newline>Version: 3\<newline>Version: 3\<newline>''
   \<and> length (filter (\<lambda>l. l = ''Version: 3'')
         (split_on nl ''Package: p\<newline>Version: 3\<newline>Version: 3\<newline>'')) = 2
   \<and> pattern_sub VERSION_RE (''Version: '' @ [CHR ''2'', CHR 0x5C, CHR ''n'', CHR ''0''])
      ''Package: p\<newline>Version: 1\<newline>''
     = Inr ''Package: p\<newline>Version: 2\<newline>0\<newline>''"
proof -
  let ?e = two_versions_env
  let ?w1 = "example_world\<lparr>cwd := ''/tmp/tmpk3x9/package'', staged := Map.empty, package_deb := None\<rparr>"
  let ?w2 = "?w1\<lparr>staged := Map.empty ++ [''DEBIAN/control'' \<mapsto> File ''Package: p\<newline>Version: 1\<newline>Version: 2\<newline>'']\<rparr>"
  have a: "3 \<le> length (argv ?e)" "euid ?e = 0" by (simp_all add: two_versions_env_def package_env_def)
  have x: "extract_deb ?e ''/home/user/foo.deb'' ?w1 = Ok () ?w2"
    by (rule extract_deb_Ok) (simp_all add: two_versions_env_def package_env_def)
  have c: "change_version ?e ''3'' ?w2 =
      Ok () (?w1\<lparr>staged := [''DEBIAN/control'' \<mapsto> File ''Package: p\<newline>Version: 3\<newline>Version: 3\<newline>''],
                  probed := [''usr/share/doc/p/changelog.gz'', ''usr/share/doc/p/changelog.Debian.gz'']\<rparr>)"
    by (simp add: change_version_def changelog_loop.simps bind_def isfile_def is_regular_def
          read_text_def write_text_def write_bytes_def rmtree_def Let_def text_defs re_defs
          example_world_def)
  let ?w3 = "?w1\<lparr>staged := [''DEBIAN/control'' \<mapsto> File ''Package: p\<newline>Version: 3\<newline>Version: 3\<newline>''],
                  probed := [''usr/share/doc/p/changelog.gz'', ''usr/share/doc/p/changelog.Debian.gz'']\<rparr>"
  have b: "dpkg_build ?e (staged ?w3) = (0, ''deb with Package: p\<newline>Version: 3\<newline>Version: 3\<newline>'')"
    by (simp add: two_versions_env_def package_env_def)
  have "repack ?e ''/home/user/foo.deb'' ?w3 =
      Ok () (?w3\<lparr>cwd := abspath (cwd ?w3) ''..'',
                 fs := (fs ?w3)([''home'', ''user'', ''foo.deb'']
                                \<mapsto> Regular ''deb with Package: p\<newline>Version: 3\<newline>Version: 3\<newline>''),
                 package_deb := None\<rparr>)"
    using repack_regular [of "''/home/user/foo.deb''" ?w3 "[]" "[''home'', ''user'', ''foo.deb'']"
        "''deb 1.0''" ?e "''deb with Package: p\<newline>Version: 3\<newline>Version: 3\<newline>''"] b
    by (simp add: example_paths isabs_def starts_def two_versions_env_def package_env_def)
  then have s: "staging ?e ''/home/user/foo.deb'' ''3'' ?w1 =
      Ok () (?w3\<lparr>cwd := abspath (cwd ?w3) ''..'',
                 fs := (fs ?w3)([''home'', ''user'', ''foo.deb'']
                                \<mapsto> Regular ''deb with Package: p\<newline>Version: 3\<newline>Version: 3\<newline>''),
                 package_deb := None\<rparr>)"
    using staging_steps [OF x c] by simp
  have m: "main ?e example_world =
      (Exit 0, leave (cwd example_world)
         (?w3\<lparr>cwd := abspath (cwd ?w3) ''..'',
               fs := (fs ?w3)([''home'', ''user'', ''foo.deb'']
                              \<mapsto> Regular ''deb with Package: p\<newline>Version: 3\<newline>Version: 3\<newline>''),
               package_deb := None\<rparr>))"
    using s unfolding main_run [OF a]
    by (simp add: example_paths two_versions_env_def package_env_def)
  have p: "pattern_sub VERSION_RE (''Version: '' @ ''3'')
      ''Package: p\<newline>Version: 1\<newline>Version: 2\<newline>''
     = Inr ''Package: p\<newline>Version: 3\<newline>Version: 3\<newline>''
   \<and> length (filter (\<lambda>l. l = ''Version: 3'')
         (split_on nl ''Package: p\<newline>Version: 3\<newline>Version: 3\<newline>'')) = 2
   \<and> pattern_sub VERSION_RE (''Version: '' @ [CHR ''2'', CHR 0x5C, CHR ''n'', CHR ''0''])
      ''Package: p\<newline>Version: 1\<newline>''
     = Inr ''Package: p\<newline>Version: 2\<newline>0\<newline>''"
    by (simp add: pattern_sub_def VERSION_RE_def seq_of_def sub_loop.simps match_at_def
        starts_def expand_def parse_escape_def simple_escape_def is_digit_def)
  from m p show ?thesis by (simp add: leave_def)
qed

text \<open>
  Claim C8, as amended. Let \<open>v\<close> contain no backslash. If every line of the control text
  that begins \<^verbatim>\<open>Version: \<close> is already exactly \<^verbatim>\<open>Version: v\<close>, as it is after a
  first run with \<open>v\<close>, then the substitution with \<open>v\<close> gives the same text back: the
  version line is still exactly \<^verbatim>\<open>Version: v\<close>.
\<close>

theorem version_rewrite_again:
  assumes "CHR 0x5C \<notin> set v"
    and "\<forall>l \<in> set (split_on nl text). prefix ''Version: '' l \<longrightarrow> l = ''Version: '' @ v"
  shows "pattern_sub VERSION_RE (''Version: '' @ v) text = Inr text"
proof -
  have "map (new_line (''Version: '' @ v)) (split_on nl text) = split_on nl text"
    using assms(2) by (intro map_idI) (auto simp: new_line_def)
  then show ?thesis
    using pattern_sub_VERSION_RE [OF assms(1), of "text"] by (simp add: join_split)
qed

theorem version_rewrite_again_witness:
  "CHR 0x5C \<notin> set ''2.0''
   \<and> split_on nl ''Package: foo\<newline>Version: 2.0\<newline>'' = [''Package: foo'', ''Version: 2.0'', []]
   \<and> pattern_sub VERSION_RE (''Version: '' @ ''2.0'') ''Package: foo\<newline>Version: 2.0\<newline>''
      = Inr ''Package: foo\<newline>Version: 2.0\<newline>''"
proof -
  have h: "CHR 0x5C \<notin> set ''2.0''" by simp
  have g: "\<forall>l \<in> set (split_on nl ''Package: foo\<newline>Version: 2.0\<newline>'').
             prefix ''Version: '' l \<longrightarrow> l = ''Version: '' @ ''2.0''"
    by simp
  from version_rewrite_again [OF h g] show ?thesis by simp
qed

text \<open>
  With a backslash in the version the claim as stated fails: for the version that
  consists of two backslashes, the text whose only line is already \<^verbatim>\<open>Version: \<close>
  followed by that version comes back with one backslash.
\<close>

theorem version_rewrite_again_counterexample:
  "split_on nl (''Version: '' @ [CHR 0x5C, CHR 0x5C]) = [''Version: '' @ [CHR 0x5C, CHR 0x5C]]
   \<and> pattern_sub VERSION_RE (''Version: '' @ [CHR 0x5C, CHR 0x5C]) (''Version: '' @ [CHR 0x5C, CHR 0x5C])
      = Inr (''Version: '' @ [CHR 0x5C])
   \<and> ''Version: '' @ [CHR 0x5C] \<noteq> ''Version: '' @ [CHR 0x5C, CHR 0x5C]"
  by (simp add: pattern_sub_def VERSION_RE_def seq_of_def sub_loop.simps match_at_def
        starts_def expand_def parse_escape_def simple_escape_def is_digit_def)

subsection \<open>The package name\<close>

text \<open>
  Claim C7, as amended. \<^verbatim>\<open>PACKAGE_RE.search\<close> finds the first line of the control
  text that begins \<^verbatim>\<open>Package: \<close> and has at least one more character, and its
  group 1, the package name, is everything in that line after the prefix. If the text
  read from the extracted control file has no such line, the run ends with the
  \<^verbatim>\<open>RuntimeError\<close> ``Could not find the package name in deb's control file.'' and
  nothing outside the temporary directory, the archive among it, has changed.
\<close>

theorem package_name_search:
  "search (fst PACKAGE_RE) None control_text =
     (case filter package_line (split_on nl control_text) of
        [] \<Rightarrow> None
      | l # _ \<Rightarrow> Some [(1, drop 9 l)])
   \<and> (3 \<le> length (argv e) \<and> euid e = 0
        \<and> extract_deb e (abspath (cwd w) (argv e ! 1))
             (w\<lparr>cwd := abspath (cwd w) (path_join (mkdtemp e) ''package''), staged := Map.empty,
                package_deb := None\<rparr>) = Ok () w2
        \<and> read_text ''DEBIAN/control'' w2 = Ok control_text w2
        \<and> filter package_line (split_on nl control_text) = []
      \<longrightarrow> fst (main e w) = Uncaught (RuntimeError ''Could not find the package name in deb's control file.'')
          \<and> fs (snd (main e w)) = fs w)"
proof (intro conjI impI)
  show "search (fst PACKAGE_RE) None control_text =
     (case filter package_line (split_on nl control_text) of
        [] \<Rightarrow> None
      | l # _ \<Rightarrow> Some [(1, drop 9 l)])"
    by (rule search_PACKAGE_RE)
next
  let ?d = "abspath (cwd w) (argv e ! 1)"
  let ?w1 = "w\<lparr>cwd := abspath (cwd w) (path_join (mkdtemp e) ''package''), staged := Map.empty,
                package_deb := None\<rparr>"
  assume a: "3 \<le> length (argv e) \<and> euid e = 0
        \<and> extract_deb e ?d ?w1 = Ok () w2
        \<and> read_text ''DEBIAN/control'' w2 = Ok control_text w2
        \<and> filter package_line (split_on nl control_text) = []"
  then have args: "3 \<le> length (argv e)" "euid e = 0" by simp_all
  from a have x: "extract_deb e ?d ?w1 = Ok () w2" by simp
  from a have rd: "read_text ''DEBIAN/control'' w2 = Ok control_text w2" by simp
  from a have none: "search (fst PACKAGE_RE) None control_text = None"
    by (simp add: search_PACKAGE_RE)
  have cv: "change_version e (argv e ! 2) w2 =
      Raise (RuntimeError ''Could not find the package name in deb's control file.'') w2"
    by (simp only: change_version_def bind_def rd result.case none option.case)
  have st: "staging e ?d (argv e ! 2) ?w1 =
      Raise (RuntimeError ''Could not find the package name in deb's control file.'') w2"
    by (simp only: staging_def bind_def x cv result.case)
  have m: "main e w =
      (Uncaught (RuntimeError ''Could not find the package name in deb's control file.''),
       leave (cwd w) w2)"
    by (simp only: main_run [OF args] st result.case)
  show "fst (main e w) = Uncaught (RuntimeError ''Could not find the package name in deb's control file.'')"
    by (simp only: m fst_conv)
  show "fs (snd (main e w)) = fs w"
    using fs_extract_deb [of e ?d ?w1] x by (simp add: m leave_def)
qed

theorem package_name_search_witness:
  "split_on nl ''Version: 1.0\<newline>'' = [''Version: 1.0'', []]
   \<and> fst (main (package_env ''foo''\<lparr>dpkg_control := (\<lambda>a. (0, no_package_control))\<rparr>) example_world)
       = Uncaught (RuntimeError ''Could not find the package name in deb's control file.'')
   \<and> fs (snd (main (package_env ''foo''\<lparr>dpkg_control := (\<lambda>a. (0, no_package_control))\<rparr>) example_world))
       = fs example_world"
proof -
  let ?e = "package_env ''foo''\<lparr>dpkg_control := (\<lambda>a. (0, no_package_control))\<rparr>"
  let ?w1 = "example_world\<lparr>cwd := abspath (cwd example_world) (path_join (mkdtemp ?e) ''package''),
                staged := Map.empty, package_deb := None\<rparr>"
  let ?w2 = "?w1\<lparr>staged := package_payload ''foo'' ++ no_package_control\<rparr>"
  have a: "3 \<le> length (argv ?e)" "euid ?e = 0" by (simp_all add: package_env_def)
  have x: "extract_deb ?e (abspath (cwd example_world) (argv ?e ! 1)) ?w1 = Ok () ?w2"
    by (rule extract_deb_Ok) (simp_all add: read_archive_def example_paths package_env_def)
  have c: "read_text ''DEBIAN/control'' ?w2 = Ok ''Version: 1.0\<newline>'' ?w2"
    by (simp add: read_text_def no_package_control_def text_defs)
  have n: "filter package_line (split_on nl ''Version: 1.0\<newline>'') = []"
    by (simp add: package_line_def)
  from package_name_search [of "''Version: 1.0\<newline>''" ?e example_world ?w2] a x c n
  show ?thesis by simp
qed

text \<open>
  The claim as stated speaks of a line beginning \<^verbatim>\<open>Package: \<close>, the name being
  everything after the prefix. The pattern asks for a non-empty name: a first line that
  is exactly the prefix is passed over and the name comes from a later line, and a text
  whose only line is the prefix has a line beginning \<^verbatim>\<open>Package: \<close> and still no
  match.
\<close>

theorem package_name_search_counterexample:
  "split_on nl ''Package: \<newline>Package: foo\<newline>'' = [''Package: '', ''Package: foo'', []]
   \<and> search (fst PACKAGE_RE) None ''Package: \<newline>Package: foo\<newline>'' = Some [(1, ''foo'')]
   \<and> split_on nl ''Package: '' = [''Package: '']
   \<and> search (fst PACKAGE_RE) None ''Package: '' = None"
  by (simp add: search_PACKAGE_RE package_line_def del: search.simps)


subsection \<open>The changelog\<close>

text \<open>
  Claim C6. The loop of \<^verbatim>\<open>main\<close> asks for \<^verbatim>\<open>changelog.gz\<close> first. If that is a
  file, the loop is the one call of \<^verbatim>\<open>_update_changelog_file\<close> with that path,
  under the handler for a failed command: the second name is never asked for, and what
  is at the second path stays as it is. If the first is not a file and
  \<^verbatim>\<open>changelog.Debian.gz\<close> is, both names are asked for, in that order, the loop is the
  one call with the second path, and the first path stays as it is. If neither is a
  file, the loop ends normally and nothing of the world has changed but the record of
  the two questions: the checksum manifest is untouched and no error is raised.
\<close>

theorem changelog_candidates:
  "let p1 = ''usr/share/doc/'' @ name @ ''/changelog.gz'';
       p2 = ''usr/share/doc/'' @ name @ ''/changelog.Debian.gz'';
       both = changelog_loop e name v [''changelog.gz'', ''changelog.Debian.gz''] w;
       handled = (\<lambda>m. case m of
           Raise (CalledProcessError cmd status) w' \<Rightarrow>
             Ok () (print (''WARNING: Failed to update changelog file: '' @ str_exc e cmd status
                           @ [CHR 0x0A] @ ''Leaving the changelog file unchanged.'') w')
         | Raise err w' \<Rightarrow> Raise err w'
         | Ok u w' \<Rightarrow> Ok () w')
   in (is_regular (staged w) p1 \<longrightarrow>
         both = handled (update_changelog_file e p1 v (w\<lparr>probed := probed w @ [p1]\<rparr>))
         \<and> probed (world_of both) = probed w @ [p1]
         \<and> staged (world_of both) p2 = staged w p2)
    \<and> (\<not> is_regular (staged w) p1 \<and> is_regular (staged w) p2 \<longrightarrow>
         both = handled (update_changelog_file e p2 v (w\<lparr>probed := probed w @ [p1, p2]\<rparr>))
         \<and> probed (world_of both) = probed w @ [p1, p2]
         \<and> staged (world_of both) p1 = staged w p1)
    \<and> (\<not> is_regular (staged w) p1 \<and> \<not> is_regular (staged w) p2 \<longrightarrow>
         both = Ok () (w\<lparr>probed := probed w @ [p1, p2]\<rparr>))"
proof -
  let ?p1 = "''usr/share/doc/'' @ name @ ''/changelog.gz''"
  let ?p2 = "''usr/share/doc/'' @ name @ ''/changelog.Debian.gz''"
  let ?both = "changelog_loop e name v [''changelog.gz'', ''changelog.Debian.gz''] w"
  let ?msg = "\<lambda>cmd status. ''WARNING: Failed to update changelog file: '' @ str_exc e cmd status
                        @ [CHR 0x0A] @ ''Leaving the changelog file unchanged.''"
  let ?handled = "\<lambda>m. case m of
        Raise (CalledProcessError cmd status) w' \<Rightarrow> Ok () (print (?msg cmd status) w')
      | Raise err w' \<Rightarrow> Raise err w'
      | Ok u w' \<Rightarrow> Ok () w'"
  have ne: "?p2 \<noteq> ?p1" by simp
  have a: "?both = ?handled (update_changelog_file e ?p1 v (w\<lparr>probed := probed w @ [?p1]\<rparr>))
         \<and> probed (world_of ?both) = probed w @ [?p1]
         \<and> staged (world_of ?both) ?p2 = staged w ?p2"
    if "is_regular (staged w) ?p1"
  proof -
    let ?w1 = "w\<lparr>probed := probed w @ [?p1]\<rparr>"
    let ?u = "update_changelog_file e ?p1 v ?w1"
    from that have r: "is_regular (staged w) (''usr/share/doc/'' @ name @ ''/'' @ ''changelog.gz'')"
      by simp
    have b: "?both = ?handled ?u"
      using changelog_loop_found [OF r, of e v "[''changelog.Debian.gz'']"] by simp
    have "probed (world_of ?both) = probed (world_of ?u)"
      unfolding b by (rule handler_obs) simp
    then have p: "probed (world_of ?both) = probed w @ [?p1]"
      by (simp add: update_changelog_file_probed)
    have "staged (world_of ?both) ?p2 = staged (world_of ?u) ?p2"
      unfolding b by (rule handler_obs [where obs = "\<lambda>w. staged w ?p2"]) simp
    also have "\<dots> = staged ?w1 ?p2"
      by (rule update_changelog_file_staged) simp_all
    finally have t: "staged (world_of ?both) ?p2 = staged w ?p2" by simp
    from b p t show ?thesis by simp
  qed
  have c: "?both = changelog_loop e name v [''changelog.Debian.gz''] (w\<lparr>probed := probed w @ [?p1]\<rparr>)"
    if "\<not> is_regular (staged w) ?p1"
    using that changelog_loop_missing [of w name "''changelog.gz''" e v "[''changelog.Debian.gz'']"]
    by simp
  have b: "?both = ?handled (update_changelog_file e ?p2 v (w\<lparr>probed := probed w @ [?p1, ?p2]\<rparr>))
         \<and> probed (world_of ?both) = probed w @ [?p1, ?p2]
         \<and> staged (world_of ?both) ?p1 = staged w ?p1"
    if n: "\<not> is_regular (staged w) ?p1" and "is_regular (staged w) ?p2"
  proof -
    let ?w1 = "w\<lparr>probed := probed w @ [?p1]\<rparr>"
    let ?w2 = "w\<lparr>probed := probed w @ [?p1, ?p2]\<rparr>"
    let ?u = "update_changelog_file e ?p2 v ?w2"
    from that have r: "is_regular (staged ?w1) (''usr/share/doc/'' @ name @ ''/'' @ ''changelog.Debian.gz'')"
      by simp
    have b: "?both = ?handled ?u"
      unfolding c [OF n] using changelog_loop_found [OF r, of e v "[]"] by simp
    have "probed (world_of ?both) = probed (world_of ?u)"
      unfolding b by (rule handler_obs) simp
    then have p: "probed (world_of ?both) = probed w @ [?p1, ?p2]"
      by (simp add: update_changelog_file_probed)
    have "staged (world_of ?both) ?p1 = staged (world_of ?u) ?p1"
      unfolding b by (rule handler_obs [where obs = "\<lambda>w. staged w ?p1"]) simp
    also have "\<dots> = staged ?w2 ?p1"
      by (rule update_changelog_file_staged) simp_all
    finally have t: "staged (world_of ?both) ?p1 = staged w ?p1" by simp
    from b p t show ?thesis by simp
  qed
  have d: "?both = Ok () (w\<lparr>probed := probed w @ [?p1, ?p2]\<rparr>)"
    if n: "\<not> is_regular (staged w) ?p1" and m: "\<not> is_regular (staged w) ?p2"
  proof -
    let ?w1 = "w\<lparr>probed := probed w @ [?p1]\<rparr>"
    from m have "\<not> is_regular (staged ?w1) (''usr/share/doc/'' @ name @ ''/'' @ ''changelog.Debian.gz'')"
      by simp
    from changelog_loop_missing [OF this, of e v "[]"] show ?thesis
      unfolding c [OF n] by simp
  qed
  from a b d show ?thesis unfolding Let_def by blast
qed

text \<open>
  A package with both changelog files: only the first is asked for and rewritten, the
  second keeps its bytes.
\<close>

theorem changelog_candidates_witness:
  "is_regular (staged both_changelogs) (''usr/share/doc/'' @ ''foo'' @ ''/changelog.gz'')
   \<and> is_regular (staged both_changelogs) (''usr/share/doc/'' @ ''foo'' @ ''/changelog.Debian.gz'')
   \<and> probed (world_of (changelog_loop (package_env ''foo'') ''foo'' ''2.0''
        [''changelog.gz'', ''changelog.Debian.gz''] both_changelogs))
      = [''usr/share/doc/foo/changelog.gz'']
   \<and> staged (world_of (changelog_loop (package_env ''foo'') ''foo'' ''2.0''
        [''changelog.gz'', ''changelog.Debian.gz''] both_changelogs))
        ''usr/share/doc/foo/changelog.Debian.gz''
      = Some (File ''gz:debian release'')
   \<and> staged (world_of (changelog_loop (package_env ''foo'') ''foo'' ''2.0''
        [''changelog.gz'', ''changelog.Debian.gz''] both_changelogs))
        ''usr/share/doc/foo/changelog.gz''
      = Some (File ''gz:bumped to 2.0; first release'')"
proof -
  let ?e = "package_env ''foo''"
  let ?both = "changelog_loop ?e ''foo'' ''2.0'' [''changelog.gz'', ''changelog.Debian.gz''] both_changelogs"
  let ?p1 = "''usr/share/doc/'' @ ''foo'' @ ''/changelog.gz''"
  let ?p2 = "''usr/share/doc/'' @ ''foo'' @ ''/changelog.Debian.gz''"
  let ?w1 = "both_changelogs\<lparr>probed := probed both_changelogs @ [?p1]\<rparr>"
  have r: "is_regular (staged both_changelogs) ?p1" "is_regular (staged both_changelogs) ?p2"
    by (simp_all add: is_regular_def both_changelogs_def example_defs)
  have u: "staged (world_of (update_changelog_file ?e ?p1 ''2.0'' ?w1)) ''usr/share/doc/foo/changelog.gz''
      = Some (File ''gz:bumped to 2.0; first release'')"
    by (simp add: update_changelog_file_def add_changelog_entry_def run_dch_def update_md5sums_def
          bind_def check_call_def read_bytes_def write_bytes_def read_text_def write_text_def
          mkdir_def Let_def text_defs re_defs both_changelogs_def example_defs)
  from changelog_candidates [of "''foo''" ?e "''2.0''" both_changelogs, unfolded Let_def] r(1)
  have b: "?both =
      (case update_changelog_file ?e ?p1 ''2.0'' ?w1 of
         Raise (CalledProcessError cmd status) w' \<Rightarrow>
           Ok () (print (''WARNING: Failed to update changelog file: '' @ str_exc ?e cmd status
                         @ [CHR 0x0A] @ ''Leaving the changelog file unchanged.'') w')
       | Raise err w' \<Rightarrow> Raise err w'
       | Ok u w' \<Rightarrow> Ok () w')"
    and p: "probed (world_of ?both) = probed both_changelogs @ [?p1]"
    and s: "staged (world_of ?both) ?p2 = staged both_changelogs ?p2"
    by blast+
  have "staged (world_of ?both) ''usr/share/doc/foo/changelog.gz''
      = staged (world_of (update_changelog_file ?e ?p1 ''2.0'' ?w1)) ''usr/share/doc/foo/changelog.gz''"
    unfolding b by (rule handler_obs [where obs = "\<lambda>w. staged w ''usr/share/doc/foo/changelog.gz''"]) simp
  with u have f: "staged (world_of ?both) ''usr/share/doc/foo/changelog.gz''
      = Some (File ''gz:bumped to 2.0; first release'')" by simp
  from p have p': "probed (world_of ?both) = [''usr/share/doc/foo/changelog.gz'']"
    by (simp add: both_changelogs_def example_world_def)
  from s have s': "staged (world_of ?both) ''usr/share/doc/foo/changelog.Debian.gz''
      = Some (File ''gz:debian release'')"
    by (simp add: both_changelogs_def)
  from r p' s' f show ?thesis by (intro conjI)
qed



text \<open>
  Claim C3. Let the run reach the changelog step: both arguments are there, the
  effective user is 0, the archive is extracted, the text read from the control file has
  a package name and the version template is accepted. Let \<open>item\<close> be the first of the
  two changelog names that is a file, with compressed bytes \<open>gz\<close> that can be unpacked
  into a directory \<^verbatim>\<open>debian\<close> that did not exist, and let \<^verbatim>\<open>dch\<close> exit with a
  non-zero status. Then the change-version step ends normally, and in the tree it leaves
  the changelog file still has the bytes \<open>gz\<close>. If the repack step on that tree
  succeeds, the run exits with status 0, the one thing it has printed is the warning with
  Python's text for the failure, and the archive that replaces the original was built
  from that tree.
\<close>

theorem dch_failure_is_advisory:
  assumes args: "3 \<le> length (argv e)" "euid e = 0"
    and extracted: "extract_deb e (abspath (cwd w) (argv e ! 1))
        (w\<lparr>cwd := abspath (cwd w) (path_join (mkdtemp e) ''package''), staged := Map.empty,
           package_deb := None\<rparr>) = Ok () w2"
    and control: "read_text ''DEBIAN/control'' w2 = Ok control_text w2"
    and name: "filter package_line (split_on nl control_text) = l # ls"
    and version: "pattern_sub VERSION_RE (''Version: '' @ argv e ! 2) control_text = Inr control_text'"
    and first: "[''changelog.gz'', ''changelog.Debian.gz''] = skipped @ item # rest"
      "\<forall>i \<in> set skipped. \<not> is_regular (staged w2) (''usr/share/doc/'' @ drop 9 l @ ''/'' @ i)"
    and changelog: "staged w2 (''usr/share/doc/'' @ drop 9 l @ ''/'' @ item) = Some (File gz)"
    and fresh: "staged w2 ''debian'' = None" "staged w2 ''debian/changelog'' \<noteq> Some Dir"
    and unpacked: "gunzip e gz = Some c"
    and failed: "dch e (argv e ! 2) c = (status, c')" "status \<noteq> 0"
    and repacked: "\<forall>w3. change_version e (argv e ! 2) w2 = Ok () w3
                     \<longrightarrow> (\<exists>w4. repack e (abspath (cwd w) (argv e ! 1)) w3 = Ok () w4)"
  shows "\<exists>w3 w'. change_version e (argv e ! 2) w2 = Ok () w3
     \<and> staged w3 (''usr/share/doc/'' @ drop 9 l @ ''/'' @ item) = Some (File gz)
     \<and> main e w = (Exit 0, w')
     \<and> stdout w' = stdout w @
          [''WARNING: Failed to update changelog file: ''
           @ str_exc e [''dch'', ''-v'', argv e ! 2, ''--'', ''Bumped version during deb synchronization.''] status
           @ [CHR 0x0A] @ ''Leaving the changelog file unchanged.'']
     \<and> (\<exists>q. fs w' = (fs w)(q \<mapsto> Regular (snd (dpkg_build e (staged w3)))))"
proof -
  let ?v = "argv e ! 2"
  let ?d = "abspath (cwd w) (argv e ! 1)"
  let ?w1 = "w\<lparr>cwd := abspath (cwd w) (path_join (mkdtemp e) ''package''), staged := Map.empty,
           package_deb := None\<rparr>"
  let ?name = "drop 9 l"
  let ?p = "''usr/share/doc/'' @ ?name @ ''/'' @ item"
  let ?cmd = "[''dch'', ''-v'', ?v, ''--'', ''Bumped version during deb synchronization.'']"
  let ?warning = "''WARNING: Failed to update changelog file: '' @ str_exc e ?cmd status
           @ [CHR 0x0A] @ ''Leaving the changelog file unchanged.''"
  let ?w2p = "w2\<lparr>probed := probed w2 @ map (\<lambda>i. ''usr/share/doc/'' @ ?name @ ''/'' @ i) (skipped @ [item])\<rparr>"
  let ?wu = "?w2p\<lparr>staged := (staged w2)(''debian'' \<mapsto> Dir, ''debian/changelog'' \<mapsto> File c')\<rparr>"
  let ?t = "\<lambda>q. if q = ''debian'' \<or> prefix (''debian'' @ ''/'') q then None
                else ((staged w2)(''debian'' \<mapsto> Dir, ''debian/changelog'' \<mapsto> File c',
                                   ''DEBIAN/control'' \<mapsto> File (utf8_encode control_text'))) q"
  let ?w3 = "?wu\<lparr>stdout := stdout w2 @ [?warning], staged := ?t\<rparr>"
  have reg: "is_regular (staged w2) ?p" using changelog by (simp add: is_regular_def)
  have upd: "update_changelog_file e ?p ?v ?w2p = Raise (CalledProcessError ?cmd status) ?wu"
    using update_changelog_file_dch_fails [of ?w2p ?p gz e c ?v status c']
      fresh changelog unpacked failed by simp
  have loop: "changelog_loop e ?name ?v [''changelog.gz'', ''changelog.Debian.gz''] w2 =
      Ok () (print ?warning ?wu)"
    unfolding first(1) changelog_loop_first [OF first(2) reg] upd by simp
  let ?wp = "print ?warning ?wu"
  let ?wc = "?wp\<lparr>staged := (staged ?wp)(''DEBIAN/control'' \<mapsto> File (utf8_encode control_text'))\<rparr>"
  from read_text_Ok [OF control] obtain bytes where
    cf: "staged w2 ''DEBIAN/control'' = Some (File bytes)" by blast
  have wr: "write_text ''DEBIAN/control'' control_text' ?wp = Ok () ?wc"
    using cf by (simp add: write_text_def write_bytes_def print_def)
  have "staged ?wc ''debian'' = Some Dir" by (simp add: print_def)
  then have "rmtree ''debian'' ?wc =
      Ok () (?wc\<lparr>staged := (\<lambda>q. if q = ''debian'' \<or> prefix (''debian'' @ ''/'') q then None
                                  else staged ?wc q)\<rparr>)"
    by (simp only: rmtree_def option.case node.case)
  also have "(\<lambda>q. if q = ''debian'' \<or> prefix (''debian'' @ ''/'') q then None else staged ?wc q) = ?t"
    by (rule ext) (simp add: print_def)
  also have "?wc\<lparr>staged := ?t\<rparr> = ?w3" by (simp add: print_def)
  finally have rm: "rmtree ''debian'' ?wc = Ok () ?w3" .
  have g: "(case map_of [(1, ?name)] (1::nat) of None \<Rightarrow> ''None'' | Some n \<Rightarrow> n) = ?name"
    by simp
  have cv0: "change_version e ?v w2 = Ok () ?w3"
    by (simp only: change_version_def bind_def control result.case package_name_found [OF name]
          option.case Let_def g version sum.case loop wr rm)
  have tp0: "staged ?w3 ?p = Some (File gz)" using changelog by simp
  have so0: "stdout ?w3 = stdout w2 @ [?warning]" by simp
  have fo0: "fs ?w3 = fs w2" by simp
  obtain w3 where cv: "change_version e ?v w2 = Ok () w3"
    and tp: "staged w3 ?p = Some (File gz)"
    and so: "stdout w3 = stdout w2 @ [?warning]"
    and fo: "fs w3 = fs w2"
    by (rule that [OF cv0 tp0 so0 fo0])
  from repacked [rule_format, OF cv] obtain w4 where rp: "repack e ?d w3 = Ok () w4" ..
  from repack_Ok_world [OF rp] obtain q where
    w4: "w4 = w3\<lparr>cwd := abspath (cwd w3) ''..'',
                   fs := (fs w3)(q \<mapsto> Regular (snd (dpkg_build e (staged w3)))),
                   package_deb := None\<rparr>" ..
  have st: "staging e ?d ?v ?w1 = Ok () w4"
    by (simp only: staging_def bind_def extracted cv rp result.case)
  have m: "main e w = (Exit 0, leave (cwd w) w4)"
    by (simp only: main_run [OF args] st result.case)
  have "stdout w2 = stdout w"
    using stdout_extract_deb [of e ?d ?w1] extracted by simp
  then have s: "stdout (leave (cwd w) w4) = stdout w @ [?warning]"
    by (simp add: leave_def w4 so)
  have "fs w2 = fs w"
    using fs_extract_deb [of e ?d ?w1] extracted by simp
  then have "fs (leave (cwd w) w4) = (fs w)(q \<mapsto> Regular (snd (dpkg_build e (staged w3))))"
    by (simp add: leave_def w4 fo)
  then have f: "\<exists>q. fs (leave (cwd w) w4) = (fs w)(q \<mapsto> Regular (snd (dpkg_build e (staged w3))))" ..
  show ?thesis
    by (rule exI [of _ w3], rule exI [of _ "leave (cwd w) w4"]) (intro conjI cv tp m s f)
qed

theorem dch_failure_is_advisory_witness:
  "fst (main (package_env ''foo''\<lparr>dch := (\<lambda>v c. (1, c))\<rparr>) example_world) = Exit 0
   \<and> stdout (snd (main (package_env ''foo''\<lparr>dch := (\<lambda>v c. (1, c))\<rparr>) example_world)) =
       [''WARNING: Failed to update changelog file: Command dch returned non-zero exit status\<newline>Leaving the changelog file unchanged.'']"
proof -
  let ?e = "package_env ''foo''\<lparr>dch := (\<lambda>v c. (1, c))\<rparr>"
  let ?d = "abspath (cwd example_world) (argv ?e ! 1)"
  let ?w1 = "example_world\<lparr>cwd := abspath (cwd example_world) (path_join (mkdtemp ?e) ''package''),
                staged := Map.empty, package_deb := None\<rparr>"
  let ?w2 = "?w1\<lparr>staged := package_payload ''foo'' ++ package_control ''foo''\<rparr>"
  have a: "3 \<le> length (argv ?e)" "euid ?e = 0" by (simp_all add: package_env_def)
  have x: "extract_deb ?e ?d ?w1 = Ok () ?w2"
    by (rule extract_deb_Ok) (simp_all add: read_archive_def example_paths package_env_def)
  have c: "read_text ''DEBIAN/control'' ?w2 = Ok ''Package: foo\<newline>Version: 1.0\<newline>'' ?w2"
    by (simp add: read_text_def package_control_def text_defs)
  have n: "filter package_line (split_on nl ''Package: foo\<newline>Version: 1.0\<newline>'') = ''Package: foo'' # []"
    by (simp add: package_line_def)
  have v: "pattern_sub VERSION_RE (''Version: '' @ argv ?e ! 2) ''Package: foo\<newline>Version: 1.0\<newline>''
      = Inr ''Package: foo\<newline>Version: 2.0\<newline>''"
    by (simp add: re_defs package_env_def)
  have f: "[''changelog.gz'', ''changelog.Debian.gz''] = [] @ ''changelog.gz'' # [''changelog.Debian.gz'']"
    by simp
  have s: "\<forall>i \<in> set []. \<not> is_regular (staged ?w2) (''usr/share/doc/'' @ drop 9 ''Package: foo'' @ ''/'' @ i)"
    by simp
  have g: "staged ?w2 (''usr/share/doc/'' @ drop 9 ''Package: foo'' @ ''/'' @ ''changelog.gz'')
      = Some (File ''gz:first release'')"
    by (simp add: package_control_def package_payload_def)
  have d: "staged ?w2 ''debian'' = None" "staged ?w2 ''debian/changelog'' \<noteq> Some Dir"
    by (simp_all add: package_control_def package_payload_def)
  have u: "gunzip ?e ''gz:first release'' = Some ''first release''" by (simp add: package_env_def)
  have h: "dch ?e (argv ?e ! 2) ''first release'' = (1, ''first release'')" "(1::int) \<noteq> 0"
    by (simp_all add: package_env_def)
  have b: "\<forall>w3. change_version ?e (argv ?e ! 2) ?w2 = Ok () w3 \<longrightarrow> (\<exists>w4. repack ?e ?d w3 = Ok () w4)"
  proof (intro allI impI)
    fix w3
    assume cv: "change_version ?e (argv ?e ! 2) ?w2 = Ok () w3"
    with fs_change_version [of ?e "argv ?e ! 2" ?w2] have f3: "fs w3 = fs example_world" by simp
    obtain deb where bd: "dpkg_build ?e (staged w3) = (0, deb)" by (simp add: package_env_def)
    have i: "isabs ?d" by (simp add: example_paths package_env_def isabs_def starts_def)
    have r: "os_resolve (fs w3) False [] ?d = Some [''home'', ''user'', ''foo.deb'']"
      by (simp add: f3 example_paths package_env_def)
    have o: "fs w3 [''home'', ''user'', ''foo.deb''] = Some (Regular ''deb 1.0'')"
      by (simp add: f3 example_paths)
    have k: "[''home'', ''user'', ''foo.deb''] \<noteq> []" by simp
    have "shutil_move ?e [''home'', ''user'', ''foo.deb''] deb = Renamed"
      by (simp add: package_env_def)
    with repack_regular [OF i r o k bd] show "\<exists>w4. repack ?e ?d w3 = Ok () w4"
      by simp
  qed
  from dch_failure_is_advisory [OF a x c n v f s g d u h b]
  obtain w' where "main ?e example_world = (Exit 0, w')"
    and "stdout w' = stdout example_world @
          [''WARNING: Failed to update changelog file: ''
           @ str_exc ?e [''dch'', ''-v'', argv ?e ! 2, ''--'', ''Bumped version during deb synchronization.''] 1
           @ [CHR 0x0A] @ ''Leaving the changelog file unchanged.'']"
    by (elim exE conjE)
  then show ?thesis by (simp add: package_env_def example_world_def)
qed


subsection \<open>The checksum manifest\<close>

text \<open>
  Claim C1 on a manifest with the one line for the changelog, checksum and path
  separated by two spaces: \<^verbatim>\<open>_update_changelog_file\<close> writes the new digest, but
  between digest and path it writes the character with code 1 and not the two spaces.
  The pattern captures the run of spaces as group 1; the replacement, an f-string that
  is not raw, does not refer to it.
\<close>

theorem md5sums_separator_replaced:
  "update_md5sums (package_env ''foo'') ''usr/share/doc/foo/changelog.gz''
     (example_world\<lparr>staged :=
        [''usr/share/doc/foo/changelog.gz'' \<mapsto> File ''gz:bumped to 2.0; first release'',
         ''DEBIAN/md5sums'' \<mapsto> File ''e4d909c290d0fb1ca068ffaddf22cbd0  usr/share/doc/foo/changelog.gz\<newline>'']\<rparr>)
   = Ok ()
     (example_world\<lparr>staged :=
        [''usr/share/doc/foo/changelog.gz'' \<mapsto> File ''gz:bumped to 2.0; first release'',
         ''DEBIAN/md5sums'' \<mapsto> File (''0cc175b9c0f1b6a831c399e269772661'' @ [CHR 0x01]
                                      @ ''usr/share/doc/foo/changelog.gz\<newline>'')]\<rparr>)"
  by (simp add: update_md5sums_def bind_def read_bytes_def write_bytes_def read_text_def
        write_text_def Let_def text_defs re_defs package_env_def example_world_def)


text \<open>
  Claim C10. The changelog path goes into the pattern as it is. For the package
  \<^verbatim>\<open>g++\<close> the pattern reads \<^verbatim>\<open>g++\<close> as a possessive quantifier on \<^verbatim>\<open>g\<close>: the
  line of the manifest with exactly this path is not found, so the changelog is
  rewritten and its checksum line stays as it was. For the package \<^verbatim>\<open>a+++\<close> the
  pattern does not compile: \<^verbatim>\<open>re.sub\<close> raises ``multiple repeat'', which is no
  \<^verbatim>\<open>CalledProcessError\<close>, and the run ends with it. Both names are made of the
  characters that Debian allows in a package name.
\<close>

theorem path_read_as_pattern:
  "(case update_changelog_file (package_env ''g++'') ''usr/share/doc/g++/changelog.gz'' ''2.0''
           (staged_package ''g++'') of
      Ok u w \<Rightarrow>
        staged w ''usr/share/doc/g++/changelog.gz'' = Some (File ''gz:bumped to 2.0; first release'')
        \<and> staged w ''DEBIAN/md5sums'' =
            Some (File (''9e107d9d372bb6826bd81d3542a419d6  usr/bin/tool\<newline>''
               @ ''e4d909c290d0fb1ca068ffaddf22cbd0  usr/share/doc/g++/changelog.gz\<newline>''))
    | Raise err w \<Rightarrow> False)
   \<and> fst (main (package_env ''a+++'') example_world) = Uncaught (ReError ''multiple repeat'')"
proof -
  let ?e = "package_env ''a+++''"
  let ?w1 = "example_world\<lparr>cwd := ''/tmp/tmpk3x9/package'', staged := Map.empty, package_deb := None\<rparr>"
  let ?w2 = "?w1\<lparr>staged := package_payload ''a+++'' ++ package_control ''a+++''\<rparr>"
  have g: "(case update_changelog_file (package_env ''g++'') ''usr/share/doc/g++/changelog.gz'' ''2.0''
           (staged_package ''g++'') of
      Ok u w \<Rightarrow>
        staged w ''usr/share/doc/g++/changelog.gz'' = Some (File ''gz:bumped to 2.0; first release'')
        \<and> staged w ''DEBIAN/md5sums'' =
            Some (File (''9e107d9d372bb6826bd81d3542a419d6  usr/bin/tool\<newline>''
               @ ''e4d909c290d0fb1ca068ffaddf22cbd0  usr/share/doc/g++/changelog.gz\<newline>''))
    | Raise err w \<Rightarrow> False)"
    by (simp add: update_changelog_file_def add_changelog_entry_def run_dch_def update_md5sums_def
          bind_def check_call_def read_bytes_def write_bytes_def read_text_def write_text_def
          mkdir_def Let_def text_defs re_defs example_defs)
  have a: "3 \<le> length (argv ?e)" "euid ?e = 0" by (simp_all add: package_env_def)
  have x: "extract_deb ?e ''/home/user/foo.deb'' ?w1 = Ok () ?w2"
    by (rule extract_deb_Ok) (simp_all add: read_archive_def example_paths package_env_def)
  have "\<exists>w3. change_version ?e ''2.0'' ?w2 = Raise (ReError ''multiple repeat'') w3"
    by (simp add: change_version_def changelog_loop.simps update_changelog_file_def
          add_changelog_entry_def run_dch_def update_md5sums_def bind_def check_call_def isfile_def
          is_regular_def read_bytes_def write_bytes_def read_text_def write_text_def mkdir_def
          print_def Let_def text_defs re_defs package_env_def package_payload_def
          package_control_def)
  then obtain w3 where "change_version ?e ''2.0'' ?w2 = Raise (ReError ''multiple repeat'') w3" ..
  from staging_change_version_fails [OF x this]
  have "staging ?e ''/home/user/foo.deb'' ''2.0'' ?w1 = Raise (ReError ''multiple repeat'') w3" .
  then have m: "fst (main ?e example_world) = Uncaught (ReError ''multiple repeat'')"
    unfolding main_run [OF a] by (simp add: example_paths package_env_def)
  from g m show ?thesis by (rule conjI)
qed

subsection \<open>The archive file\<close>

text \<open>
  Claim C5, as amended. Nothing before the final move writes outside the temporary
  directory. Whenever \<^verbatim>\<open>main\<close> does not end with exit status 0, by an exception that
  a step raised and nothing caught or by the exit with status 77, every file outside the
  temporary directory, the archive among them, is exactly as it was, with one exception:
  the error is the one with which the final move itself has failed after it had begun to
  copy, and then one file holds the bytes that the failed copy has left. After a
  successful run the file system differs from before in one place at most, and that
  place holds the archive that \<^verbatim>\<open>dpkg-deb -b\<close> built.
\<close>

theorem archive_untouched_before_the_move:
  assumes "main e w = (out, w')"
  shows "(out \<noteq> Exit 0 \<longrightarrow>
            fs w' = fs w
            \<or> (\<exists>name deb err s target.
                  shutil_move e name deb = MoveFailed err (Some s)
                  \<and> out = Uncaught err \<and> fs w' = (fs w)(target \<mapsto> Regular s)))
       \<and> (out = Exit 0 \<longrightarrow> (\<exists>q t. fs w' = (fs w)(q \<mapsto> Regular (snd (dpkg_build e t)))))"
proof (cases "3 \<le> length (argv e) \<and> euid e = 0")
  case False
  with assms show ?thesis
    by (auto simp: main_def Let_def print_def split: if_splits)
next
  case True
  let ?w1 = "w\<lparr>cwd := abspath (cwd w) (path_join (mkdtemp e) ''package''),
                staged := Map.empty, package_deb := None\<rparr>"
  let ?d = "abspath (cwd w) (argv e ! 1)"
  from True have m: "main e w =
     (case staging e ?d (argv e ! 2) ?w1 of
        Raise err w' \<Rightarrow> (Uncaught err, leave (cwd w) w')
      | Ok u w' \<Rightarrow> (Exit 0, leave (cwd w) w'))"
    by (simp add: main_run)
  show ?thesis
  proof (cases "staging e ?d (argv e ! 2) ?w1")
    case (Raise err w2)
    with assms have o: "out = Uncaught err" and w': "w' = leave (cwd w) w2"
      unfolding m by simp_all
    from staging_Raise [OF Raise] show ?thesis
    proof (elim disjE exE conjE)
      assume "fs w2 = fs ?w1"
      with o w' show ?thesis by (simp add: leave_def)
    next
      fix name deb s target
      assume "shutil_move e name deb = MoveFailed err (Some s)"
        and "fs w2 = (fs ?w1)(target \<mapsto> Regular s)"
      with o w' have "shutil_move e name deb = MoveFailed err (Some s)
           \<and> out = Uncaught err \<and> fs w' = (fs w)(target \<mapsto> Regular s)"
        by (simp add: leave_def)
      then show ?thesis by blast
    qed
  next
    case (Ok u w2)
    with assms have o: "out = Exit 0" and w': "w' = leave (cwd w) w2"
      unfolding m by simp_all
    from Ok have "staging e ?d (argv e ! 2) ?w1 = Ok u w2" .
    from staging_Ok_fs [OF this]
    have "\<exists>q t. fs w' = (fs w)(q \<mapsto> Regular (snd (dpkg_build e t)))"
    proof (elim exE conjE)
      fix w3 q
      assume "fs w2 = (fs ?w1)(q \<mapsto> Regular (snd (dpkg_build e (staged w3))))"
      with w' have "fs w' = (fs w)(q \<mapsto> Regular (snd (dpkg_build e (staged w3))))"
        by (simp add: leave_def)
      then show ?thesis by (intro exI)
    qed
    with o show ?thesis by simp
  qed
qed

text \<open>A run in which \<^verbatim>\<open>dpkg-deb -b\<close> fails.\<close>

theorem archive_untouched_before_the_move_witness:
  "fst (main (package_env ''foo''\<lparr>dpkg_build := (\<lambda>t. (2, []))\<rparr>) example_world)
     = Uncaught (CalledProcessError [''dpkg-deb'', ''-b'', ''package''] 2)
   \<and> fs (snd (main (package_env ''foo''\<lparr>dpkg_build := (\<lambda>t. (2, []))\<rparr>) example_world))
     = fs example_world"
proof -
  let ?e = "package_env ''foo''\<lparr>dpkg_build := (\<lambda>t. (2, []))\<rparr>"
  let ?w1 = "example_world\<lparr>cwd := ''/tmp/tmpk3x9/package'', staged := Map.empty, package_deb := None\<rparr>"
  let ?w2 = "?w1\<lparr>staged := package_payload ''foo'' ++ package_control ''foo''\<rparr>"
  have a: "3 \<le> length (argv ?e)" "euid ?e = 0" by (simp_all add: package_env_def)
  have x: "extract_deb ?e ''/home/user/foo.deb'' ?w1 = Ok () ?w2"
    by (rule extract_deb_Ok) (simp_all add: read_archive_def example_paths package_env_def)
  from example_change_version [of ?e ?w2] obtain w3 where
    c: "change_version ?e ''2.0'' ?w2 = Ok () w3"
    by (auto simp: package_env_def)
  have "dpkg_build ?e (staged w3) = (2, [])" by simp
  from repack_build_fails [OF this]
  have "repack ?e ''/home/user/foo.deb'' w3 =
      Raise (CalledProcessError [''dpkg-deb'', ''-b'', ''package''] 2)
        (w3\<lparr>cwd := abspath (cwd w3) ''..'', package_deb := Some []\<rparr>)"
    by simp
  with staging_steps [OF x c]
  have "staging ?e ''/home/user/foo.deb'' ''2.0'' ?w1 =
      Raise (CalledProcessError [''dpkg-deb'', ''-b'', ''package''] 2)
        (w3\<lparr>cwd := abspath (cwd w3) ''..'', package_deb := Some []\<rparr>)"
    by simp
  then have out: "fst (main ?e example_world)
      = Uncaught (CalledProcessError [''dpkg-deb'', ''-b'', ''package''] 2)"
    unfolding main_run [OF a] by (simp add: example_paths package_env_def)
  have "shutil_move ?e name deb \<noteq> MoveFailed err (Some s)" for name deb err s
    by (simp add: package_env_def)
  with archive_untouched_before_the_move [OF surjective_pairing, of ?e example_world] out
  show ?thesis by auto
qed

text \<open>
  The claim as stated, every failure path, fails for the failure of the move itself. When
  the temporary directory is on another file system than the archive, the move is a copy
  over the archive; a copy that fails for lack of space after it has opened the archive
  for writing ends the run with the error and leaves the archive empty.
\<close>

theorem move_failure_truncates_the_archive:
  "fst (main (package_env ''foo''
          \<lparr>shutil_move := (\<lambda>name deb. MoveFailed (OSError ''[Errno 28] No space left on device'')
                                         (Some []))\<rparr>) example_world)
     = Uncaught (OSError ''[Errno 28] No space left on device'')
   \<and> fs example_world [''home'', ''user'', ''foo.deb''] = Some (Regular ''deb 1.0'')
   \<and> fs (snd (main (package_env ''foo''
          \<lparr>shutil_move := (\<lambda>name deb. MoveFailed (OSError ''[Errno 28] No space left on device'')
                                         (Some []))\<rparr>) example_world))
        [''home'', ''user'', ''foo.deb'']
     = Some (Regular [])"
proof -
  let ?e = "package_env ''foo''
          \<lparr>shutil_move := (\<lambda>name deb. MoveFailed (OSError ''[Errno 28] No space left on device'')
                                         (Some []))\<rparr>"
  let ?w1 = "example_world\<lparr>cwd := ''/tmp/tmpk3x9/package'', staged := Map.empty, package_deb := None\<rparr>"
  let ?w2 = "?w1\<lparr>staged := package_payload ''foo'' ++ package_control ''foo''\<rparr>"
  let ?q = "[''home'', ''user'', ''foo.deb'']"
  have a: "3 \<le> length (argv ?e)" "euid ?e = 0" by (simp_all add: package_env_def)
  have x: "extract_deb ?e ''/home/user/foo.deb'' ?w1 = Ok () ?w2"
    by (rule extract_deb_Ok) (simp_all add: read_archive_def example_paths package_env_def)
  from example_change_version [of ?e ?w2] obtain w3 where
    c: "change_version ?e ''2.0'' ?w2 = Ok () w3" and f3: "fs w3 = fs example_world"
    by (auto simp: package_env_def)
  obtain deb where b: "dpkg_build ?e (staged w3) = (0, deb)" by (simp add: package_env_def)
  have i: "isabs ''/home/user/foo.deb''" by (simp add: isabs_def starts_def)
  have r: "os_resolve (fs w3) False [] ''/home/user/foo.deb'' = Some ?q"
    by (simp add: f3 example_paths)
  have o: "fs w3 ?q = Some (Regular ''deb 1.0'')" by (simp add: f3 example_paths)
  have k: "?q \<noteq> []" by simp
  have "shutil_move ?e ?q deb = MoveFailed (OSError ''[Errno 28] No space left on device'') (Some [])"
    by simp
  with repack_regular [OF i r o k b]
  have "repack ?e ''/home/user/foo.deb'' w3 =
      Raise (OSError ''[Errno 28] No space left on device'')
        (w3\<lparr>cwd := abspath (cwd w3) ''..'', fs := (fs w3)(?q \<mapsto> Regular []),
             package_deb := Some deb\<rparr>)"
    by simp
  with staging_steps [OF x c]
  have "staging ?e ''/home/user/foo.deb'' ''2.0'' ?w1 =
      Raise (OSError ''[Errno 28] No space left on device'')
        (w3\<lparr>cwd := abspath (cwd w3) ''..'', fs := (fs w3)(?q \<mapsto> Regular []),
             package_deb := Some deb\<rparr>)"
    by simp
  then have m: "main ?e example_world =
      (Uncaught (OSError ''[Errno 28] No space left on device''),
       leave (cwd example_world)
         (w3\<lparr>cwd := abspath (cwd w3) ''..'', fs := (fs w3)(?q \<mapsto> Regular []),
              package_deb := Some deb\<rparr>))"
    unfolding main_run [OF a] by (simp add: example_paths package_env_def)
  show ?thesis by (simp add: m leave_def example_paths)
qed

text \<open>
  Claim C9, as amended. The path of the archive is made absolute against the working
  directory the caller started the tool in, before the program changes into the staging
  tree and from there to its parent, and an absolute path leads to the same place from
  every directory. The absolute path is made from the text of the path alone. So let the
  path of the caller, resolved by the operating system from the caller's directory,
  name a regular file, and let its absolute normal form name the same file: then a
  successful run replaces that file and nothing else. The absolute normal form names the
  same file for every relative path of plain names (lemma \<open>plain_relative_path\<close>).
\<close>

theorem replaces_the_named_file:
  assumes "isabs (cwd w)"
    and "os_resolve (fs w) False (cwd w) (argv e ! 1) = Some q"
    and "fs w q = Some (Regular old)" and "q \<noteq> []"
    and "os_resolve (fs w) False (cwd w) (abspath (cwd w) (argv e ! 1)) = Some q"
    and "main e w = (Exit 0, w')"
  shows "\<exists>w3 :: world. fs w' = (fs w)(q \<mapsto> Regular (snd (dpkg_build e (staged w3))))"
proof -
  let ?w1 = "w\<lparr>cwd := abspath (cwd w) (path_join (mkdtemp e) ''package''),
                staged := Map.empty, package_deb := None\<rparr>"
  let ?d = "abspath (cwd w) (argv e ! 1)"
  from main_Exit_0 [OF assms(6)] obtain w4 where
    st: "staging e ?d (argv e ! 2) ?w1 = Ok () w4" and w': "w' = leave (cwd w) w4" by blast
  from staging_Ok [OF st] obtain w2 w3 where x: "extract_deb e ?d ?w1 = Ok () w2"
    and c: "change_version e (argv e ! 2) w2 = Ok () w3" and r: "repack e ?d w3 = Ok () w4"
    by blast
  from fs_extract_deb [of e ?d ?w1] x have "fs w2 = fs w" by simp
  with fs_change_version [of e "argv e ! 2" w2] c have f3: "fs w3 = fs w" by simp
  from repack_Ok [OF r] have b: "dpkg_build e (staged w3) = (0, snd (dpkg_build e (staged w3)))"
    by (simp add: prod_eq_iff)
  have i: "isabs ?d" using assms(1) by (rule isabs_abspath)
  have n: "os_resolve (fs w3) False (cwd w) ?d = Some q" using assms(5) f3 by simp
  have o: "fs w3 q = Some (Regular old)" using assms(3) f3 by simp
  from r have "fs w4 = (fs w3)(q \<mapsto> Regular (snd (dpkg_build e (staged w3))))"
    unfolding repack_regular [OF i n o assms(4) b]
    by (auto split: move_outcome.splits option.splits)
  with f3 w' have "fs w' = (fs w)(q \<mapsto> Regular (snd (dpkg_build e (staged w3))))"
    by (simp add: leave_def)
  then show ?thesis by (intro exI)
qed

theorem replaces_the_named_file_witness:
  "isabs (cwd example_world)
   \<and> os_resolve (fs example_world) False (cwd example_world) (argv (package_env ''foo'') ! 1)
       = Some [''home'', ''user'', ''foo.deb'']
   \<and> os_resolve (fs example_world) False (cwd example_world)
        (abspath (cwd example_world) (argv (package_env ''foo'') ! 1))
       = Some [''home'', ''user'', ''foo.deb'']
   \<and> (\<exists>w3 :: world. fs (snd (main (package_env ''foo'') example_world)) =
         (fs example_world)([''home'', ''user'', ''foo.deb'']
            \<mapsto> Regular (snd (dpkg_build (package_env ''foo'') (staged w3)))))"
proof -
  let ?e = "package_env ''foo''"
  let ?q = "[''home'', ''user'', ''foo.deb'']"
  have c: "isabs (cwd example_world)" by (simp add: example_world_def isabs_def starts_def)
  have n: "os_resolve (fs example_world) False (cwd example_world) (argv ?e ! 1) = Some ?q"
    by (simp add: os_resolve_def names_def is_dir_def starts_def example_world_def package_env_def)
  have o: "fs example_world ?q = Some (Regular ''deb 1.0'')" by (simp add: example_paths)
  have k: "?q \<noteq> []" by simp
  have l: "os_resolve (fs example_world) False (cwd example_world)
        (abspath (cwd example_world) (argv ?e ! 1)) = Some ?q"
    by (simp add: example_paths package_env_def)
  have m: "main ?e example_world = (Exit 0, snd (main ?e example_world))"
    by (simp add: example_run)
  from c n l replaces_the_named_file [OF c n o k l m] show ?thesis by (intro conjI)
qed

text \<open>
  The claim as stated, every relative path, fails when the path has a symbolic link
  before \<^verbatim>\<open>..\<close>. In the caller's directory \<^verbatim>\<open>/home/user\<close> the path
  \<^verbatim>\<open>latest/../foo.deb\<close> names \<^verbatim>\<open>/srv/debs/foo.deb\<close>, since \<^verbatim>\<open>latest\<close> is a link
  to \<^verbatim>\<open>/srv/debs/v1\<close>. The program makes \<^verbatim>\<open>/home/user/foo.deb\<close> of the path: the
  run succeeds, the file the caller named is as it was, and another file has been
  replaced.
\<close>

theorem link_before_dotdot_names_another_file:
  "os_resolve (fs linked_world) False (cwd linked_world) ''latest/../foo.deb''
     = Some [''srv'', ''debs'', ''foo.deb'']
   \<and> fs linked_world [''srv'', ''debs'', ''foo.deb''] = Some (Regular ''deb 0.9'')
   \<and> fst (main (package_env ''foo''\<lparr>argv := [''deb-reversion'', ''latest/../foo.deb'', ''2.0'']\<rparr>)
             linked_world) = Exit 0
   \<and> fs (snd (main (package_env ''foo''\<lparr>argv := [''deb-reversion'', ''latest/../foo.deb'', ''2.0'']\<rparr>)
                 linked_world)) [''srv'', ''debs'', ''foo.deb'']
       = Some (Regular ''deb 0.9'')
   \<and> fs (snd (main (package_env ''foo''\<lparr>argv := [''deb-reversion'', ''latest/../foo.deb'', ''2.0'']\<rparr>)
                 linked_world)) [''home'', ''user'', ''foo.deb'']
       = Some (Regular ''deb with Package: foo\<newline>Version: 2.0\<newline>'')"
proof -
  let ?e = "package_env ''foo''\<lparr>argv := [''deb-reversion'', ''latest/../foo.deb'', ''2.0'']\<rparr>"
  let ?w1 = "linked_world\<lparr>cwd := ''/tmp/tmpk3x9/package'', staged := Map.empty, package_deb := None\<rparr>"
  let ?w2 = "?w1\<lparr>staged := package_payload ''foo'' ++ package_control ''foo''\<rparr>"
  let ?q = "[''home'', ''user'', ''foo.deb'']"
  have a: "3 \<le> length (argv ?e)" "euid ?e = 0" by (simp_all add: package_env_def)
  have p: "abspath (cwd linked_world) ''latest/../foo.deb'' = ''/home/user/foo.deb''"
    "abspath (cwd linked_world) (path_join ''/tmp/tmpk3x9'' ''package'') = ''/tmp/tmpk3x9/package''"
    by (simp_all add: path_defs linked_world_def example_world_def)
  have r: "os_resolve (fs linked_world) follow dir ''/home/user/foo.deb'' = Some ?q" for follow dir
    by (simp add: os_resolve_def is_dir_def starts_def linked_world_def example_world_def)
  have o: "fs linked_world ?q = Some (Regular ''deb 1.0'')"
    by (simp add: linked_world_def example_world_def)
  have s: "os_resolve (fs linked_world) False (cwd linked_world) ''latest/../foo.deb''
     = Some [''srv'', ''debs'', ''foo.deb'']"
    by (simp add: os_resolve_def names_def is_dir_def starts_def linked_world_def example_world_def)
  have t: "fs linked_world [''srv'', ''debs'', ''foo.deb''] = Some (Regular ''deb 0.9'')"
    by (simp add: linked_world_def example_world_def)
  have x: "extract_deb ?e ''/home/user/foo.deb'' ?w1 = Ok () ?w2"
    by (rule extract_deb_Ok) (simp_all add: read_archive_def r o package_env_def)
  from example_change_version [of ?e ?w2] obtain w3 where
    c: "change_version ?e ''2.0'' ?w2 = Ok () w3"
    and d: "staged w3 ''DEBIAN/control'' = Some (File ''Package: foo\<newline>Version: 2.0\<newline>'')"
    and f3: "fs w3 = fs linked_world"
    by (auto simp: package_env_def)
  have b: "dpkg_build ?e (staged w3) = (0, ''deb with Package: foo\<newline>Version: 2.0\<newline>'')"
    by (simp add: package_env_def d)
  have i: "isabs ''/home/user/foo.deb''" by (simp add: isabs_def starts_def)
  have r3: "os_resolve (fs w3) False [] ''/home/user/foo.deb'' = Some ?q" by (simp add: f3 r)
  have o3: "fs w3 ?q = Some (Regular ''deb 1.0'')" by (simp add: f3 o)
  have k: "?q \<noteq> []" by simp
  have "shutil_move ?e ?q ''deb with Package: foo\<newline>Version: 2.0\<newline>'' = Renamed"
    by (simp add: package_env_def)
  with repack_regular [OF i r3 o3 k b]
  have "repack ?e ''/home/user/foo.deb'' w3 =
      Ok () (w3\<lparr>cwd := abspath (cwd w3) ''..'',
                 fs := (fs w3)(?q \<mapsto> Regular ''deb with Package: foo\<newline>Version: 2.0\<newline>''),
                 package_deb := None\<rparr>)"
    by simp
  with staging_steps [OF x c]
  have "staging ?e ''/home/user/foo.deb'' ''2.0'' ?w1 =
      Ok () (w3\<lparr>cwd := abspath (cwd w3) ''..'',
                 fs := (fs w3)(?q \<mapsto> Regular ''deb with Package: foo\<newline>Version: 2.0\<newline>''),
                 package_deb := None\<rparr>)"
    by simp
  then have m: "main ?e linked_world =
      (Exit 0, leave (cwd linked_world)
         (w3\<lparr>cwd := abspath (cwd w3) ''..'',
              fs := (fs w3)(?q \<mapsto> Regular ''deb with Package: foo\<newline>Version: 2.0\<newline>''),
              package_deb := None\<rparr>))"
    unfolding main_run [OF a] by (simp add: p package_env_def)
  have u: "fst (main ?e linked_world) = Exit 0" by (simp add: m)
  have v: "fs (snd (main ?e linked_world)) [''srv'', ''debs'', ''foo.deb''] = Some (Regular ''deb 0.9'')"
    by (simp add: m leave_def f3 t)
  have w: "fs (snd (main ?e linked_world)) ?q
      = Some (Regular ''deb with Package: foo\<newline>Version: 2.0\<newline>'')"
    by (simp add: m leave_def)
  from s t u v w show ?thesis by (intro conjI)
qed

subsection \<open>The privilege check\<close>

text \<open>
  Claim C4, as amended. When both command-line arguments are present and the effective
  user id is not 0, \<^verbatim>\<open>main\<close> prints the remediation message to standard output and
  exits with status 77, whatever the two arguments are; nothing else of the world
  changes: no file, no staging tree, no working directory.
\<close>

theorem unprivileged_run_exits_77:
  assumes "3 \<le> length (argv e)" and "euid e \<noteq> 0"
  shows "main e w =
    (Exit 77,
     w\<lparr>stdout := stdout w @ [''Please run this as root/fakeroot to ensure proper ownership in the resulting deb archive.'']\<rparr>)"
  using assms by (simp add: main_def print_def)

theorem unprivileged_run_exits_77_witness:
  "3 \<le> length (argv (package_env ''foo''\<lparr>euid := 1000\<rparr>))
   \<and> euid (package_env ''foo''\<lparr>euid := 1000\<rparr>) \<noteq> 0
   \<and> main (package_env ''foo''\<lparr>euid := 1000\<rparr>) example_world =
       (Exit 77,
        example_world\<lparr>stdout := [''Please run this as root/fakeroot to ensure proper ownership in the resulting deb archive.'']\<rparr>)"
  using unprivileged_run_exits_77 [of "package_env ''foo''\<lparr>euid := 1000\<rparr>" example_world]
  by (simp add: package_env_def example_world_def)

text \<open>
  The claim as stated, ``regardless of whether the arguments are otherwise valid'', fails
  when an argument is missing: \<^verbatim>\<open>sys.argv[1]\<close> is read before the check, so the run
  ends in an \<^verbatim>\<open>IndexError\<close>, not with status 77, and prints nothing to standard output.
\<close>

theorem unprivileged_run_counterexample:
  "euid (package_env ''foo''\<lparr>argv := [''deb-reversion''], euid := 1000\<rparr>) \<noteq> 0
   \<and> main (package_env ''foo''\<lparr>argv := [''deb-reversion''], euid := 1000\<rparr>) example_world =
       (Uncaught (IndexError ''list index out of range''), example_world)
   \<and> fst (main (package_env ''foo''\<lparr>argv := [''deb-reversion''], euid := 1000\<rparr>) example_world) \<noteq> Exit 77"
  by (simp add: main_def package_env_def)

end
